theory Spec2Isabelle
  imports Complex_Main
begin

section \<open>Flexible connected position strategy\<close>

text \<open>
  A shallow embedding of \<^verbatim>\<open>FlexibleConnectedPositionStrategy\<close>
  (\<^verbatim>\<open>src/cdk/overlay/position/flexible-connected-position-strategy.ts\<close>).
  JavaScript numbers are modelled as exact reals: \<^verbatim>\<open>NaN\<close>, the infinities and
  binary rounding are outside the model. A method of the class is a function of the
  strategy's fields (\<open>State\<close>) and of the values its collaborators return while the
  method runs (\<open>Env\<close>: the document, the viewport ruler, the origin element, the pane,
  the overlay's direction and configuration). The collaborators give the same answers
  throughout one call, and a subscriber of \<^verbatim>\<open>positionChanges\<close> does not call back into the
  strategy while it is notified.
\<close>

subsection \<open>Geometry primitives\<close>

record Point =
  pt_x :: real
  pt_y :: real

record ClientRect =
  r_top :: real
  r_right :: real
  r_bottom :: real
  r_left :: real
  r_width :: real
  r_height :: real

text \<open>\<^verbatim>\<open>BoundingBoxRect\<close>: the four edges are assigned only on some branches of
  \<^verbatim>\<open>_calculateBoundingBoxRect\<close>, an unassigned one is \<^verbatim>\<open>undefined\<close> (\<open>None\<close>).\<close>

record BoundingBoxRect =
  bb_top :: "real option"
  bb_left :: "real option"
  bb_bottom :: "real option"
  bb_right :: "real option"
  bb_height :: real
  bb_width :: real

text \<open>\<^verbatim>\<open>ConnectedPosition\<close>. The four connection fields hold the string the caller passed;
  \<open>ref\<close> is the identity of the JavaScript object (\<^verbatim>\<open>indexOf\<close> compares by identity).
  \<open>panelClass\<close> is the value after \<^verbatim>\<open>coerceArray\<close>, empty when absent.\<close>

record ConnectedPosition =
  ref :: nat
  originX :: string
  originY :: string
  overlayX :: string
  overlayY :: string
  weight :: "real option"
  offsetX :: "real option"
  offsetY :: "real option"
  panelClass :: "string list"

record OverlayFit =
  isCompletelyWithinViewport :: bool
  fitsInViewportVertically :: bool
  fitsInViewportHorizontally :: bool
  visibleArea :: real

record FallbackPosition =
  fb_position :: ConnectedPosition
  fb_originPoint :: Point
  fb_overlayPoint :: Point
  fb_overlayFit :: OverlayFit
  fb_overlayRect :: ClientRect

record FlexibleFit =
  ff_position :: ConnectedPosition
  ff_origin :: Point
  ff_overlayRect :: ClientRect
  ff_boundingBoxRect :: BoundingBoxRect

text \<open>\<^verbatim>\<open>getRoundedBoundingClientRect\<close>: every value rounded down to the pixel.\<close>

definition getRoundedBoundingClientRect :: "ClientRect \<Rightarrow> ClientRect" where
  "getRoundedBoundingClientRect clientRect =
     \<lparr> r_top = of_int \<lfloor>r_top clientRect\<rfloor>,
       r_right = of_int \<lfloor>r_right clientRect\<rfloor>,
       r_bottom = of_int \<lfloor>r_bottom clientRect\<rfloor>,
       r_left = of_int \<lfloor>r_left clientRect\<rfloor>,
       r_width = of_int \<lfloor>r_width clientRect\<rfloor>,
       r_height = of_int \<lfloor>r_height clientRect\<rfloor> \<rparr>"

text \<open>\<^verbatim>\<open>_subtractOverflows(length, ...overflows)\<close>: a \<^verbatim>\<open>reduce\<close> from \<open>length\<close>.\<close>

definition subtractOverflows :: "real \<Rightarrow> real list \<Rightarrow> real" where
  "subtractOverflows len overflows =
     foldl (\<lambda>currentValue currentOverflow. currentValue - max currentOverflow 0) len overflows"

subsection \<open>Values supplied by the caller and by the collaborators\<close>

text \<open>A \<^verbatim>\<open>number | string\<close> of the overlay configuration. A string is kept as what
  \<^verbatim>\<open>input.split(cssUnitPattern)\<close> and \<^verbatim>\<open>parseFloat\<close> read from it: its number and its
  unit suffix (empty when it has none).\<close>

datatype CssValue = CssNumber real | CssString real string

text \<open>\<^verbatim>\<open>getPixelValue\<close>: a number (zero is falsy, \<^verbatim>\<open>input || null\<close>) or a pixel string.\<close>

fun getPixelValue :: "CssValue option \<Rightarrow> real option" where
  "getPixelValue None = None"
| "getPixelValue (Some (CssNumber n)) = (if n = 0 then None else Some n)"
| "getPixelValue (Some (CssString v units)) =
     (if units = [] \<or> units = ''px'' then Some v else None)"

text \<open>The origin: an element (its live rectangle is read from the environment) or a point
  with an optional size.\<close>

datatype Origin = ElementOrigin | PointOrigin real real "real option" "real option"

record ScrollingVisibility =
  isOriginClipped :: bool
  isOriginOutsideView :: bool
  isOverlayClipped :: bool
  isOverlayOutsideView :: bool

record OverlayReference =
  ov_id :: nat
  hostElement :: nat
  overlayElement :: nat

text \<open>What the collaborators answer during one call: \<^verbatim>\<open>Platform.isBrowser\<close>,
  \<^verbatim>\<open>ngDevMode\<close> (\<open>None\<close> when the global is not defined), the document's client size, the
  viewport ruler's scroll position, the bounding rectangles of the origin element and of
  the pane, the direction and size limits of the attached overlay, the top of the overlay
  container, the number of subscribers of \<^verbatim>\<open>positionChanges\<close> and the scroll visibility
  computed by \<^verbatim>\<open>scroll-clip\<close>.\<close>

record Env =
  isBrowser :: bool
  ngDevMode :: "bool option"
  clientWidth :: real
  clientHeight :: real
  scrollTop :: real
  scrollLeft :: real
  originElementRect :: ClientRect
  paneRect :: ClientRect
  direction :: string
  minWidth :: "CssValue option"
  minHeight :: "CssValue option"
  maxWidth :: "CssValue option"
  maxHeight :: "CssValue option"
  containerTop :: real
  observers :: nat
  scrollVisibility :: ScrollingVisibility

text \<open>A style value written to an element: a pixel length (\<^verbatim>\<open>`${value}px`\<close>), a literal
  text, the configuration's own string, or the transform built from the two offsets.\<close>

datatype StyleValue =
  Px real | Text string | Css CssValue | Translate "real option" "real option"

type_synonym Styles = "string \<rightharpoonup> StyleValue"

text \<open>\<^verbatim>\<open>extendStyles\<close> copies every own key of the source over the destination.\<close>

definition extendStyles :: "Styles \<Rightarrow> Styles \<Rightarrow> Styles" where
  "extendStyles destination source = destination ++ source"

text \<open>\<^verbatim>\<open>coerceCssPixelValue\<close> of \<^verbatim>\<open>@angular/cdk/coercion\<close>: the empty text for
  \<^verbatim>\<open>null\<close> or \<^verbatim>\<open>undefined\<close>, a string as it is, a number with \<^verbatim>\<open>px\<close> appended.\<close>

definition coerceCssPixelValue :: "real option \<Rightarrow> StyleValue" where
  "coerceCssPixelValue v = (case v of None \<Rightarrow> Text [] | Some n \<Rightarrow> Px n)"

fun coerceCssPixelValueCfg :: "CssValue \<Rightarrow> StyleValue" where
  "coerceCssPixelValueCfg (CssNumber n) = Px n"
| "coerceCssPixelValueCfg (CssString v u) = Css (CssString v u)"

text \<open>Truthiness of a configured size: a nonzero number or a string.\<close>

fun truthy :: "CssValue option \<Rightarrow> bool" where
  "truthy None = False"
| "truthy (Some (CssNumber n)) = (n \<noteq> 0)"
| "truthy (Some (CssString v u)) = True"

record ConnectedOverlayPositionChange =
  connectionPair :: ConnectedPosition
  scrollableViewProperties :: ScrollingVisibility

subsection \<open>The strategy's fields\<close>

text \<open>The private fields of the class, under their names without the underscore.
  \<open>elementStyle\<close> and \<open>classList\<close> are the inline styles and classes of the DOM elements the
  strategy writes to; \<open>positionChanges\<close> lists the events the subject has emitted, oldest
  first; \<open>resizeSubscribed\<close> says whether \<^verbatim>\<open>_resizeSubscription\<close> is live and
  \<open>positionChangesCompleted\<close> whether the subject was completed.\<close>

record State =
  overlayRef :: "OverlayReference option"
  isInitialRender :: bool
  lastBoundingBoxSize :: BoundingBoxRect
  isPushed :: bool
  canPush :: bool
  growAfterOpen :: bool
  hasFlexibleDimensions :: bool
  positionLocked :: bool
  originRect :: ClientRect
  overlayRect :: ClientRect
  viewportRect :: ClientRect
  viewportMargin :: real
  preferredPositions :: "ConnectedPosition list"
  origin :: Origin
  pane :: "nat option"
  isDisposed :: bool
  boundingBox :: "nat option"
  lastPosition :: "ConnectedPosition option"
  resizeSubscribed :: bool
  defaultOffsetX :: real
  defaultOffsetY :: real
  transformOriginSelector :: string
  appliedPanelClasses :: "string list"
  previousPushAmount :: "Point option"
  positionChanges :: "ConnectedOverlayPositionChange list"
  positionChangesCompleted :: bool
  elementStyle :: "nat \<Rightarrow> Styles"
  classList :: "nat \<Rightarrow> string set"
  transformOrigin :: "nat \<Rightarrow> (string \<times> string) option"

subsection \<open>Fit evaluator\<close>

definition isRtl :: "Env \<Rightarrow> bool" where
  "isRtl env = (direction env = ''rtl'')"

datatype Axis = AxisX | AxisY

text \<open>\<^verbatim>\<open>_getOffset\<close>: the candidate's own offset, or the strategy's default.\<close>

fun getOffset :: "State \<Rightarrow> ConnectedPosition \<Rightarrow> Axis \<Rightarrow> real" where
  "getOffset s position AxisX =
     (case offsetX position of None \<Rightarrow> defaultOffsetX s | Some v \<Rightarrow> v)"
| "getOffset s position AxisY =
     (case offsetY position of None \<Rightarrow> defaultOffsetY s | Some v \<Rightarrow> v)"

definition getOriginPoint :: "Env \<Rightarrow> ClientRect \<Rightarrow> ConnectedPosition \<Rightarrow> Point" where
  "getOriginPoint env rect pos =
     (let x = (if originX pos = ''center'' then r_left rect + (r_width rect / 2)
               else (let startX = (if isRtl env then r_right rect else r_left rect);
                         endX = (if isRtl env then r_left rect else r_right rect)
                     in if originX pos = ''start'' then startX else endX));
          y = (if originY pos = ''center'' then r_top rect + (r_height rect / 2)
               else if originY pos = ''top'' then r_top rect else r_bottom rect)
      in \<lparr> pt_x = x, pt_y = y \<rparr>)"

definition getOverlayPoint :: "Env \<Rightarrow> Point \<Rightarrow> ClientRect \<Rightarrow> ConnectedPosition \<Rightarrow> Point" where
  "getOverlayPoint env originPoint rect pos =
     (let overlayStartX =
            (if overlayX pos = ''center'' then - r_width rect / 2
             else if overlayX pos = ''start'' then (if isRtl env then - r_width rect else 0)
             else (if isRtl env then 0 else - r_width rect));
          overlayStartY =
            (if overlayY pos = ''center'' then - r_height rect / 2
             else if overlayY pos = ''top'' then 0 else - r_height rect)
      in \<lparr> pt_x = pt_x originPoint + overlayStartX, pt_y = pt_y originPoint + overlayStartY \<rparr>)"

text \<open>\<^verbatim>\<open>_getOverlayFit\<close>. Its local values \<^verbatim>\<open>x\<close>, \<^verbatim>\<open>y\<close> (the point moved by the
  offsets, a zero offset is falsy and skipped), \<^verbatim>\<open>visibleWidth\<close> and \<^verbatim>\<open>visibleHeight\<close> are
  definitions of their own, so that properties of them can be stated.\<close>

definition fitX :: "State \<Rightarrow> Point \<Rightarrow> ConnectedPosition \<Rightarrow> real" where
  "fitX s point position =
     (let offX = getOffset s position AxisX
      in if offX \<noteq> 0 then pt_x point + offX else pt_x point)"

definition fitY :: "State \<Rightarrow> Point \<Rightarrow> ConnectedPosition \<Rightarrow> real" where
  "fitY s point position =
     (let offY = getOffset s position AxisY
      in if offY \<noteq> 0 then pt_y point + offY else pt_y point)"

definition visibleWidth :: "State \<Rightarrow> Point \<Rightarrow> ClientRect \<Rightarrow> ClientRect \<Rightarrow> ConnectedPosition \<Rightarrow> real" where
  "visibleWidth s point rawOverlayRect viewport position =
     (let overlay = getRoundedBoundingClientRect rawOverlayRect;
          x = fitX s point position;
          leftOverflow = 0 - x;
          rightOverflow = (x + r_width overlay) - r_width viewport
      in subtractOverflows (r_width overlay) [leftOverflow, rightOverflow])"

definition visibleHeight :: "State \<Rightarrow> Point \<Rightarrow> ClientRect \<Rightarrow> ClientRect \<Rightarrow> ConnectedPosition \<Rightarrow> real" where
  "visibleHeight s point rawOverlayRect viewport position =
     (let overlay = getRoundedBoundingClientRect rawOverlayRect;
          y = fitY s point position;
          topOverflow = 0 - y;
          bottomOverflow = (y + r_height overlay) - r_height viewport
      in subtractOverflows (r_height overlay) [topOverflow, bottomOverflow])"

definition getOverlayFit :: "State \<Rightarrow> Point \<Rightarrow> ClientRect \<Rightarrow> ClientRect \<Rightarrow> ConnectedPosition \<Rightarrow> OverlayFit" where
  "getOverlayFit s point rawOverlayRect viewport position =
     (let overlay = getRoundedBoundingClientRect rawOverlayRect;
          vw = visibleWidth s point rawOverlayRect viewport position;
          vh = visibleHeight s point rawOverlayRect viewport position;
          area = vw * vh
      in \<lparr> isCompletelyWithinViewport = (r_width overlay * r_height overlay = area),
           fitsInViewportVertically = (vh = r_height overlay),
           fitsInViewportHorizontally = (vw = r_width overlay),
           visibleArea = area \<rparr>)"


text \<open>\<^verbatim>\<open>_canFitWithFlexibleDimensions\<close>.\<close>

definition canFitWithFlexibleDimensions :: "State \<Rightarrow> Env \<Rightarrow> OverlayFit \<Rightarrow> Point \<Rightarrow> ClientRect \<Rightarrow> bool" where
  "canFitWithFlexibleDimensions s env fit point viewport =
     (if hasFlexibleDimensions s then
        (let availableHeight = r_bottom viewport - pt_y point;
             availableWidth = r_right viewport - pt_x point;
             minH = getPixelValue (minHeight env);
             minW = getPixelValue (minWidth env);
             verticalFit = (fitsInViewportVertically fit \<or>
                (case minH of None \<Rightarrow> False | Some m \<Rightarrow> m \<le> availableHeight));
             horizontalFit = (fitsInViewportHorizontally fit \<or>
                (case minW of None \<Rightarrow> False | Some m \<Rightarrow> m \<le> availableWidth))
         in verticalFit \<and> horizontalFit)
      else False)"

subsection \<open>Push resolver\<close>

record ViewportScrollPosition =
  sp_top :: real
  sp_left :: real

text \<open>The amount \<^verbatim>\<open>{x: pushX, y: pushY}\<close> that \<^verbatim>\<open>_pushOverlayOnScreen\<close> computes when it
  does not reuse the previous one. \<^verbatim>\<open>a || b\<close> on numbers is \<open>b\<close> when \<open>a\<close> is zero.\<close>

definition computePush :: "State \<Rightarrow> Point \<Rightarrow> ClientRect \<Rightarrow> ViewportScrollPosition \<Rightarrow> Point" where
  "computePush s start rawOverlayRect scrollPosition =
     (let overlay = getRoundedBoundingClientRect rawOverlayRect;
          viewport = viewportRect s;
          overflowRight = max (pt_x start + r_width overlay - r_width viewport) 0;
          overflowBottom = max (pt_y start + r_height overlay - r_height viewport) 0;
          overflowTop = max (r_top viewport - sp_top scrollPosition - pt_y start) 0;
          overflowLeft = max (r_left viewport - sp_left scrollPosition - pt_x start) 0;
          pushX = (if r_width overlay \<le> r_width viewport
                   then (if overflowLeft \<noteq> 0 then overflowLeft else - overflowRight)
                   else (if pt_x start < viewportMargin s
                         then (r_left viewport - sp_left scrollPosition) - pt_x start else 0));
          pushY = (if r_height overlay \<le> r_height viewport
                   then (if overflowTop \<noteq> 0 then overflowTop else - overflowBottom)
                   else (if pt_y start < viewportMargin s
                         then (r_top viewport - sp_top scrollPosition) - pt_y start else 0))
      in \<lparr> pt_x = pushX, pt_y = pushY \<rparr>)"

text \<open>\<^verbatim>\<open>_pushOverlayOnScreen\<close> returns the pushed point and stores the amount in
  \<^verbatim>\<open>_previousPushAmount\<close>.\<close>

definition pushOverlayOnScreen :: "State \<Rightarrow> Point \<Rightarrow> ClientRect \<Rightarrow> ViewportScrollPosition \<Rightarrow> Point \<times> State" where
  "pushOverlayOnScreen s start rawOverlayRect scrollPosition =
     (case previousPushAmount s of
        Some prev \<Rightarrow>
          if positionLocked s
          then (\<lparr> pt_x = pt_x start + pt_x prev, pt_y = pt_y start + pt_y prev \<rparr>, s)
          else (let push = computePush s start rawOverlayRect scrollPosition
                in (\<lparr> pt_x = pt_x start + pt_x push, pt_y = pt_y start + pt_y push \<rparr>,
                    s\<lparr> previousPushAmount := Some push \<rparr>))
      | None \<Rightarrow>
          (let push = computePush s start rawOverlayRect scrollPosition
           in (\<lparr> pt_x = pt_x start + pt_x push, pt_y = pt_y start + pt_y push \<rparr>,
               s\<lparr> previousPushAmount := Some push \<rparr>)))"

subsection \<open>Bounding-box sizing\<close>

text \<open>\<^verbatim>\<open>_calculateBoundingBoxRect\<close>, one axis at a time: (size, leading edge, trailing
  edge).\<close>

definition boundingBoxVertical :: "State \<Rightarrow> Point \<Rightarrow> ConnectedPosition \<Rightarrow> real \<times> real option \<times> real option" where
  "boundingBoxVertical s orig position =
     (let viewport = viewportRect s in
      if overlayY position = ''top'' then
        (let top' = pt_y orig
         in (r_height viewport - top' + viewportMargin s, Some top', None))
      else if overlayY position = ''bottom'' then
        (let bottom = r_height viewport - pt_y orig + viewportMargin s * 2
         in (r_height viewport - bottom + viewportMargin s, None, Some bottom))
      else
        (let smallestDistanceToViewportEdge =
               min (r_bottom viewport - pt_y orig + r_top viewport) (pt_y orig);
             previousHeight = bb_height (lastBoundingBoxSize s);
             height = smallestDistanceToViewportEdge * 2;
             top' = (if height > previousHeight \<and> \<not> isInitialRender s \<and> \<not> growAfterOpen s
                    then pt_y orig - (previousHeight / 2)
                    else pt_y orig - smallestDistanceToViewportEdge)
         in (height, Some top', None)))"

definition boundingBoxHorizontal :: "State \<Rightarrow> Env \<Rightarrow> Point \<Rightarrow> ConnectedPosition \<Rightarrow> real \<times> real option \<times> real option" where
  "boundingBoxHorizontal s env orig position =
     (let viewport = viewportRect s;
          rtl = isRtl env;
          isBoundedByRightViewportEdge =
            ((overlayX position = ''start'' \<and> \<not> rtl) \<or> (overlayX position = ''end'' \<and> rtl));
          isBoundedByLeftViewportEdge =
            ((overlayX position = ''end'' \<and> \<not> rtl) \<or> (overlayX position = ''start'' \<and> rtl))
      in
      if isBoundedByLeftViewportEdge then
        (pt_x orig - viewportMargin s, None,
         Some (r_width viewport - pt_x orig + viewportMargin s))
      else if isBoundedByRightViewportEdge then
        (r_right viewport - pt_x orig, Some (pt_x orig), None)
      else
        (let smallestDistanceToViewportEdge =
               min (r_right viewport - pt_x orig + r_left viewport) (pt_x orig);
             previousWidth = bb_width (lastBoundingBoxSize s);
             width = smallestDistanceToViewportEdge * 2;
             left = (if width > previousWidth \<and> \<not> isInitialRender s \<and> \<not> growAfterOpen s
                     then pt_x orig - (previousWidth / 2)
                     else pt_x orig - smallestDistanceToViewportEdge)
         in (width, Some left, None)))"

definition calculateBoundingBoxRect :: "State \<Rightarrow> Env \<Rightarrow> Point \<Rightarrow> ConnectedPosition \<Rightarrow> BoundingBoxRect" where
  "calculateBoundingBoxRect s env orig position =
     (case boundingBoxVertical s orig position of (height, top', bottom) \<Rightarrow>
      case boundingBoxHorizontal s env orig position of (width, left, right) \<Rightarrow>
        \<lparr> bb_top = top', bb_left = left, bb_bottom = bottom, bb_right = right,
          bb_height = height, bb_width = width \<rparr>)"


subsection \<open>Writing the styles\<close>

definition hasExactPosition :: "State \<Rightarrow> bool" where
  "hasExactPosition s = (\<not> hasFlexibleDimensions s \<or> isPushed s)"

text \<open>The elements \<^verbatim>\<open>_pane\<close> and \<^verbatim>\<open>_boundingBox\<close>. The callers below check that both are set
  before they write to them.\<close>

definition paneEl :: "State \<Rightarrow> nat" where
  "paneEl s = the (pane s)"

definition boundingBoxEl :: "State \<Rightarrow> nat" where
  "boundingBoxEl s = the (boundingBox s)"

definition writeStyles :: "State \<Rightarrow> nat \<Rightarrow> Styles \<Rightarrow> State" where
  "writeStyles s el styles =
     s\<lparr> elementStyle := (elementStyle s)(el := extendStyles (elementStyle s el) styles) \<rparr>"

text \<open>\<^verbatim>\<open>_setTransformOrigin\<close>: the origin written to every element that matches the
  selector inside the bounding box.\<close>

definition setTransformOrigin :: "State \<Rightarrow> Env \<Rightarrow> ConnectedPosition \<Rightarrow> State" where
  "setTransformOrigin s env position =
     (if transformOriginSelector s = [] then s
      else
        (let yOrigin = overlayY position;
             xOrigin = (if overlayX position = ''center'' then ''center''
                        else if isRtl env
                        then (if overlayX position = ''start'' then ''right'' else ''left'')
                        else (if overlayX position = ''start'' then ''left'' else ''right''))
         in s\<lparr> transformOrigin := (transformOrigin s)(boundingBoxEl s := Some (xOrigin, yOrigin)) \<rparr>))"

text \<open>\<^verbatim>\<open>_getExactOverlayY\<close> and \<^verbatim>\<open>_getExactOverlayX\<close>: the styles, and the state that the push
  may have changed.\<close>

definition getExactOverlayY :: "State \<Rightarrow> Env \<Rightarrow> ConnectedPosition \<Rightarrow> Point \<Rightarrow> ViewportScrollPosition \<Rightarrow> Styles \<times> State" where
  "getExactOverlayY s env position originPoint scrollPosition =
     (let overlayPoint0 = getOverlayPoint env originPoint (overlayRect s) position;
          (overlayPoint1, s') =
             (if isPushed s then pushOverlayOnScreen s overlayPoint0 (overlayRect s) scrollPosition
              else (overlayPoint0, s));
          virtualKeyboardOffset = containerTop env;
          overlayPoint = overlayPoint1\<lparr> pt_y := pt_y overlayPoint1 - virtualKeyboardOffset \<rparr>
      in if overlayY position = ''bottom'' then
           (let documentHeight = clientHeight env
            in ([''top'' \<mapsto> Text [],
                 ''bottom'' \<mapsto> Px (documentHeight - (pt_y overlayPoint + r_height (overlayRect s')))], s'))
         else
           ([''top'' \<mapsto> coerceCssPixelValue (Some (pt_y overlayPoint)),
             ''bottom'' \<mapsto> Text []], s'))"

definition getExactOverlayX :: "State \<Rightarrow> Env \<Rightarrow> ConnectedPosition \<Rightarrow> Point \<Rightarrow> ViewportScrollPosition \<Rightarrow> Styles \<times> State" where
  "getExactOverlayX s env position originPoint scrollPosition =
     (let overlayPoint0 = getOverlayPoint env originPoint (overlayRect s) position;
          (overlayPoint, s') =
             (if isPushed s then pushOverlayOnScreen s overlayPoint0 (overlayRect s) scrollPosition
              else (overlayPoint0, s));
          horizontalStyleProperty =
             (if isRtl env then (if overlayX position = ''end'' then ''left'' else ''right'')
              else (if overlayX position = ''end'' then ''right'' else ''left''))
      in if horizontalStyleProperty = ''right'' then
           (let documentWidth = clientWidth env
            in ([''left'' \<mapsto> Text [],
                 ''right'' \<mapsto> Px (documentWidth - (pt_x overlayPoint + r_width (overlayRect s')))], s'))
         else
           ([''left'' \<mapsto> coerceCssPixelValue (Some (pt_x overlayPoint)),
             ''right'' \<mapsto> Text []], s'))"

text \<open>\<^verbatim>\<open>_setOverlayElementStyles\<close>: first the styles it assembles (the push may record
  its amount on the way), then the write to the pane.\<close>

definition overlayElementStyles :: "State \<Rightarrow> Env \<Rightarrow> Point \<Rightarrow> ConnectedPosition \<Rightarrow> Styles \<times> State" where
  "overlayElementStyles s env originPoint position =
     (let exact = hasExactPosition s;
          flexible = hasFlexibleDimensions s;
          (styles1, s1) =
             (if exact then
                (let scrollPosition = \<lparr> sp_top = scrollTop env, sp_left = scrollLeft env \<rparr>;
                     (stylesY, sy) = getExactOverlayY s env position originPoint scrollPosition;
                     (stylesX, sx) = getExactOverlayX sy env position originPoint scrollPosition
                 in (extendStyles (extendStyles Map.empty stylesY) stylesX, sx))
              else ([''position'' \<mapsto> Text ''static''], s));
          offX = getOffset s1 position AxisX;
          offY = getOffset s1 position AxisY;
          styles2 = styles1(''transform'' \<mapsto>
                      Translate (if offX \<noteq> 0 then Some offX else None)
                                (if offY \<noteq> 0 then Some offY else None));
          styles3 = (if truthy (maxHeight env) then
                       (if exact then styles2(''maxHeight'' \<mapsto> coerceCssPixelValueCfg (the (maxHeight env)))
                        else if flexible then styles2(''maxHeight'' \<mapsto> Text [])
                        else styles2)
                     else styles2);
          styles4 = (if truthy (maxWidth env) then
                       (if exact then styles3(''maxWidth'' \<mapsto> coerceCssPixelValueCfg (the (maxWidth env)))
                        else if flexible then styles3(''maxWidth'' \<mapsto> Text [])
                        else styles3)
                     else styles3)
      in (styles4, s1))"

definition setOverlayElementStyles :: "State \<Rightarrow> Env \<Rightarrow> Point \<Rightarrow> ConnectedPosition \<Rightarrow> State" where
  "setOverlayElementStyles s env originPoint position =
     (case overlayElementStyles s env originPoint position of
        (styles, s1) \<Rightarrow> writeStyles s1 (paneEl s1) styles)"

text \<open>The size \<^verbatim>\<open>_setBoundingBoxStyles\<close> applies: the calculated rectangle, each side capped
  by the last size unless this is the initial render or the overlay may grow.\<close>

definition cappedBoundingBoxRect :: "State \<Rightarrow> Env \<Rightarrow> Point \<Rightarrow> ConnectedPosition \<Rightarrow> BoundingBoxRect" where
  "cappedBoundingBoxRect s env orig position =
     (let boundingBoxRect = calculateBoundingBoxRect s env orig position
      in if \<not> isInitialRender s \<and> \<not> growAfterOpen s then
           boundingBoxRect
             \<lparr> bb_height := min (bb_height boundingBoxRect) (bb_height (lastBoundingBoxSize s)),
               bb_width := min (bb_width boundingBoxRect) (bb_width (lastBoundingBoxSize s)) \<rparr>
         else boundingBoxRect)"

definition boundingBoxStyles :: "State \<Rightarrow> Env \<Rightarrow> BoundingBoxRect \<Rightarrow> ConnectedPosition \<Rightarrow> Styles" where
  "boundingBoxStyles s env boundingBoxRect position =
     (if hasExactPosition s then
        [''top'' \<mapsto> Text ''0'', ''left'' \<mapsto> Text ''0'',
         ''bottom'' \<mapsto> Text [], ''right'' \<mapsto> Text [],
         ''maxHeight'' \<mapsto> Text [], ''maxWidth'' \<mapsto> Text [],
         ''width'' \<mapsto> Text ''100%'', ''height'' \<mapsto> Text ''100%'']
      else
        (let styles0 =
               [''height'' \<mapsto> coerceCssPixelValue (Some (bb_height boundingBoxRect)),
                ''top'' \<mapsto> coerceCssPixelValue (bb_top boundingBoxRect),
                ''bottom'' \<mapsto> coerceCssPixelValue (bb_bottom boundingBoxRect),
                ''width'' \<mapsto> coerceCssPixelValue (Some (bb_width boundingBoxRect)),
                ''left'' \<mapsto> coerceCssPixelValue (bb_left boundingBoxRect),
                ''right'' \<mapsto> coerceCssPixelValue (bb_right boundingBoxRect),
                ''alignItems'' \<mapsto>
                  (if overlayX position = ''center'' then Text ''center''
                   else if overlayX position = ''end'' then Text ''flex-end''
                   else Text ''flex-start''),
                ''justifyContent'' \<mapsto>
                  (if overlayY position = ''center'' then Text ''center''
                   else if overlayY position = ''bottom'' then Text ''flex-end''
                   else Text ''flex-start'')];
             styles1 = (if truthy (maxHeight env)
                        then styles0(''maxHeight'' \<mapsto> coerceCssPixelValueCfg (the (maxHeight env)))
                        else styles0);
             styles2 = (if truthy (maxWidth env)
                        then styles1(''maxWidth'' \<mapsto> coerceCssPixelValueCfg (the (maxWidth env)))
                        else styles1)
         in styles2))"

text \<open>\<^verbatim>\<open>_setBoundingBoxStyles\<close>.\<close>

definition setBoundingBoxStyles :: "State \<Rightarrow> Env \<Rightarrow> Point \<Rightarrow> ConnectedPosition \<Rightarrow> State" where
  "setBoundingBoxStyles s env orig position =
     (let boundingBoxRect = cappedBoundingBoxRect s env orig position;
          styles = boundingBoxStyles s env boundingBoxRect position;
          s1 = s\<lparr> lastBoundingBoxSize := boundingBoxRect \<rparr>
      in writeStyles s1 (boundingBoxEl s1) styles)"

definition resetBoundingBoxStyles :: "State \<Rightarrow> State" where
  "resetBoundingBoxStyles s =
     writeStyles s (boundingBoxEl s)
       [''top'' \<mapsto> Text ''0'', ''left'' \<mapsto> Text ''0'', ''right'' \<mapsto> Text ''0'',
        ''bottom'' \<mapsto> Text ''0'', ''height'' \<mapsto> Text [], ''width'' \<mapsto> Text [],
        ''alignItems'' \<mapsto> Text [], ''justifyContent'' \<mapsto> Text []]"

definition resetOverlayElementStyles :: "State \<Rightarrow> State" where
  "resetOverlayElementStyles s =
     writeStyles s (paneEl s)
       [''top'' \<mapsto> Text [], ''left'' \<mapsto> Text [], ''bottom'' \<mapsto> Text [],
        ''right'' \<mapsto> Text [], ''position'' \<mapsto> Text [], ''transform'' \<mapsto> Text []]"

text \<open>\<^verbatim>\<open>_addPanelClasses\<close> and \<^verbatim>\<open>_clearPanelClasses\<close>.\<close>

definition addPanelClass :: "State \<Rightarrow> string \<Rightarrow> State" where
  "addPanelClass s cssClass =
     (if cssClass \<noteq> [] \<and> cssClass \<notin> set (appliedPanelClasses s) then
        s\<lparr> appliedPanelClasses := appliedPanelClasses s @ [cssClass],
           classList := (classList s)(paneEl s := insert cssClass (classList s (paneEl s))) \<rparr>
      else s)"

definition addPanelClasses :: "State \<Rightarrow> string list \<Rightarrow> State" where
  "addPanelClasses s cssClasses =
     (if pane s \<noteq> None then foldl addPanelClass s cssClasses else s)"

definition clearPanelClasses :: "State \<Rightarrow> State" where
  "clearPanelClasses s =
     (if pane s \<noteq> None then
        s\<lparr> classList := (classList s)(paneEl s := classList s (paneEl s) - set (appliedPanelClasses s)),
           appliedPanelClasses := [] \<rparr>
      else s)"

text \<open>\<^verbatim>\<open>_applyPosition\<close>. The change event carries the scroll visibility that
  \<^verbatim>\<open>_getScrollVisibility\<close> obtains from the collaborators; it is emitted only when the
  subject has an observer.\<close>

definition applyPosition :: "State \<Rightarrow> Env \<Rightarrow> ConnectedPosition \<Rightarrow> Point \<Rightarrow> State" where
  "applyPosition s env position originPoint =
     (let s1 = setTransformOrigin s env position;
          s2 = setOverlayElementStyles s1 env originPoint position;
          s3 = setBoundingBoxStyles s2 env originPoint position;
          s4 = (if panelClass position \<noteq> [] then addPanelClasses s3 (panelClass position) else s3);
          s5 = s4\<lparr> lastPosition := Some position \<rparr>;
          s6 = (if observers env > 0 then
                  s5\<lparr> positionChanges := positionChanges s5 @
                        [\<lparr> connectionPair = position,
                           scrollableViewProperties = scrollVisibility env \<rparr>] \<rparr>
                else s5)
      in s6\<lparr> isInitialRender := False \<rparr>)"


subsection \<open>Origin and viewport resolver\<close>

text \<open>\<^verbatim>\<open>_getNarrowedViewportRect\<close>.\<close>

definition getNarrowedViewportRect :: "State \<Rightarrow> Env \<Rightarrow> ClientRect" where
  "getNarrowedViewportRect s env =
     (let width = clientWidth env;
          height = clientHeight env
      in \<lparr> r_top = scrollTop env + viewportMargin s,
           r_right = scrollLeft env + width - viewportMargin s,
           r_bottom = scrollTop env + height - viewportMargin s,
           r_left = scrollLeft env + viewportMargin s,
           r_width = width - (2 * viewportMargin s),
           r_height = height - (2 * viewportMargin s) \<rparr>)"

text \<open>\<^verbatim>\<open>_getOriginRect\<close>. \<^verbatim>\<open>origin.width || 0\<close> is the width, or zero when it is absent.\<close>

definition getOriginRect :: "State \<Rightarrow> Env \<Rightarrow> ClientRect" where
  "getOriginRect s env =
     (case origin s of
        ElementOrigin \<Rightarrow> originElementRect env
      | PointOrigin ox oy w h \<Rightarrow>
          (let width = (case w of None \<Rightarrow> 0 | Some v \<Rightarrow> v);
               height = (case h of None \<Rightarrow> 0 | Some v \<Rightarrow> v)
           in \<lparr> r_top = oy, r_right = ox + width, r_bottom = oy + height, r_left = ox,
                r_width = width, r_height = height \<rparr>))"

subsection \<open>Placement selector\<close>

datatype Error =
  AlreadyAttached | PositionRequired | InvalidPosition string string | TypeError

text \<open>The outcome of the loop over the preferred positions in \<^verbatim>\<open>apply\<close>: it returns from
  inside the loop at a position that fits, or ends with the flexible fits and the
  fallback it has collected.\<close>

datatype ScanResult =
  GoodFit ConnectedPosition Point
| NoGoodFit "FlexibleFit list" "FallbackPosition option"

fun scanPositions :: "State \<Rightarrow> Env \<Rightarrow> ConnectedPosition list \<Rightarrow> FlexibleFit list \<Rightarrow> FallbackPosition option \<Rightarrow> ScanResult" where
  "scanPositions s env [] flexibleFits fallback = NoGoodFit flexibleFits fallback"
| "scanPositions s env (pos # rest) flexibleFits fallback =
     (let originPoint = getOriginPoint env (originRect s) pos;
          overlayPoint = getOverlayPoint env originPoint (overlayRect s) pos;
          overlayFit = getOverlayFit s overlayPoint (overlayRect s) (viewportRect s) pos
      in if isCompletelyWithinViewport overlayFit then GoodFit pos originPoint
         else if canFitWithFlexibleDimensions s env overlayFit overlayPoint (viewportRect s) then
           scanPositions s env rest
             (flexibleFits @
                [\<lparr> ff_position = pos, ff_origin = originPoint, ff_overlayRect = overlayRect s,
                   ff_boundingBoxRect = calculateBoundingBoxRect s env originPoint pos \<rparr>])
             fallback
         else if (case fallback of None \<Rightarrow> True
                  | Some fb \<Rightarrow> visibleArea (fb_overlayFit fb) < visibleArea overlayFit) then
           scanPositions s env rest flexibleFits
             (Some \<lparr> fb_position = pos, fb_originPoint = originPoint,
                     fb_overlayPoint = overlayPoint, fb_overlayFit = overlayFit,
                     fb_overlayRect = overlayRect s \<rparr>)
         else scanPositions s env rest flexibleFits fallback)"

text \<open>The score of a flexible fit: \<^verbatim>\<open>weight || 1\<close> is 1 for an absent weight and for a
  weight of zero.\<close>

definition fitScore :: "FlexibleFit \<Rightarrow> real" where
  "fitScore fit =
     bb_width (ff_boundingBoxRect fit) * bb_height (ff_boundingBoxRect fit) *
       (case weight (ff_position fit) of None \<Rightarrow> 1 | Some w \<Rightarrow> if w = 0 then 1 else w)"

text \<open>The scan for the best flexible fit, from \<^verbatim>\<open>bestFit = null\<close> and
  \<^verbatim>\<open>bestScore = -1\<close>.\<close>

fun pickBestFit :: "FlexibleFit list \<Rightarrow> FlexibleFit option \<Rightarrow> real \<Rightarrow> FlexibleFit option" where
  "pickBestFit [] bestFit bestScore = bestFit"
| "pickBestFit (fit # rest) bestFit bestScore =
     (let score = fitScore fit
      in if score > bestScore then pickBestFit rest (Some fit) score
         else pickBestFit rest bestFit bestScore)"

text \<open>A method that can throw returns \<open>Inl\<close> with the error and the fields as they are at
  the throw, or \<open>Inr\<close> with the fields at its return.

  In every state the public methods reach, \<^verbatim>\<open>_pane\<close>, \<^verbatim>\<open>_boundingBox\<close> and \<^verbatim>\<open>_overlayRef\<close>
  are set together by \<^verbatim>\<open>attach\<close>, and \<^verbatim>\<open>dispose\<close> clears the last two only together with
  setting \<^verbatim>\<open>_isDisposed\<close>. The \<^verbatim>\<open>TypeError\<close> of reading through a missing one is raised
  where \<^verbatim>\<open>_pane\<close> is first read.\<close>

definition attached :: "State \<Rightarrow> bool" where
  "attached s = (pane s \<noteq> None \<and> boundingBox s \<noteq> None \<and> overlayRef s \<noteq> None)"

text \<open>\<^verbatim>\<open>reapplyLastPosition\<close>. \<^verbatim>\<open>this._lastPosition || this._preferredPositions[0]\<close> is
  \<^verbatim>\<open>undefined\<close> on an empty list, and reading its \<^verbatim>\<open>originX\<close> throws.\<close>

definition reapplyLastPosition :: "State \<Rightarrow> Env \<Rightarrow> Error \<times> State + State" where
  "reapplyLastPosition s env =
     (if \<not> isDisposed s \<and> isBrowser env then
        (let s1 = s\<lparr> originRect := getOriginRect s env \<rparr>
         in if \<not> attached s1 then Inl (TypeError, s1)
            else
              (let s2 = s1\<lparr> overlayRect := paneRect env \<rparr>;
                   s3 = s2\<lparr> viewportRect := getNarrowedViewportRect s2 env \<rparr>
               in case (case lastPosition s3 of
                          Some p \<Rightarrow> Some p
                        | None \<Rightarrow> (case preferredPositions s3 of [] \<Rightarrow> None | p # _ \<Rightarrow> Some p)) of
                    None \<Rightarrow> Inl (TypeError, s3)
                  | Some lastPos \<Rightarrow>
                      Inr (applyPosition s3 env lastPos
                             (getOriginPoint env (originRect s3) lastPos))))
      else Inr s)"

text \<open>The three rectangles \<^verbatim>\<open>apply\<close> caches before it looks at the positions: the
  narrowed viewport, the origin and the pane.\<close>

definition measureRects :: "State \<Rightarrow> Env \<Rightarrow> State" where
  "measureRects s env =
     (let s3 = s\<lparr> viewportRect := getNarrowedViewportRect s env \<rparr>;
          s4 = s3\<lparr> originRect := getOriginRect s3 env \<rparr>
      in s4\<lparr> overlayRect := paneRect env \<rparr>)"

text \<open>\<^verbatim>\<open>apply\<close>.\<close>

definition apply' :: "State \<Rightarrow> Env \<Rightarrow> Error \<times> State + State" where
  "apply' s env =
     (if isDisposed s \<or> \<not> isBrowser env then Inr s
      else if \<not> isInitialRender s \<and> positionLocked s \<and> lastPosition s \<noteq> None then
        reapplyLastPosition s env
      else
        (let s1 = clearPanelClasses s
         in if \<not> attached s1 then Inl (TypeError, s1)
            else
              (let s2 = resetBoundingBoxStyles (resetOverlayElementStyles s1);
                   s5 = measureRects s2 env
               in case scanPositions s5 env (preferredPositions s5) [] None of
                    GoodFit pos originPoint \<Rightarrow>
                      Inr (applyPosition (s5\<lparr> isPushed := False \<rparr>) env pos originPoint)
                  | NoGoodFit flexibleFits fallback \<Rightarrow>
                      if flexibleFits \<noteq> [] then
                        (case pickBestFit flexibleFits None (- 1) of
                           None \<Rightarrow> Inl (TypeError, s5\<lparr> isPushed := False \<rparr>)
                         | Some bestFit \<Rightarrow>
                             Inr (applyPosition (s5\<lparr> isPushed := False \<rparr>) env
                                    (ff_position bestFit) (ff_origin bestFit)))
                      else if canPush s5 then
                        (case fallback of
                           None \<Rightarrow> Inl (TypeError, s5\<lparr> isPushed := True \<rparr>)
                         | Some fb \<Rightarrow>
                             Inr (applyPosition (s5\<lparr> isPushed := True \<rparr>) env
                                    (fb_position fb) (fb_originPoint fb)))
                      else
                        (case fallback of
                           None \<Rightarrow> Inl (TypeError, s5)
                         | Some fb \<Rightarrow>
                             Inr (applyPosition s5 env (fb_position fb) (fb_originPoint fb))))))"

subsection \<open>Configuration and lifecycle\<close>

definition devMode :: "Env \<Rightarrow> bool" where
  "devMode env = (ngDevMode env = None \<or> ngDevMode env = Some True)"

text \<open>Modelled from the spec: \<^verbatim>\<open>validateHorizontalPosition\<close> and
  \<^verbatim>\<open>validateVerticalPosition\<close> of \<^verbatim>\<open>connected-position.ts\<close>, which is not among the
  sources. The specification says of them that each candidate's enum fields must be one
  of the allowed literals and that an invalid value is a configuration error surfaced
  immediately.\<close>

definition validateHorizontalPosition :: "string \<Rightarrow> string \<Rightarrow> Error option" where
  "validateHorizontalPosition property v =
     (if v = ''start'' \<or> v = ''center'' \<or> v = ''end'' then None
      else Some (InvalidPosition property v))"

definition validateVerticalPosition :: "string \<Rightarrow> string \<Rightarrow> Error option" where
  "validateVerticalPosition property v =
     (if v = ''top'' \<or> v = ''center'' \<or> v = ''bottom'' then None
      else Some (InvalidPosition property v))"

text \<open>The first error thrown by a sequence of checks.\<close>

fun firstError :: "Error option list \<Rightarrow> Error option" where
  "firstError [] = None"
| "firstError (None # rest) = firstError rest"
| "firstError (Some e # rest) = Some e"

definition validatePair :: "ConnectedPosition \<Rightarrow> Error option" where
  "validatePair pair =
     firstError
       [validateHorizontalPosition ''originX'' (originX pair),
        validateVerticalPosition ''originY'' (originY pair),
        validateHorizontalPosition ''overlayX'' (overlayX pair),
        validateVerticalPosition ''overlayY'' (overlayY pair)]"

text \<open>\<^verbatim>\<open>_validatePositions\<close>: all of it is inside the \<^verbatim>\<open>ngDevMode\<close> guard.\<close>

definition validatePositions :: "State \<Rightarrow> Env \<Rightarrow> Error option" where
  "validatePositions s env =
     (if devMode env then
        (if preferredPositions s = [] then Some PositionRequired
         else firstError (map validatePair (preferredPositions s)))
      else None)"

definition boundingBoxClass :: string where
  "boundingBoxClass = ''cdk-overlay-connected-position-bounding-box''"

text \<open>\<^verbatim>\<open>attach\<close>. The resize subscription made here calls \<open>viewportChange\<close> below.\<close>

definition attach :: "State \<Rightarrow> Env \<Rightarrow> OverlayReference \<Rightarrow> Error \<times> State + State" where
  "attach s env ovRef =
     (if overlayRef s \<noteq> None \<and> Some ovRef \<noteq> overlayRef s \<and> devMode env then
        Inl (AlreadyAttached, s)
      else
        (case validatePositions s env of
           Some e \<Rightarrow> Inl (e, s)
         | None \<Rightarrow>
             Inr (s\<lparr> classList := (classList s)(hostElement ovRef :=
                                     insert boundingBoxClass (classList s (hostElement ovRef))),
                     overlayRef := Some ovRef,
                     boundingBox := Some (hostElement ovRef),
                     pane := Some (overlayElement ovRef),
                     isDisposed := False,
                     isInitialRender := True,
                     lastPosition := None,
                     resizeSubscribed := True \<rparr>)))"

text \<open>The handler of the viewport ruler's change event.\<close>

definition viewportChange :: "State \<Rightarrow> Env \<Rightarrow> Error \<times> State + State" where
  "viewportChange s env =
     (if resizeSubscribed s then apply' (s\<lparr> isInitialRender := True \<rparr>) env else Inr s)"

definition detach :: "State \<Rightarrow> State" where
  "detach s =
     (clearPanelClasses s)
       \<lparr> lastPosition := None, previousPushAmount := None, resizeSubscribed := False \<rparr>"

definition dispose :: "State \<Rightarrow> State" where
  "dispose s =
     (if isDisposed s then s
      else
        (let s1 = (if boundingBox s \<noteq> None then
                     writeStyles s (boundingBoxEl s)
                       [''top'' \<mapsto> Text [], ''left'' \<mapsto> Text [], ''right'' \<mapsto> Text [],
                        ''bottom'' \<mapsto> Text [], ''height'' \<mapsto> Text [], ''width'' \<mapsto> Text [],
                        ''alignItems'' \<mapsto> Text [], ''justifyContent'' \<mapsto> Text []]
                   else s);
             s2 = (if pane s1 \<noteq> None then resetOverlayElementStyles s1 else s1);
             s3 = (case overlayRef s2 of
                     None \<Rightarrow> s2
                   | Some ovRef \<Rightarrow>
                       s2\<lparr> classList := (classList s2)(hostElement ovRef :=
                              classList s2 (hostElement ovRef) - {boundingBoxClass}) \<rparr>);
             s4 = detach s3
         in s4\<lparr> positionChangesCompleted := True, overlayRef := None, boundingBox := None,
                isDisposed := True \<rparr>))"

text \<open>\<^verbatim>\<open>withPositions\<close>: the list is stored and the last position cleared before the
  validation can throw.\<close>

definition withPositions :: "State \<Rightarrow> Env \<Rightarrow> ConnectedPosition list \<Rightarrow> Error \<times> State + State" where
  "withPositions s env positions =
     (let s1 = s\<lparr> preferredPositions := positions \<rparr>;
          s2 = (case lastPosition s1 of
                  None \<Rightarrow> s1
                | Some p \<Rightarrow> if p \<notin> set positions then s1\<lparr> lastPosition := None \<rparr> else s1)
      in case validatePositions s2 env of
           Some e \<Rightarrow> Inl (e, s2)
         | None \<Rightarrow> Inr s2)"

definition withViewportMargin :: "State \<Rightarrow> real \<Rightarrow> State" where
  "withViewportMargin s margin = s\<lparr> viewportMargin := margin \<rparr>"

definition withFlexibleDimensions :: "State \<Rightarrow> bool \<Rightarrow> State" where
  "withFlexibleDimensions s flexibleDimensions = s\<lparr> hasFlexibleDimensions := flexibleDimensions \<rparr>"

definition withGrowAfterOpen :: "State \<Rightarrow> bool \<Rightarrow> State" where
  "withGrowAfterOpen s grow = s\<lparr> growAfterOpen := grow \<rparr>"

definition withPush :: "State \<Rightarrow> bool \<Rightarrow> State" where
  "withPush s push = s\<lparr> canPush := push \<rparr>"

definition withLockedPosition :: "State \<Rightarrow> bool \<Rightarrow> State" where
  "withLockedPosition s isLocked = s\<lparr> positionLocked := isLocked \<rparr>"

definition setOrigin :: "State \<Rightarrow> Origin \<Rightarrow> State" where
  "setOrigin s orig = s\<lparr> origin := orig \<rparr>"

definition withDefaultOffsetX :: "State \<Rightarrow> real \<Rightarrow> State" where
  "withDefaultOffsetX s offset = s\<lparr> defaultOffsetX := offset \<rparr>"

definition withDefaultOffsetY :: "State \<Rightarrow> real \<Rightarrow> State" where
  "withDefaultOffsetY s offset = s\<lparr> defaultOffsetY := offset \<rparr>"

definition withTransformOriginOn :: "State \<Rightarrow> string \<Rightarrow> State" where
  "withTransformOriginOn s selector = s\<lparr> transformOriginSelector := selector \<rparr>"


text \<open>The constructor and the field initialisers. A field without an initialiser is
  \<^verbatim>\<open>undefined\<close> until it is first assigned: the flags are falsy, the optional fields are
  \<open>None\<close>, and the three cached rectangles (assigned before they are ever read) start as
  the zero rectangle. No element has an inline style or a class yet.\<close>

definition zeroRect :: ClientRect where
  "zeroRect = \<lparr> r_top = 0, r_right = 0, r_bottom = 0, r_left = 0, r_width = 0, r_height = 0 \<rparr>"

definition newStrategy :: "Origin \<Rightarrow> State" where
  "newStrategy connectedTo =
     \<lparr> overlayRef = None,
       isInitialRender = False,
       lastBoundingBoxSize = \<lparr> bb_top = None, bb_left = None, bb_bottom = None, bb_right = None,
                               bb_height = 0, bb_width = 0 \<rparr>,
       isPushed = False,
       canPush = True,
       growAfterOpen = False,
       hasFlexibleDimensions = True,
       positionLocked = False,
       originRect = zeroRect,
       overlayRect = zeroRect,
       viewportRect = zeroRect,
       viewportMargin = 0,
       preferredPositions = [],
       origin = connectedTo,
       pane = None,
       isDisposed = False,
       boundingBox = None,
       lastPosition = None,
       resizeSubscribed = False,
       defaultOffsetX = 0,
       defaultOffsetY = 0,
       transformOriginSelector = [],
       appliedPanelClasses = [],
       previousPushAmount = None,
       positionChanges = [],
       positionChangesCompleted = False,
       elementStyle = (\<lambda>_. Map.empty),
       classList = (\<lambda>_. {}),
       transformOrigin = (\<lambda>_. None) \<rparr>"

text \<open>The fields after a method, whether it returned or threw.\<close>

fun resultState :: "Error \<times> State + State \<Rightarrow> State" where
  "resultState (Inl (e, s)) = s"
| "resultState (Inr s) = s"

text \<open>The states a strategy can be in: it is constructed, and then any public method is
  called, with whatever the collaborators answer at that call.\<close>

inductive reachable :: "State \<Rightarrow> bool" where
  r_new: "reachable (newStrategy connectedTo)"
| r_attach: "reachable s \<Longrightarrow> reachable (resultState (attach s env ovRef))"
| r_apply: "reachable s \<Longrightarrow> reachable (resultState (apply' s env))"
| r_reapply: "reachable s \<Longrightarrow> reachable (resultState (reapplyLastPosition s env))"
| r_viewportChange: "reachable s \<Longrightarrow> reachable (resultState (viewportChange s env))"
| r_detach: "reachable s \<Longrightarrow> reachable (detach s)"
| r_dispose: "reachable s \<Longrightarrow> reachable (dispose s)"
| r_withPositions: "reachable s \<Longrightarrow> reachable (resultState (withPositions s env positions))"
| r_withViewportMargin: "reachable s \<Longrightarrow> reachable (withViewportMargin s margin)"
| r_withFlexibleDimensions: "reachable s \<Longrightarrow> reachable (withFlexibleDimensions s b)"
| r_withGrowAfterOpen: "reachable s \<Longrightarrow> reachable (withGrowAfterOpen s b)"
| r_withPush: "reachable s \<Longrightarrow> reachable (withPush s b)"
| r_withLockedPosition: "reachable s \<Longrightarrow> reachable (withLockedPosition s b)"
| r_setOrigin: "reachable s \<Longrightarrow> reachable (setOrigin s orig)"
| r_withDefaultOffsetX: "reachable s \<Longrightarrow> reachable (withDefaultOffsetX s offset)"
| r_withDefaultOffsetY: "reachable s \<Longrightarrow> reachable (withDefaultOffsetY s offset)"
| r_withTransformOriginOn: "reachable s \<Longrightarrow> reachable (withTransformOriginOn s selector)"

subsection \<open>Notions used to state the properties\<close>

text \<open>The state in which \<^verbatim>\<open>apply\<close> runs its loop: panel classes cleared, styles reset, the
  three rectangles measured.\<close>

definition measured :: "State \<Rightarrow> Env \<Rightarrow> State" where
  "measured s env =
     measureRects (resetBoundingBoxStyles (resetOverlayElementStyles (clearPanelClasses s))) env"

text \<open>What one pass of the loop computes for a position \<open>pos\<close> in the measured state \<open>m\<close>:
  its origin point, overlay point, overlay fit, whether it is a flexible fit, and the
  record pushed to \<^verbatim>\<open>flexibleFits\<close>.\<close>

definition positionOrigin :: "State \<Rightarrow> Env \<Rightarrow> ConnectedPosition \<Rightarrow> Point" where
  "positionOrigin m env pos = getOriginPoint env (originRect m) pos"

definition positionOverlayPoint :: "State \<Rightarrow> Env \<Rightarrow> ConnectedPosition \<Rightarrow> Point" where
  "positionOverlayPoint m env pos =
     getOverlayPoint env (positionOrigin m env pos) (overlayRect m) pos"

definition positionFit :: "State \<Rightarrow> Env \<Rightarrow> ConnectedPosition \<Rightarrow> OverlayFit" where
  "positionFit m env pos =
     getOverlayFit m (positionOverlayPoint m env pos) (overlayRect m) (viewportRect m) pos"

definition fitsFlexibly :: "State \<Rightarrow> Env \<Rightarrow> ConnectedPosition \<Rightarrow> bool" where
  "fitsFlexibly m env pos =
     canFitWithFlexibleDimensions m env (positionFit m env pos)
       (positionOverlayPoint m env pos) (viewportRect m)"

definition flexibleFitOf :: "State \<Rightarrow> Env \<Rightarrow> ConnectedPosition \<Rightarrow> FlexibleFit" where
  "flexibleFitOf m env pos =
     \<lparr> ff_position = pos, ff_origin = positionOrigin m env pos, ff_overlayRect = overlayRect m,
       ff_boundingBoxRect = calculateBoundingBoxRect m env (positionOrigin m env pos) pos \<rparr>"

text \<open>The flexible fits the loop has collected when no position fits completely, in list
  order.\<close>

definition flexibleFitsOf :: "State \<Rightarrow> Env \<Rightarrow> ConnectedPosition list \<Rightarrow> FlexibleFit list" where
  "flexibleFitsOf m env positions =
     map (flexibleFitOf m env) (filter (fitsFlexibly m env) positions)"

text \<open>\<^verbatim>\<open>apply\<close> runs the whole selection: the strategy is live, in a browser, attached, and the
  locked shortcut does not apply.\<close>

definition runsSelection :: "State \<Rightarrow> Env \<Rightarrow> bool" where
  "runsSelection s env =
     (\<not> isDisposed s \<and> isBrowser env \<and> attached s \<and>
      (isInitialRender s \<or> \<not> positionLocked s \<or> lastPosition s = None))"

text \<open>\<^verbatim>\<open>apply\<close> takes the locked shortcut.\<close>

definition takesLockedShortcut :: "State \<Rightarrow> Env \<Rightarrow> bool" where
  "takesLockedShortcut s env =
     (\<not> isDisposed s \<and> isBrowser env \<and> attached s \<and>
      \<not> isInitialRender s \<and> positionLocked s \<and> lastPosition s \<noteq> None)"

text \<open>The events one call of \<^verbatim>\<open>_applyPosition\<close> emits.\<close>

definition changeEvents :: "Env \<Rightarrow> ConnectedPosition \<Rightarrow> ConnectedOverlayPositionChange list" where
  "changeEvents env p =
     (if observers env > 0
      then [\<lparr> connectionPair = p, scrollableViewProperties = scrollVisibility env \<rparr>] else [])"

text \<open>The score as the specification words it, \<^verbatim>\<open>weight ?? 1\<close>: only an absent weight
  counts as 1.\<close>

definition specScore :: "FlexibleFit \<Rightarrow> real" where
  "specScore fit =
     bb_width (ff_boundingBoxRect fit) * bb_height (ff_boundingBoxRect fit) *
       (case weight (ff_position fit) of None \<Rightarrow> 1 | Some w \<Rightarrow> w)"

text \<open>The horizontal mirror of a position: \<^verbatim>\<open>start\<close> and \<^verbatim>\<open>end\<close> swapped on both
  \<^verbatim>\<open>originX\<close> and \<^verbatim>\<open>overlayX\<close>.\<close>

definition swapStartEnd :: "string \<Rightarrow> string" where
  "swapStartEnd v = (if v = ''start'' then ''end'' else if v = ''end'' then ''start'' else v)"

definition mirror :: "ConnectedPosition \<Rightarrow> ConnectedPosition" where
  "mirror pos = pos\<lparr> originX := swapStartEnd (originX pos), overlayX := swapStartEnd (overlayX pos) \<rparr>"

definition validHorizontal :: "string \<Rightarrow> bool" where
  "validHorizontal v = (v = ''start'' \<or> v = ''center'' \<or> v = ''end'')"

definition validVertical :: "string \<Rightarrow> bool" where
  "validVertical v = (v = ''top'' \<or> v = ''center'' \<or> v = ''bottom'')"

text \<open>The stored last position is absent or one of the preferred positions.\<close>

definition lastPositionListed :: "State \<Rightarrow> bool" where
  "lastPositionListed s =
     (case lastPosition s of None \<Rightarrow> True | Some p \<Rightarrow> p \<in> set (preferredPositions s))"

subsection \<open>A concrete scene\<close>

text \<open>The scenario of the specification: an origin of 20 by 20 at (10, 10) in a viewport of
  100 by 100, not scrolled, no margin, left to right, one subscriber.\<close>

definition mkRect :: "real \<Rightarrow> real \<Rightarrow> real \<Rightarrow> real \<Rightarrow> ClientRect" where
  "mkRect t l w h =
     \<lparr> r_top = t, r_right = l + w, r_bottom = t + h, r_left = l, r_width = w, r_height = h \<rparr>"

definition sceneEnv :: "real \<Rightarrow> Env" where
  "sceneEnv overlaySize =
     \<lparr> isBrowser = True, ngDevMode = Some True, clientWidth = 100, clientHeight = 100,
       scrollTop = 0, scrollLeft = 0, originElementRect = mkRect 10 10 20 20,
       paneRect = mkRect 0 0 overlaySize overlaySize, direction = ''ltr'',
       minWidth = None, minHeight = None, maxWidth = None, maxHeight = None,
       containerTop = 0, observers = 1,
       scrollVisibility = \<lparr> isOriginClipped = False, isOriginOutsideView = False,
                             isOverlayClipped = False, isOverlayOutsideView = False \<rparr> \<rparr>"

definition mkPosition :: "nat \<Rightarrow> string \<Rightarrow> string \<Rightarrow> string \<Rightarrow> string \<Rightarrow> real option \<Rightarrow> ConnectedPosition" where
  "mkPosition i ox oy vx vy w =
     \<lparr> ref = i, originX = ox, originY = oy, overlayX = vx, overlayY = vy,
       weight = w, offsetX = None, offsetY = None, panelClass = [] \<rparr>"

definition posBelow :: ConnectedPosition where
  "posBelow = mkPosition 1 ''end'' ''bottom'' ''start'' ''top'' None"

definition posAbove :: ConnectedPosition where
  "posAbove = mkPosition 2 ''start'' ''top'' ''end'' ''bottom'' None"

definition sceneOverlay :: OverlayReference where
  "sceneOverlay = \<lparr> ov_id = 1, hostElement = 10, overlayElement = 11 \<rparr>"

text \<open>A strategy attached to the overlay of the scene with the given positions, as
  \<^verbatim>\<open>withPositions\<close> and \<^verbatim>\<open>attach\<close> leave it.\<close>

definition sceneState :: "ConnectedPosition list \<Rightarrow> State" where
  "sceneState positions =
     (newStrategy ElementOrigin)
       \<lparr> preferredPositions := positions,
         overlayRef := Some sceneOverlay,
         boundingBox := Some 10,
         pane := Some 11,
         isInitialRender := True,
         resizeSubscribed := True,
         classList := (\<lambda>_. {})(10 := {boundingBoxClass}) \<rparr>"

text \<open>The same strategy, locked, after \<open>posBelow\<close> has been applied once.\<close>

definition lockedState :: State where
  "lockedState =
     (sceneState [posAbove, posBelow])
       \<lparr> positionLocked := True, isInitialRender := False, lastPosition := Some posBelow \<rparr>"


text \<open>The locked strategy after a push by 20 pixels to the left and to the top.\<close>

definition pushedState :: State where
  "pushedState =
     lockedState\<lparr> isPushed := True, previousPushAmount := Some \<lparr> pt_x = - 20, pt_y = - 20 \<rparr>,
                  viewportRect := mkRect 0 0 100 100 \<rparr>"

text \<open>An unlocked strategy that has measured the viewport of the scene and has not pushed
  yet.\<close>

definition unpushedState :: State where
  "unpushedState = (sceneState [posBelow])\<lparr> viewportRect := mkRect 0 0 100 100 \<rparr>"

text \<open>The state in which \<^verbatim>\<open>reapplyLastPosition\<close> applies the position: the three
  rectangles measured again.\<close>

definition remeasured :: "State \<Rightarrow> Env \<Rightarrow> State" where
  "remeasured s env =
     s\<lparr> originRect := getOriginRect s env, overlayRect := paneRect env,
        viewportRect := getNarrowedViewportRect s env \<rparr>"

text \<open>The position \<^verbatim>\<open>reapplyLastPosition\<close> applies:
  \<^verbatim>\<open>this._lastPosition || this._preferredPositions[0]\<close>.\<close>

definition positionToReapply :: "State \<Rightarrow> ConnectedPosition option" where
  "positionToReapply s =
     (case lastPosition s of
        Some p \<Rightarrow> Some p
      | None \<Rightarrow> (case preferredPositions s of [] \<Rightarrow> None | p # _ \<Rightarrow> Some p))"

text \<open>The locked strategy after a bounding box of 50 by 50 has been applied.\<close>

definition openedState :: State where
  "openedState =
     lockedState
       \<lparr> lastBoundingBoxSize :=
           \<lparr> bb_top = Some 30, bb_left = Some 30, bb_bottom = None, bb_right = None,
             bb_height = 50, bb_width = 50 \<rparr>,
         viewportRect := mkRect 0 0 100 100 \<rparr>"

text \<open>A production build (\<^verbatim>\<open>ngDevMode\<close> is false), a second overlay, and a position
  with a literal that is not allowed.\<close>

definition prodEnv :: Env where
  "prodEnv = (sceneEnv 30)\<lparr> ngDevMode := Some False \<rparr>"

definition otherOverlay :: OverlayReference where
  "otherOverlay = \<lparr> ov_id = 2, hostElement = 20, overlayElement = 21 \<rparr>"

definition badPosition :: ConnectedPosition where
  "badPosition = mkPosition 3 ''left'' ''top'' ''start'' ''top'' None"

definition validPosition :: "ConnectedPosition \<Rightarrow> bool" where
  "validPosition p =
     (validHorizontal (originX p) \<and> validVertical (originY p) \<and>
      validHorizontal (overlayX p) \<and> validVertical (overlayY p))"

text \<open>The scene with an overlay of 95 by 95, which fits nowhere, and minimum sizes of 10
  pixels, which make every position a flexible fit; and a position with an explicit
  weight of zero.\<close>

definition flexEnv :: Env where
  "flexEnv = (sceneEnv 95)\<lparr> minWidth := Some (CssNumber 10), minHeight := Some (CssNumber 10) \<rparr>"

definition zeroWeight :: ConnectedPosition where
  "zeroWeight = mkPosition 4 ''start'' ''top'' ''start'' ''top'' (Some 0)"


text \<open>The inline styles of all elements after a write to one of them.\<close>

definition withStyles :: "(nat \<Rightarrow> Styles) \<Rightarrow> nat \<Rightarrow> Styles \<Rightarrow> (nat \<Rightarrow> Styles)" where
  "withStyles f el styles = f(el := extendStyles (f el) styles)"

text \<open>The assembled styles and the recorded push depend on these fields only.\<close>

definition sameForOverlayStyles :: "State \<Rightarrow> State \<Rightarrow> bool" where
  "sameForOverlayStyles t s =
     (isPushed t = isPushed s \<and> hasFlexibleDimensions t = hasFlexibleDimensions s \<and>
      overlayRect t = overlayRect s \<and> defaultOffsetX t = defaultOffsetX s \<and>
      defaultOffsetY t = defaultOffsetY s \<and> viewportRect t = viewportRect s \<and>
      viewportMargin t = viewportMargin s \<and> positionLocked t = positionLocked s \<and>
      previousPushAmount t = previousPushAmount s)"

text \<open>The strategy of the scene, unlocked, after its first \<^verbatim>\<open>apply\<close> has placed the overlay
  of 30 by 30 with \<open>posBelow\<close>; and the scene after the origin has moved to the top left
  corner of the viewport.\<close>

definition openedFlexible :: State where
  "openedFlexible = resultState (apply' (sceneState [posBelow]) (sceneEnv 30))"

definition nearEnv :: Env where
  "nearEnv = (sceneEnv 30)\<lparr> originElementRect := mkRect 0 0 20 20 \<rparr>"

section \<open>Properties\<close>

subsection \<open>Which fields a step changes\<close>

lemma measured_fields:
  "viewportRect (measured s env) = getNarrowedViewportRect s env"
  "originRect (measured s env) = getOriginRect s env"
  "overlayRect (measured s env) = paneRect env"
  "defaultOffsetX (measured s env) = defaultOffsetX s"
  "defaultOffsetY (measured s env) = defaultOffsetY s"
  "preferredPositions (measured s env) = preferredPositions s"
  "canPush (measured s env) = canPush s"
  "hasFlexibleDimensions (measured s env) = hasFlexibleDimensions s"
  "lastPosition (measured s env) = lastPosition s"
  "positionChanges (measured s env) = positionChanges s"
  "isInitialRender (measured s env) = isInitialRender s"
  "growAfterOpen (measured s env) = growAfterOpen s"
  "lastBoundingBoxSize (measured s env) = lastBoundingBoxSize s"
  "viewportMargin (measured s env) = viewportMargin s"
  "pane (measured s env) = pane s"
  "boundingBox (measured s env) = boundingBox s"
  "overlayRef (measured s env) = overlayRef s"
  "isPushed (measured s env) = isPushed s"
  "positionLocked (measured s env) = positionLocked s"
  by (simp_all add: measured_def measureRects_def Let_def resetBoundingBoxStyles_def
      resetOverlayElementStyles_def writeStyles_def clearPanelClasses_def
      getNarrowedViewportRect_def getOriginRect_def)

lemma pushOverlayOnScreen_shape:
  "\<exists>pt a. pushOverlayOnScreen s start r sp = (pt, s\<lparr> previousPushAmount := a \<rparr>)"
proof (cases "previousPushAmount s \<noteq> None \<and> positionLocked s")
  case True
  have "s = s\<lparr> previousPushAmount := previousPushAmount s \<rparr>" by simp
  moreover from True have "snd (pushOverlayOnScreen s start r sp) = s"
    by (auto simp: pushOverlayOnScreen_def)
  ultimately show ?thesis by (metis prod.collapse)
next
  case False
  then have "snd (pushOverlayOnScreen s start r sp) =
      s\<lparr> previousPushAmount := Some (computePush s start r sp) \<rparr>"
    by (auto simp: pushOverlayOnScreen_def Let_def split: option.splits)
  then show ?thesis by (metis prod.collapse)
qed

lemma getExactOverlayY_shape:
  "\<exists>st a. getExactOverlayY s env p o' sp = (st, s\<lparr> previousPushAmount := a \<rparr>)"
proof (cases "isPushed s")
  case True
  obtain pt a where a: "pushOverlayOnScreen s (getOverlayPoint env o' (overlayRect s) p) (overlayRect s) sp
      = (pt, s\<lparr> previousPushAmount := a \<rparr>)"
    using pushOverlayOnScreen_shape by blast
  show ?thesis
    using True by (simp add: getExactOverlayY_def Let_def a) blast
next
  case False
  have "s = s\<lparr> previousPushAmount := previousPushAmount s \<rparr>" by simp
  moreover from False have "snd (getExactOverlayY s env p o' sp) = s"
    by (simp add: getExactOverlayY_def Let_def)
  ultimately show ?thesis by (metis prod.collapse)
qed

lemma getExactOverlayX_shape:
  "\<exists>st a. getExactOverlayX s env p o' sp = (st, s\<lparr> previousPushAmount := a \<rparr>)"
proof (cases "isPushed s")
  case True
  obtain pt a where a: "pushOverlayOnScreen s (getOverlayPoint env o' (overlayRect s) p) (overlayRect s) sp
      = (pt, s\<lparr> previousPushAmount := a \<rparr>)"
    using pushOverlayOnScreen_shape by blast
  show ?thesis
    using True by (simp add: getExactOverlayX_def Let_def a) blast
next
  case False
  have "s = s\<lparr> previousPushAmount := previousPushAmount s \<rparr>" by simp
  moreover from False have "snd (getExactOverlayX s env p o' sp) = s"
    by (simp add: getExactOverlayX_def Let_def)
  ultimately show ?thesis by (metis prod.collapse)
qed

lemma overlayElementStyles_shape:
  "\<exists>st a. overlayElementStyles s env o' p = (st, s\<lparr> previousPushAmount := a \<rparr>)"
proof (cases "hasExactPosition s")
  case True
  define sp where "sp = \<lparr> sp_top = scrollTop env, sp_left = scrollLeft env \<rparr>"
  obtain sty a where a: "getExactOverlayY s env p o' sp = (sty, s\<lparr> previousPushAmount := a \<rparr>)"
    using getExactOverlayY_shape by blast
  obtain stx b where b: "getExactOverlayX (s\<lparr> previousPushAmount := a \<rparr>) env p o' sp =
      (stx, s\<lparr> previousPushAmount := a \<rparr>\<lparr> previousPushAmount := b \<rparr>)"
    using getExactOverlayX_shape by blast
  have "snd (overlayElementStyles s env o' p) = s\<lparr> previousPushAmount := b \<rparr>"
    using True
    by (simp add: overlayElementStyles_def Let_def sp_def [symmetric] a b)
  then show ?thesis by (metis prod.collapse)
next
  case False
  have "s = s\<lparr> previousPushAmount := previousPushAmount s \<rparr>" by simp
  moreover from False have "snd (overlayElementStyles s env o' p) = s"
    by (simp add: overlayElementStyles_def Let_def)
  ultimately show ?thesis by (metis prod.collapse)
qed

lemma setOverlayElementStyles_shape:
  "\<exists>a b. setOverlayElementStyles s env o' p = s\<lparr> previousPushAmount := a, elementStyle := b \<rparr>"
proof -
  obtain st a where "overlayElementStyles s env o' p = (st, s\<lparr> previousPushAmount := a \<rparr>)"
    using overlayElementStyles_shape by blast
  then have "setOverlayElementStyles s env o' p = s\<lparr> previousPushAmount := a,
      elementStyle := elementStyle (setOverlayElementStyles s env o' p) \<rparr>"
    by (simp add: setOverlayElementStyles_def writeStyles_def)
  then show ?thesis by blast
qed

lemma setBoundingBoxStyles_shape:
  "\<exists>b. setBoundingBoxStyles s env o' p =
     s\<lparr> lastBoundingBoxSize := cappedBoundingBoxRect s env o' p, elementStyle := b \<rparr>"
proof -
  have "setBoundingBoxStyles s env o' p =
     s\<lparr> lastBoundingBoxSize := cappedBoundingBoxRect s env o' p,
        elementStyle := elementStyle (setBoundingBoxStyles s env o' p) \<rparr>"
    by (simp add: setBoundingBoxStyles_def Let_def writeStyles_def)
  then show ?thesis by blast
qed

lemma setTransformOrigin_shape:
  "\<exists>a. setTransformOrigin s env p = s\<lparr> transformOrigin := a \<rparr>"
proof -
  have "setTransformOrigin s env p = s\<lparr> transformOrigin := transformOrigin (setTransformOrigin s env p) \<rparr>"
    by (simp add: setTransformOrigin_def Let_def)
  then show ?thesis by blast
qed

lemma addPanelClass_shape:
  "addPanelClass s c = s\<lparr> appliedPanelClasses := appliedPanelClasses (addPanelClass s c),
      classList := classList (addPanelClass s c) \<rparr>"
  by (simp add: addPanelClass_def)

lemma foldl_addPanelClass_shape:
  "\<exists>a b. foldl addPanelClass s cs = s\<lparr> appliedPanelClasses := a, classList := b \<rparr>"
proof (induction cs arbitrary: s)
  case Nil
  have "foldl addPanelClass s [] = s\<lparr> appliedPanelClasses := appliedPanelClasses s, classList := classList s \<rparr>"
    by simp
  then show ?case by blast
next
  case (Cons c cs)
  obtain a b where ab: "addPanelClass s c = s\<lparr> appliedPanelClasses := a, classList := b \<rparr>"
    using addPanelClass_shape by blast
  obtain a' b' where "foldl addPanelClass (addPanelClass s c) cs =
      (addPanelClass s c)\<lparr> appliedPanelClasses := a', classList := b' \<rparr>"
    using Cons.IH by blast
  then have "foldl addPanelClass s (c # cs) = s\<lparr> appliedPanelClasses := a', classList := b' \<rparr>"
    by (simp add: ab)
  then show ?case by blast
qed

lemma addPanelClasses_shape:
  "\<exists>a b. addPanelClasses s cs = s\<lparr> appliedPanelClasses := a, classList := b \<rparr>"
proof (cases "pane s \<noteq> None")
  case True
  then show ?thesis using foldl_addPanelClass_shape by (simp add: addPanelClasses_def)
next
  case False
  then have "addPanelClasses s cs = s\<lparr> appliedPanelClasses := appliedPanelClasses s, classList := classList s \<rparr>"
    by (simp add: addPanelClasses_def)
  then show ?thesis by blast
qed


lemma setTransformOrigin_fields:
  "lastPosition (setTransformOrigin s env p) = lastPosition s"
  "isInitialRender (setTransformOrigin s env p) = isInitialRender s"
  "isPushed (setTransformOrigin s env p) = isPushed s"
  "preferredPositions (setTransformOrigin s env p) = preferredPositions s"
  "positionChanges (setTransformOrigin s env p) = positionChanges s"
  "hasFlexibleDimensions (setTransformOrigin s env p) = hasFlexibleDimensions s"
  "positionLocked (setTransformOrigin s env p) = positionLocked s"
  "growAfterOpen (setTransformOrigin s env p) = growAfterOpen s"
  "viewportRect (setTransformOrigin s env p) = viewportRect s"
  "overlayRect (setTransformOrigin s env p) = overlayRect s"
  "originRect (setTransformOrigin s env p) = originRect s"
  "viewportMargin (setTransformOrigin s env p) = viewportMargin s"
  "pane (setTransformOrigin s env p) = pane s"
  "boundingBox (setTransformOrigin s env p) = boundingBox s"
  "overlayRef (setTransformOrigin s env p) = overlayRef s"
  "defaultOffsetX (setTransformOrigin s env p) = defaultOffsetX s"
  "defaultOffsetY (setTransformOrigin s env p) = defaultOffsetY s"
  "isDisposed (setTransformOrigin s env p) = isDisposed s"
  "canPush (setTransformOrigin s env p) = canPush s"
  "transformOriginSelector (setTransformOrigin s env p) = transformOriginSelector s"
  "origin (setTransformOrigin s env p) = origin s"
  "resizeSubscribed (setTransformOrigin s env p) = resizeSubscribed s"
  by (simp_all add: setTransformOrigin_def Let_def)

lemma setOverlayElementStyles_fields:
  "lastPosition (setOverlayElementStyles s env o' p) = lastPosition s"
  "isInitialRender (setOverlayElementStyles s env o' p) = isInitialRender s"
  "isPushed (setOverlayElementStyles s env o' p) = isPushed s"
  "preferredPositions (setOverlayElementStyles s env o' p) = preferredPositions s"
  "positionChanges (setOverlayElementStyles s env o' p) = positionChanges s"
  "hasFlexibleDimensions (setOverlayElementStyles s env o' p) = hasFlexibleDimensions s"
  "positionLocked (setOverlayElementStyles s env o' p) = positionLocked s"
  "growAfterOpen (setOverlayElementStyles s env o' p) = growAfterOpen s"
  "viewportRect (setOverlayElementStyles s env o' p) = viewportRect s"
  "overlayRect (setOverlayElementStyles s env o' p) = overlayRect s"
  "originRect (setOverlayElementStyles s env o' p) = originRect s"
  "viewportMargin (setOverlayElementStyles s env o' p) = viewportMargin s"
  "pane (setOverlayElementStyles s env o' p) = pane s"
  "boundingBox (setOverlayElementStyles s env o' p) = boundingBox s"
  "overlayRef (setOverlayElementStyles s env o' p) = overlayRef s"
  "defaultOffsetX (setOverlayElementStyles s env o' p) = defaultOffsetX s"
  "defaultOffsetY (setOverlayElementStyles s env o' p) = defaultOffsetY s"
  "isDisposed (setOverlayElementStyles s env o' p) = isDisposed s"
  "canPush (setOverlayElementStyles s env o' p) = canPush s"
  "transformOriginSelector (setOverlayElementStyles s env o' p) = transformOriginSelector s"
  "origin (setOverlayElementStyles s env o' p) = origin s"
  "resizeSubscribed (setOverlayElementStyles s env o' p) = resizeSubscribed s"
proof -
  obtain a b where "setOverlayElementStyles s env o' p = s\<lparr> previousPushAmount := a, elementStyle := b \<rparr>"
    using setOverlayElementStyles_shape by blast
  then show
  "lastPosition (setOverlayElementStyles s env o' p) = lastPosition s"
  "isInitialRender (setOverlayElementStyles s env o' p) = isInitialRender s"
  "isPushed (setOverlayElementStyles s env o' p) = isPushed s"
  "preferredPositions (setOverlayElementStyles s env o' p) = preferredPositions s"
  "positionChanges (setOverlayElementStyles s env o' p) = positionChanges s"
  "hasFlexibleDimensions (setOverlayElementStyles s env o' p) = hasFlexibleDimensions s"
  "positionLocked (setOverlayElementStyles s env o' p) = positionLocked s"
  "growAfterOpen (setOverlayElementStyles s env o' p) = growAfterOpen s"
  "viewportRect (setOverlayElementStyles s env o' p) = viewportRect s"
  "overlayRect (setOverlayElementStyles s env o' p) = overlayRect s"
  "originRect (setOverlayElementStyles s env o' p) = originRect s"
  "viewportMargin (setOverlayElementStyles s env o' p) = viewportMargin s"
  "pane (setOverlayElementStyles s env o' p) = pane s"
  "boundingBox (setOverlayElementStyles s env o' p) = boundingBox s"
  "overlayRef (setOverlayElementStyles s env o' p) = overlayRef s"
  "defaultOffsetX (setOverlayElementStyles s env o' p) = defaultOffsetX s"
  "defaultOffsetY (setOverlayElementStyles s env o' p) = defaultOffsetY s"
  "isDisposed (setOverlayElementStyles s env o' p) = isDisposed s"
  "canPush (setOverlayElementStyles s env o' p) = canPush s"
  "transformOriginSelector (setOverlayElementStyles s env o' p) = transformOriginSelector s"
  "origin (setOverlayElementStyles s env o' p) = origin s"
  "resizeSubscribed (setOverlayElementStyles s env o' p) = resizeSubscribed s"
    by simp_all
qed

lemma setBoundingBoxStyles_fields:
  "lastPosition (setBoundingBoxStyles s env o' p) = lastPosition s"
  "isInitialRender (setBoundingBoxStyles s env o' p) = isInitialRender s"
  "isPushed (setBoundingBoxStyles s env o' p) = isPushed s"
  "preferredPositions (setBoundingBoxStyles s env o' p) = preferredPositions s"
  "positionChanges (setBoundingBoxStyles s env o' p) = positionChanges s"
  "hasFlexibleDimensions (setBoundingBoxStyles s env o' p) = hasFlexibleDimensions s"
  "positionLocked (setBoundingBoxStyles s env o' p) = positionLocked s"
  "growAfterOpen (setBoundingBoxStyles s env o' p) = growAfterOpen s"
  "viewportRect (setBoundingBoxStyles s env o' p) = viewportRect s"
  "overlayRect (setBoundingBoxStyles s env o' p) = overlayRect s"
  "originRect (setBoundingBoxStyles s env o' p) = originRect s"
  "viewportMargin (setBoundingBoxStyles s env o' p) = viewportMargin s"
  "pane (setBoundingBoxStyles s env o' p) = pane s"
  "boundingBox (setBoundingBoxStyles s env o' p) = boundingBox s"
  "overlayRef (setBoundingBoxStyles s env o' p) = overlayRef s"
  "defaultOffsetX (setBoundingBoxStyles s env o' p) = defaultOffsetX s"
  "defaultOffsetY (setBoundingBoxStyles s env o' p) = defaultOffsetY s"
  "isDisposed (setBoundingBoxStyles s env o' p) = isDisposed s"
  "canPush (setBoundingBoxStyles s env o' p) = canPush s"
  "transformOriginSelector (setBoundingBoxStyles s env o' p) = transformOriginSelector s"
  "origin (setBoundingBoxStyles s env o' p) = origin s"
  "resizeSubscribed (setBoundingBoxStyles s env o' p) = resizeSubscribed s"
  by (simp_all add: setBoundingBoxStyles_def Let_def writeStyles_def)

lemma addPanelClasses_fields:
  "lastPosition (addPanelClasses s cs) = lastPosition s"
  "isInitialRender (addPanelClasses s cs) = isInitialRender s"
  "isPushed (addPanelClasses s cs) = isPushed s"
  "preferredPositions (addPanelClasses s cs) = preferredPositions s"
  "positionChanges (addPanelClasses s cs) = positionChanges s"
  "hasFlexibleDimensions (addPanelClasses s cs) = hasFlexibleDimensions s"
  "positionLocked (addPanelClasses s cs) = positionLocked s"
  "growAfterOpen (addPanelClasses s cs) = growAfterOpen s"
  "viewportRect (addPanelClasses s cs) = viewportRect s"
  "overlayRect (addPanelClasses s cs) = overlayRect s"
  "originRect (addPanelClasses s cs) = originRect s"
  "viewportMargin (addPanelClasses s cs) = viewportMargin s"
  "pane (addPanelClasses s cs) = pane s"
  "boundingBox (addPanelClasses s cs) = boundingBox s"
  "overlayRef (addPanelClasses s cs) = overlayRef s"
  "defaultOffsetX (addPanelClasses s cs) = defaultOffsetX s"
  "defaultOffsetY (addPanelClasses s cs) = defaultOffsetY s"
  "isDisposed (addPanelClasses s cs) = isDisposed s"
  "canPush (addPanelClasses s cs) = canPush s"
  "transformOriginSelector (addPanelClasses s cs) = transformOriginSelector s"
  "origin (addPanelClasses s cs) = origin s"
  "resizeSubscribed (addPanelClasses s cs) = resizeSubscribed s"
proof -
  obtain a b where "addPanelClasses s cs = s\<lparr> appliedPanelClasses := a, classList := b \<rparr>"
    using addPanelClasses_shape by blast
  then show
  "lastPosition (addPanelClasses s cs) = lastPosition s"
  "isInitialRender (addPanelClasses s cs) = isInitialRender s"
  "isPushed (addPanelClasses s cs) = isPushed s"
  "preferredPositions (addPanelClasses s cs) = preferredPositions s"
  "positionChanges (addPanelClasses s cs) = positionChanges s"
  "hasFlexibleDimensions (addPanelClasses s cs) = hasFlexibleDimensions s"
  "positionLocked (addPanelClasses s cs) = positionLocked s"
  "growAfterOpen (addPanelClasses s cs) = growAfterOpen s"
  "viewportRect (addPanelClasses s cs) = viewportRect s"
  "overlayRect (addPanelClasses s cs) = overlayRect s"
  "originRect (addPanelClasses s cs) = originRect s"
  "viewportMargin (addPanelClasses s cs) = viewportMargin s"
  "pane (addPanelClasses s cs) = pane s"
  "boundingBox (addPanelClasses s cs) = boundingBox s"
  "overlayRef (addPanelClasses s cs) = overlayRef s"
  "defaultOffsetX (addPanelClasses s cs) = defaultOffsetX s"
  "defaultOffsetY (addPanelClasses s cs) = defaultOffsetY s"
  "isDisposed (addPanelClasses s cs) = isDisposed s"
  "canPush (addPanelClasses s cs) = canPush s"
  "transformOriginSelector (addPanelClasses s cs) = transformOriginSelector s"
  "origin (addPanelClasses s cs) = origin s"
  "resizeSubscribed (addPanelClasses s cs) = resizeSubscribed s"
    by simp_all
qed

lemma applyPosition_fields:
  "lastPosition (applyPosition s env p o') = Some p"
  "isInitialRender (applyPosition s env p o') = False"
  "positionChanges (applyPosition s env p o') = positionChanges s @ changeEvents env p"
  "isPushed (applyPosition s env p o') = isPushed s"
  "preferredPositions (applyPosition s env p o') = preferredPositions s"
  "hasFlexibleDimensions (applyPosition s env p o') = hasFlexibleDimensions s"
  "positionLocked (applyPosition s env p o') = positionLocked s"
  "growAfterOpen (applyPosition s env p o') = growAfterOpen s"
  "viewportRect (applyPosition s env p o') = viewportRect s"
  "overlayRect (applyPosition s env p o') = overlayRect s"
  "originRect (applyPosition s env p o') = originRect s"
  "viewportMargin (applyPosition s env p o') = viewportMargin s"
  "pane (applyPosition s env p o') = pane s"
  "boundingBox (applyPosition s env p o') = boundingBox s"
  "overlayRef (applyPosition s env p o') = overlayRef s"
  "defaultOffsetX (applyPosition s env p o') = defaultOffsetX s"
  "defaultOffsetY (applyPosition s env p o') = defaultOffsetY s"
  "isDisposed (applyPosition s env p o') = isDisposed s"
  "canPush (applyPosition s env p o') = canPush s"
  "transformOriginSelector (applyPosition s env p o') = transformOriginSelector s"
  "origin (applyPosition s env p o') = origin s"
  "resizeSubscribed (applyPosition s env p o') = resizeSubscribed s"
  by (simp_all add: applyPosition_def Let_def changeEvents_def setTransformOrigin_fields
      setOverlayElementStyles_fields setBoundingBoxStyles_fields addPanelClasses_fields)

subsection \<open>The selection pass\<close>

lemma apply_runsSelection:
  assumes "runsSelection s env"
  shows "apply' s env =
     (case scanPositions (measured s env) env (preferredPositions s) [] None of
        GoodFit pos originPoint \<Rightarrow>
          Inr (applyPosition ((measured s env)\<lparr> isPushed := False \<rparr>) env pos originPoint)
      | NoGoodFit flexibleFits fallback \<Rightarrow>
          if flexibleFits \<noteq> [] then
            (case pickBestFit flexibleFits None (- 1) of
               None \<Rightarrow> Inl (TypeError, (measured s env)\<lparr> isPushed := False \<rparr>)
             | Some bestFit \<Rightarrow>
                 Inr (applyPosition ((measured s env)\<lparr> isPushed := False \<rparr>) env
                        (ff_position bestFit) (ff_origin bestFit)))
          else if canPush s then
            (case fallback of
               None \<Rightarrow> Inl (TypeError, (measured s env)\<lparr> isPushed := True \<rparr>)
             | Some fb \<Rightarrow>
                 Inr (applyPosition ((measured s env)\<lparr> isPushed := True \<rparr>) env
                        (fb_position fb) (fb_originPoint fb)))
          else
            (case fallback of
               None \<Rightarrow> Inl (TypeError, measured s env)
             | Some fb \<Rightarrow>
                 Inr (applyPosition (measured s env) env (fb_position fb) (fb_originPoint fb))))"
proof -
  have a: "attached (clearPanelClasses s)"
    using assms by (simp add: runsSelection_def attached_def clearPanelClasses_def)
  show ?thesis
    using assms a
    unfolding apply'_def Let_def measured_def [symmetric] runsSelection_def
    by (auto simp: measured_fields split: ScanResult.splits option.splits)
qed

lemma scanPositions_step:
  "scanPositions m env (pos # rest) ff fb =
     (if isCompletelyWithinViewport (positionFit m env pos) then GoodFit pos (positionOrigin m env pos)
      else if fitsFlexibly m env pos then scanPositions m env rest (ff @ [flexibleFitOf m env pos]) fb
      else if (case fb of None \<Rightarrow> True
               | Some f \<Rightarrow> visibleArea (fb_overlayFit f) < visibleArea (positionFit m env pos))
      then scanPositions m env rest ff
             (Some \<lparr> fb_position = pos, fb_originPoint = positionOrigin m env pos,
                     fb_overlayPoint = positionOverlayPoint m env pos,
                     fb_overlayFit = positionFit m env pos, fb_overlayRect = overlayRect m \<rparr>)
      else scanPositions m env rest ff fb)"
  by (cases fb) (simp_all add: Let_def positionFit_def positionOrigin_def positionOverlayPoint_def
      fitsFlexibly_def flexibleFitOf_def)

lemma scan_first_fit:
  assumes "\<forall>q \<in> set pre. \<not> isCompletelyWithinViewport (positionFit m env q)"
      and "isCompletelyWithinViewport (positionFit m env p)"
  shows "scanPositions m env (pre @ p # post) ff fb = GoodFit p (positionOrigin m env p)"
  using assms
proof (induction pre arbitrary: ff fb)
  case Nil
  then show ?case by (simp only: append_Nil scanPositions_step if_True)
next
  case (Cons q pre)
  then show ?case by (simp add: scanPositions_step del: scanPositions.simps)
qed

text \<open>C1. When \<^verbatim>\<open>apply\<close> runs the selection and some position fits completely within the
  viewport, it applies the first such position of the list, whatever comes after it, and
  the overlay is not pushed.\<close>

theorem apply_selects_first_fit:
  assumes "runsSelection s env"
      and "preferredPositions s = pre @ p # post"
      and "\<forall>q \<in> set pre. \<not> isCompletelyWithinViewport (positionFit (measured s env) env q)"
      and "isCompletelyWithinViewport (positionFit (measured s env) env p)"
  shows "\<exists>s'. apply' s env = Inr s' \<and> lastPosition s' = Some p \<and> \<not> isPushed s'"
proof -
  have "apply' s env =
      Inr (applyPosition ((measured s env)\<lparr> isPushed := False \<rparr>) env p
             (positionOrigin (measured s env) env p))"
    by (simp add: apply_runsSelection [OF assms(1)] assms(2) scan_first_fit [OF assms(3,4)]
        del: scanPositions.simps)
  then show ?thesis by (simp add: applyPosition_fields)
qed

lemma scene_measured:
  "viewportRect (measured (sceneState ps) (sceneEnv n)) = mkRect 0 0 100 100"
  "originRect (measured (sceneState ps) (sceneEnv n)) = mkRect 10 10 20 20"
  "overlayRect (measured (sceneState ps) (sceneEnv n)) = mkRect 0 0 n n"
  "defaultOffsetX (measured (sceneState ps) (sceneEnv n)) = 0"
  "defaultOffsetY (measured (sceneState ps) (sceneEnv n)) = 0"
  by (simp_all add: measured_fields getNarrowedViewportRect_def getOriginRect_def sceneState_def
      sceneEnv_def newStrategy_def mkRect_def)

lemma sceneEnv_fields:
  "isBrowser (sceneEnv n)" "ngDevMode (sceneEnv n) = Some True"
  "clientWidth (sceneEnv n) = 100" "clientHeight (sceneEnv n) = 100"
  "scrollTop (sceneEnv n) = 0" "scrollLeft (sceneEnv n) = 0"
  "originElementRect (sceneEnv n) = mkRect 10 10 20 20"
  "paneRect (sceneEnv n) = mkRect 0 0 n n" "direction (sceneEnv n) = ''ltr''"
  "minWidth (sceneEnv n) = None" "minHeight (sceneEnv n) = None"
  "maxWidth (sceneEnv n) = None" "maxHeight (sceneEnv n) = None"
  "containerTop (sceneEnv n) = 0" "observers (sceneEnv n) = 1"
  by (simp_all add: sceneEnv_def)

lemma scene_runsSelection: "runsSelection (sceneState ps) (sceneEnv n)"
  by (simp add: runsSelection_def sceneState_def sceneEnv_def newStrategy_def attached_def)

lemmas fit_defs = positionFit_def positionOverlayPoint_def positionOrigin_def getOverlayFit_def
  visibleWidth_def visibleHeight_def fitX_def fitY_def getOriginPoint_def getOverlayPoint_def
  getRoundedBoundingClientRect_def subtractOverflows_def isRtl_def

lemma scene_fit_above:
  "\<not> isCompletelyWithinViewport (positionFit (measured (sceneState ps) (sceneEnv 30)) (sceneEnv 30) posAbove)"
  by (simp add: fit_defs scene_measured posAbove_def mkPosition_def mkRect_def sceneEnv_fields)

lemma scene_fit_below:
  "isCompletelyWithinViewport (positionFit (measured (sceneState ps) (sceneEnv 30)) (sceneEnv 30) posBelow)"
  by (simp add: fit_defs scene_measured posBelow_def mkPosition_def mkRect_def sceneEnv_fields)

text \<open>Witness for C1: in the scene with an overlay of 30 by 30, \<open>posAbove\<close> does not fit,
  \<open>posBelow\<close> does, and \<open>posBelow\<close> is applied although another position follows it.\<close>

theorem apply_selects_first_fit_witness:
  "runsSelection (sceneState [posAbove, posBelow, posAbove]) (sceneEnv 30) \<and>
   \<not> isCompletelyWithinViewport
       (positionFit (measured (sceneState [posAbove, posBelow, posAbove]) (sceneEnv 30)) (sceneEnv 30) posAbove) \<and>
   isCompletelyWithinViewport
       (positionFit (measured (sceneState [posAbove, posBelow, posAbove]) (sceneEnv 30)) (sceneEnv 30) posBelow) \<and>
   (\<exists>s'. apply' (sceneState [posAbove, posBelow, posAbove]) (sceneEnv 30) = Inr s' \<and>
         lastPosition s' = Some posBelow \<and> \<not> isPushed s')"
proof -
  have p: "preferredPositions (sceneState [posAbove, posBelow, posAbove]) = [posAbove] @ posBelow # [posAbove]"
    by (simp add: sceneState_def)
  have n: "\<forall>q \<in> set [posAbove]. \<not> isCompletelyWithinViewport
       (positionFit (measured (sceneState [posAbove, posBelow, posAbove]) (sceneEnv 30)) (sceneEnv 30) q)"
    by (simp add: scene_fit_above)
  show ?thesis
    using apply_selects_first_fit [OF scene_runsSelection p n scene_fit_below]
    by (simp add: scene_runsSelection scene_fit_above scene_fit_below)
qed

subsection \<open>The fit evaluator\<close>

text \<open>What \<^verbatim>\<open>_getOverlayFit\<close> computes. The visible width and height are the rounded-down
  dimension minus the nonnegative overflow on each of the two opposing edges, with no
  floor at zero; the visible area is their product; and the overlay counts as completely
  within the viewport exactly when the visible area equals the product of the rounded-down
  width and height.\<close>

lemma getOverlayFit_computes:
  "visibleWidth s point rawOverlayRect viewport pos =
     of_int \<lfloor>r_width rawOverlayRect\<rfloor> - max (0 - fitX s point pos) 0
       - max (fitX s point pos + of_int \<lfloor>r_width rawOverlayRect\<rfloor> - r_width viewport) 0 \<and>
   visibleHeight s point rawOverlayRect viewport pos =
     of_int \<lfloor>r_height rawOverlayRect\<rfloor> - max (0 - fitY s point pos) 0
       - max (fitY s point pos + of_int \<lfloor>r_height rawOverlayRect\<rfloor> - r_height viewport) 0 \<and>
   visibleArea (getOverlayFit s point rawOverlayRect viewport pos) =
     visibleWidth s point rawOverlayRect viewport pos *
     visibleHeight s point rawOverlayRect viewport pos \<and>
   isCompletelyWithinViewport (getOverlayFit s point rawOverlayRect viewport pos) =
     (visibleArea (getOverlayFit s point rawOverlayRect viewport pos) =
        of_int \<lfloor>r_width rawOverlayRect\<rfloor> * of_int \<lfloor>r_height rawOverlayRect\<rfloor>)"
  by (auto simp: getOverlayFit_def visibleWidth_def visibleHeight_def Let_def
      getRoundedBoundingClientRect_def subtractOverflows_def)

text \<open>C3. The stated visible width and height are floored at zero; the code's are not. An
  overlay of 30 by 30 placed at (-60, -60), entirely outside a viewport of 100 by 100, gets
  a visible width and height of -30 each, hence a visible area of 900, which equals 30
  times 30: the evaluator reports it as completely within the viewport. With the floor
  the visible area is 0 and the overlay does not fit.\<close>

theorem offscreen_overlay_counts_as_fitting:
  "visibleWidth (newStrategy ElementOrigin) \<lparr> pt_x = - 60, pt_y = - 60 \<rparr>
      (mkRect 0 0 30 30) (mkRect 0 0 100 100) posBelow = - 30 \<and>
   visibleHeight (newStrategy ElementOrigin) \<lparr> pt_x = - 60, pt_y = - 60 \<rparr>
      (mkRect 0 0 30 30) (mkRect 0 0 100 100) posBelow = - 30 \<and>
   visibleArea (getOverlayFit (newStrategy ElementOrigin) \<lparr> pt_x = - 60, pt_y = - 60 \<rparr>
      (mkRect 0 0 30 30) (mkRect 0 0 100 100) posBelow) = 900 \<and>
   isCompletelyWithinViewport (getOverlayFit (newStrategy ElementOrigin) \<lparr> pt_x = - 60, pt_y = - 60 \<rparr>
      (mkRect 0 0 30 30) (mkRect 0 0 100 100) posBelow)"
  by (simp add: getOverlayFit_def visibleWidth_def visibleHeight_def fitX_def fitY_def
      newStrategy_def posBelow_def mkPosition_def mkRect_def getRoundedBoundingClientRect_def
      subtractOverflows_def)

subsection \<open>The push resolver\<close>

text \<open>C5. When the position is locked and a previous push amount exists,
  \<^verbatim>\<open>_pushOverlayOnScreen\<close> returns the start point moved by exactly that amount and changes
  nothing: the overlay rectangle, the viewport and the scroll position play no part.
  Otherwise it moves the start point by the push it computes and records that push. Under
  a lock, the recorded amount is the one any later call adds to its start point.\<close>

theorem pushOverlayOnScreen_reuse_or_record:
  "(positionLocked s \<and> previousPushAmount s = Some prev \<longrightarrow>
      pushOverlayOnScreen s start rawOverlayRect scrollPosition =
        (\<lparr> pt_x = pt_x start + pt_x prev, pt_y = pt_y start + pt_y prev \<rparr>, s)) \<and>
   (\<not> (positionLocked s \<and> previousPushAmount s \<noteq> None) \<longrightarrow>
      pushOverlayOnScreen s start rawOverlayRect scrollPosition =
        (\<lparr> pt_x = pt_x start + pt_x (computePush s start rawOverlayRect scrollPosition),
           pt_y = pt_y start + pt_y (computePush s start rawOverlayRect scrollPosition) \<rparr>,
         s\<lparr> previousPushAmount := Some (computePush s start rawOverlayRect scrollPosition) \<rparr>)) \<and>
   (positionLocked s \<longrightarrow>
      (\<exists>d. previousPushAmount (snd (pushOverlayOnScreen s start rawOverlayRect scrollPosition)) = Some d \<and>
           fst (pushOverlayOnScreen s start rawOverlayRect scrollPosition) =
             \<lparr> pt_x = pt_x start + pt_x d, pt_y = pt_y start + pt_y d \<rparr> \<and>
           pushOverlayOnScreen (snd (pushOverlayOnScreen s start rawOverlayRect scrollPosition))
               start' rawOverlayRect' scrollPosition' =
             (\<lparr> pt_x = pt_x start' + pt_x d, pt_y = pt_y start' + pt_y d \<rparr>,
              snd (pushOverlayOnScreen s start rawOverlayRect scrollPosition))))"
  by (cases "previousPushAmount s") (auto simp: pushOverlayOnScreen_def Let_def)


text \<open>Witness for C5: the locked strategy reuses its recorded push of (-20, -20); the
  unlocked one, with an overlay of 90 by 90 at (30, 30), computes the push (-20, -20) and
  records it.\<close>

theorem pushOverlayOnScreen_reuse_or_record_witness:
  "positionLocked pushedState \<and>
   previousPushAmount pushedState = Some \<lparr> pt_x = - 20, pt_y = - 20 \<rparr> \<and>
   pushOverlayOnScreen pushedState \<lparr> pt_x = 50, pt_y = 60 \<rparr> (mkRect 0 0 90 90)
       \<lparr> sp_top = 0, sp_left = 0 \<rparr> = (\<lparr> pt_x = 30, pt_y = 40 \<rparr>, pushedState) \<and>
   \<not> (positionLocked unpushedState \<and> previousPushAmount unpushedState \<noteq> None) \<and>
   fst (pushOverlayOnScreen unpushedState \<lparr> pt_x = 30, pt_y = 30 \<rparr> (mkRect 0 0 90 90)
       \<lparr> sp_top = 0, sp_left = 0 \<rparr>) = \<lparr> pt_x = 10, pt_y = 10 \<rparr> \<and>
   previousPushAmount (snd (pushOverlayOnScreen unpushedState \<lparr> pt_x = 30, pt_y = 30 \<rparr>
       (mkRect 0 0 90 90) \<lparr> sp_top = 0, sp_left = 0 \<rparr>)) = Some \<lparr> pt_x = - 20, pt_y = - 20 \<rparr>"
proof -
  have l: "positionLocked pushedState \<and>
      previousPushAmount pushedState = Some \<lparr> pt_x = - 20, pt_y = - 20 \<rparr>"
    by (simp add: pushedState_def lockedState_def)
  have u: "\<not> (positionLocked unpushedState \<and> previousPushAmount unpushedState \<noteq> None)"
    by (simp add: unpushedState_def sceneState_def newStrategy_def)
  have c: "computePush unpushedState \<lparr> pt_x = 30, pt_y = 30 \<rparr> (mkRect 0 0 90 90)
      \<lparr> sp_top = 0, sp_left = 0 \<rparr> = \<lparr> pt_x = - 20, pt_y = - 20 \<rparr>"
    by (simp add: computePush_def Let_def unpushedState_def sceneState_def newStrategy_def
        mkRect_def getRoundedBoundingClientRect_def)
  show ?thesis
    using l u
      pushOverlayOnScreen_reuse_or_record [of pushedState "\<lparr> pt_x = - 20, pt_y = - 20 \<rparr>"
        "\<lparr> pt_x = 50, pt_y = 60 \<rparr>" "mkRect 0 0 90 90" "\<lparr> sp_top = 0, sp_left = 0 \<rparr>"]
      pushOverlayOnScreen_reuse_or_record [of unpushedState _
        "\<lparr> pt_x = 30, pt_y = 30 \<rparr>" "mkRect 0 0 90 90" "\<lparr> sp_top = 0, sp_left = 0 \<rparr>"]
    by (simp add: c)
qed

subsection \<open>Bounding-box sizing\<close>

lemma lastBoundingBoxSize_kept:
  "lastBoundingBoxSize (setTransformOrigin s env p) = lastBoundingBoxSize s"
  "lastBoundingBoxSize (setOverlayElementStyles s env o' p) = lastBoundingBoxSize s"
proof -
  show "lastBoundingBoxSize (setTransformOrigin s env p) = lastBoundingBoxSize s"
    by (simp add: setTransformOrigin_def Let_def)
  obtain a b where "setOverlayElementStyles s env o' p = s\<lparr> previousPushAmount := a, elementStyle := b \<rparr>"
    using setOverlayElementStyles_shape by blast
  then show "lastBoundingBoxSize (setOverlayElementStyles s env o' p) = lastBoundingBoxSize s"
    by simp
qed

lemma lastBoundingBoxSize_addPanelClasses:
  "lastBoundingBoxSize (addPanelClasses s cs) = lastBoundingBoxSize s"
proof -
  obtain a b where "addPanelClasses s cs = s\<lparr> appliedPanelClasses := a, classList := b \<rparr>"
    using addPanelClasses_shape by blast
  then show ?thesis by simp
qed

lemma lastBoundingBoxSize_setBoundingBoxStyles:
  "lastBoundingBoxSize (setBoundingBoxStyles s env o' p) = cappedBoundingBoxRect s env o' p"
  by (simp add: setBoundingBoxStyles_def Let_def writeStyles_def)

lemma capped_le:
  assumes "\<not> growAfterOpen s" and "\<not> isInitialRender s"
  shows "bb_height (cappedBoundingBoxRect s env o' p) \<le> bb_height (lastBoundingBoxSize s)"
    and "bb_width (cappedBoundingBoxRect s env o' p) \<le> bb_width (lastBoundingBoxSize s)"
  using assms by (simp_all add: cappedBoundingBoxRect_def Let_def)

lemma capped_cong:
  assumes "growAfterOpen t = growAfterOpen s" "isInitialRender t = isInitialRender s"
    "lastBoundingBoxSize t = lastBoundingBoxSize s" "viewportRect t = viewportRect s"
    "viewportMargin t = viewportMargin s"
  shows "cappedBoundingBoxRect t env o' p = cappedBoundingBoxRect s env o' p"
  unfolding cappedBoundingBoxRect_def calculateBoundingBoxRect_def boundingBoxVertical_def
    boundingBoxHorizontal_def assms
  by (rule refl)

lemma applyPosition_size:
  "lastBoundingBoxSize (applyPosition s env p o') = cappedBoundingBoxRect s env o' p"
proof -
  let ?s2 = "setOverlayElementStyles (setTransformOrigin s env p) env o' p"
  have "lastBoundingBoxSize (applyPosition s env p o') = cappedBoundingBoxRect ?s2 env o' p"
    by (simp add: applyPosition_def Let_def lastBoundingBoxSize_addPanelClasses
        lastBoundingBoxSize_setBoundingBoxStyles)
  also have "\<dots> = cappedBoundingBoxRect s env o' p"
    by (rule capped_cong)
       (simp_all add: setOverlayElementStyles_fields setTransformOrigin_fields lastBoundingBoxSize_kept)
  finally show ?thesis .
qed

subsection \<open>What a successful call of apply has done\<close>

lemma scan_GoodFit_mem:
  "scanPositions m env ps ff fb = GoodFit p o' \<Longrightarrow> p \<in> set ps"
proof (induction ps arbitrary: ff fb)
  case Nil
  then show ?case by simp
next
  case (Cons q ps)
  then show ?case
    by (auto simp: scanPositions_step simp del: scanPositions.simps split: if_splits)
qed

lemma scan_NoGoodFit:
  "scanPositions m env ps ff fb = NoGoodFit ff' fb' \<Longrightarrow>
     ff' = ff @ flexibleFitsOf m env ps \<and>
     (\<forall>q \<in> set ps. \<not> isCompletelyWithinViewport (positionFit m env q)) \<and>
     (\<forall>f. fb' = Some f \<longrightarrow> fb = Some f \<or> fb_position f \<in> set ps)"
proof (induction ps arbitrary: ff fb)
  case Nil
  then show ?case by (simp add: flexibleFitsOf_def)
next
  case (Cons q ps)
  show ?case
  proof (cases "fitsFlexibly m env q")
    case True
    with Cons.prems have "scanPositions m env ps (ff @ [flexibleFitOf m env q]) fb = NoGoodFit ff' fb'"
      and "\<not> isCompletelyWithinViewport (positionFit m env q)"
      by (auto simp: scanPositions_step simp del: scanPositions.simps split: if_splits)
    with Cons.IH [of "ff @ [flexibleFitOf m env q]" fb] True show ?thesis
      by (auto simp: flexibleFitsOf_def)
  next
    case False
    with Cons.prems obtain fb0 where
      s: "scanPositions m env ps ff fb0 = NoGoodFit ff' fb'"
      and n: "\<not> isCompletelyWithinViewport (positionFit m env q)"
      and f: "fb0 = fb \<or> (\<exists>g. fb0 = Some g \<and> fb_position g = q)"
      by (auto simp: scanPositions_step simp del: scanPositions.simps split: if_splits)
    from Cons.IH [OF s] n f False show ?thesis
      by (auto simp: flexibleFitsOf_def)
  qed
qed

lemma pickBestFit_mem:
  "pickBestFit fs best bs = Some b \<Longrightarrow> best = Some b \<or> b \<in> set fs"
  by (induction fs arbitrary: best bs) (auto simp: Let_def split: if_splits)

lemma flexibleFitsOf_position:
  "f \<in> set (flexibleFitsOf m env ps) \<Longrightarrow> ff_position f \<in> set ps"
  by (auto simp: flexibleFitsOf_def flexibleFitOf_def)

lemma reapply_form:
  assumes "\<not> isDisposed s" and "isBrowser env"
  shows "reapplyLastPosition s env =
     (if \<not> attached s then Inl (TypeError, s\<lparr> originRect := getOriginRect s env \<rparr>)
      else case positionToReapply s of
             None \<Rightarrow> Inl (TypeError, remeasured s env)
           | Some p \<Rightarrow>
               Inr (applyPosition (remeasured s env) env p
                      (getOriginPoint env (getOriginRect s env) p)))"
proof -
  have a: "attached (s\<lparr> originRect := getOriginRect s env \<rparr>) = attached s"
    by (simp add: attached_def)
  have v: "getNarrowedViewportRect
             (s\<lparr> originRect := getOriginRect s env, overlayRect := paneRect env \<rparr>) env =
           getNarrowedViewportRect s env"
    by (simp add: getNarrowedViewportRect_def)
  show ?thesis
    using assms
    unfolding reapplyLastPosition_def Let_def
    by (simp add: a v remeasured_def positionToReapply_def
        split: option.splits list.splits)
qed

lemma remeasured_fields:
  "positionChanges (remeasured s env) = positionChanges s"
  "preferredPositions (remeasured s env) = preferredPositions s"
  "lastBoundingBoxSize (remeasured s env) = lastBoundingBoxSize s"
  "growAfterOpen (remeasured s env) = growAfterOpen s"
  "isInitialRender (remeasured s env) = isInitialRender s"
  "viewportMargin (remeasured s env) = viewportMargin s"
  "viewportRect (remeasured s env) = getNarrowedViewportRect s env"
  "originRect (remeasured s env) = getOriginRect s env"
  "overlayRect (remeasured s env) = paneRect env"
  "lastPosition (remeasured s env) = lastPosition s"
  "isPushed (remeasured s env) = isPushed s"
  "positionLocked (remeasured s env) = positionLocked s"
  "hasFlexibleDimensions (remeasured s env) = hasFlexibleDimensions s"
  by (simp_all add: remeasured_def)

lemma positionToReapply_cases:
  "positionToReapply s = Some p \<Longrightarrow>
     lastPosition s = Some p \<or> lastPosition s = None \<and> p \<in> set (preferredPositions s)"
  by (auto simp: positionToReapply_def split: option.splits list.splits)

lemma reapply_success:
  assumes "reapplyLastPosition s env = Inr s'" and "\<not> isDisposed s" and "isBrowser env"
  shows "\<exists>m p o'. s' = applyPosition m env p o' \<and>
           (lastPosition s = Some p \<or> lastPosition s = None \<and> p \<in> set (preferredPositions s)) \<and>
           positionChanges m = positionChanges s \<and>
           preferredPositions m = preferredPositions s \<and>
           lastBoundingBoxSize m = lastBoundingBoxSize s \<and>
           growAfterOpen m = growAfterOpen s \<and>
           isInitialRender m = isInitialRender s \<and>
           viewportMargin m = viewportMargin s \<and>
           viewportRect m = getNarrowedViewportRect s env"
proof -
  from assms obtain p where p: "positionToReapply s = Some p"
    and s': "s' = applyPosition (remeasured s env) env p (getOriginPoint env (getOriginRect s env) p)"
    by (auto simp: reapply_form split: if_splits option.splits)
  show ?thesis
    apply (rule exI [of _ "remeasured s env"], rule exI [of _ p],
        rule exI [of _ "getOriginPoint env (getOriginRect s env) p"])
    using s' positionToReapply_cases [OF p] by (simp add: remeasured_fields)
qed

lemma apply_success:
  assumes "apply' s env = Inr s'" and "\<not> isDisposed s" and "isBrowser env"
  shows "\<exists>m p o'. s' = applyPosition m env p o' \<and>
           (lastPosition s = Some p \<or> p \<in> set (preferredPositions s)) \<and>
           (takesLockedShortcut s env \<longrightarrow> lastPosition s = Some p) \<and>
           positionChanges m = positionChanges s \<and>
           preferredPositions m = preferredPositions s \<and>
           lastBoundingBoxSize m = lastBoundingBoxSize s \<and>
           growAfterOpen m = growAfterOpen s \<and>
           isInitialRender m = isInitialRender s \<and>
           viewportMargin m = viewportMargin s \<and>
           viewportRect m = getNarrowedViewportRect s env"
proof (cases "\<not> isInitialRender s \<and> positionLocked s \<and> lastPosition s \<noteq> None")
  case True
  with assms have "reapplyLastPosition s env = Inr s'"
    by (simp add: apply'_def)
  from reapply_success [OF this assms(2,3)] True show ?thesis
    by (auto simp: takesLockedShortcut_def)
next
  case False
  have att: "attached s"
  proof (rule ccontr)
    assume "\<not> attached s"
    then have "\<not> attached (clearPanelClasses s)"
      by (simp add: attached_def clearPanelClasses_def)
    with assms(2,3) False have "apply' s env = Inl (TypeError, clearPanelClasses s)"
      unfolding apply'_def Let_def by (simp only: if_False if_True simp_thms)
    with assms(1) show False by simp
  qed
  with assms False have rs: "runsSelection s env"
    by (auto simp: runsSelection_def)
  let ?m = "measured s env"
  have nl: "\<not> takesLockedShortcut s env"
    using False by (auto simp: takesLockedShortcut_def)
  have *: "\<exists>b p o'. s' = applyPosition (?m\<lparr> isPushed := b \<rparr>) env p o' \<and> p \<in> set (preferredPositions s)"
  proof (cases "scanPositions ?m env (preferredPositions s) [] None")
    case (GoodFit p o')
    with assms(1) have "s' = applyPosition (?m\<lparr> isPushed := False \<rparr>) env p o'"
      by (simp add: apply_runsSelection [OF rs])
    moreover have "p \<in> set (preferredPositions s)"
      using scan_GoodFit_mem [OF GoodFit] .
    ultimately show ?thesis by blast
  next
    case (NoGoodFit ff fb)
    from scan_NoGoodFit [OF NoGoodFit]
    have ff: "ff = flexibleFitsOf ?m env (preferredPositions s)"
      and fb: "\<forall>f. fb = Some f \<longrightarrow> fb_position f \<in> set (preferredPositions s)"
      by auto
    show ?thesis
    proof (cases "ff \<noteq> []")
      case True
      with assms(1) NoGoodFit obtain b where
        b: "pickBestFit ff None (- 1) = Some b"
        and s': "s' = applyPosition (?m\<lparr> isPushed := False \<rparr>) env (ff_position b) (ff_origin b)"
        by (auto simp: apply_runsSelection [OF rs] split: option.splits)
      from pickBestFit_mem [OF b] have "b \<in> set ff" by simp
      then have "ff_position b \<in> set (preferredPositions s)"
        unfolding ff by (rule flexibleFitsOf_position)
      with s' show ?thesis by blast
    next
      case False
      with assms(1) NoGoodFit obtain f where
        f: "fb = Some f"
        and s': "s' = applyPosition (?m\<lparr> isPushed := (if canPush s then True else isPushed ?m) \<rparr>) env
                   (fb_position f) (fb_originPoint f)"
        by (auto simp: apply_runsSelection [OF rs] split: option.splits if_splits)
      with fb show ?thesis by blast
    qed
  qed
  then obtain b p o' where s': "s' = applyPosition (?m\<lparr> isPushed := b \<rparr>) env p o'"
    and p: "p \<in> set (preferredPositions s)" by blast
  show ?thesis
    apply (rule exI [of _ "?m\<lparr> isPushed := b \<rparr>"], rule exI [of _ p], rule exI [of _ o'])
    using s' p nl by (simp add: measured_fields)
qed


subsection \<open>Position changes\<close>

text \<open>C7, as the code has it. Every \<^verbatim>\<open>apply\<close> that returns after applying a placement,
  the locked reapply of the last position included, emits one \<^verbatim>\<open>positionChanges\<close>
  notification carrying the applied position and the scroll visibility when the subject
  has at least one subscriber, and none when it has no subscriber. The locked shortcut
  applies the stored last position.\<close>

theorem apply_emits_position_change:
  assumes "apply' s env = Inr s'" and "\<not> isDisposed s" and "isBrowser env"
  shows "\<exists>p. lastPosition s' = Some p \<and>
              positionChanges s' = positionChanges s @
                (if observers env > 0
                 then [\<lparr> connectionPair = p, scrollableViewProperties = scrollVisibility env \<rparr>]
                 else []) \<and>
              (takesLockedShortcut s env \<longrightarrow> lastPosition s = Some p)"
proof -
  from apply_success [OF assms] obtain m p o' where
    s': "s' = applyPosition m env p o'"
    and l: "takesLockedShortcut s env \<longrightarrow> lastPosition s = Some p"
    and c: "positionChanges m = positionChanges s"
    by blast
  show ?thesis
    using l by (simp add: s' applyPosition_fields c changeEvents_def)
qed

text \<open>C7 as stated fails: the locked strategy takes the shortcut in \<^verbatim>\<open>apply\<close>, reuses its
  last position, and the subscriber still receives a notification.\<close>

theorem locked_reapply_emits:
  "takesLockedShortcut lockedState (sceneEnv 30) \<and>
   positionChanges lockedState = [] \<and>
   lastPosition (resultState (apply' lockedState (sceneEnv 30))) = lastPosition lockedState \<and>
   positionChanges (resultState (apply' lockedState (sceneEnv 30))) =
     [\<lparr> connectionPair = posBelow, scrollableViewProperties = scrollVisibility (sceneEnv 30) \<rparr>]"
proof -
  have d: "\<not> isDisposed lockedState" "isBrowser (sceneEnv 30)" "attached lockedState"
    "positionToReapply lockedState = Some posBelow" "positionChanges lockedState = []"
    "lastPosition lockedState = Some posBelow"
    by (simp_all add: lockedState_def sceneState_def newStrategy_def
        sceneEnv_fields attached_def positionToReapply_def)
  have a: "apply' lockedState (sceneEnv 30) =
      Inr (applyPosition (remeasured lockedState (sceneEnv 30)) (sceneEnv 30) posBelow
             (getOriginPoint (sceneEnv 30) (getOriginRect lockedState (sceneEnv 30)) posBelow))"
    using d by (simp add: apply'_def reapply_form lockedState_def)
  have t: "takesLockedShortcut lockedState (sceneEnv 30)"
    using d by (simp add: takesLockedShortcut_def lockedState_def)
  show ?thesis
    by (simp add: a applyPosition_fields remeasured_fields changeEvents_def sceneEnv_fields d t)
qed

text \<open>Witness for C7 at the same call.\<close>

theorem apply_emits_position_change_witness:
  "\<not> isDisposed lockedState \<and> isBrowser (sceneEnv 30) \<and>
   apply' lockedState (sceneEnv 30) =
      Inr (applyPosition (remeasured lockedState (sceneEnv 30)) (sceneEnv 30) posBelow
             (getOriginPoint (sceneEnv 30) (getOriginRect lockedState (sceneEnv 30)) posBelow)) \<and>
   (\<exists>p. lastPosition (applyPosition (remeasured lockedState (sceneEnv 30)) (sceneEnv 30) posBelow
             (getOriginPoint (sceneEnv 30) (getOriginRect lockedState (sceneEnv 30)) posBelow)) = Some p \<and>
        positionChanges (applyPosition (remeasured lockedState (sceneEnv 30)) (sceneEnv 30) posBelow
             (getOriginPoint (sceneEnv 30) (getOriginRect lockedState (sceneEnv 30)) posBelow)) =
          positionChanges lockedState @
            [\<lparr> connectionPair = p, scrollableViewProperties = scrollVisibility (sceneEnv 30) \<rparr>] \<and>
        lastPosition lockedState = Some p)"
proof -
  have d: "\<not> isDisposed lockedState" "isBrowser (sceneEnv 30)" "attached lockedState"
    "positionToReapply lockedState = Some posBelow"
    by (simp_all add: lockedState_def sceneState_def newStrategy_def
        sceneEnv_fields attached_def positionToReapply_def)
  have a: "apply' lockedState (sceneEnv 30) =
      Inr (applyPosition (remeasured lockedState (sceneEnv 30)) (sceneEnv 30) posBelow
             (getOriginPoint (sceneEnv 30) (getOriginRect lockedState (sceneEnv 30)) posBelow))"
    using d by (simp add: apply'_def reapply_form lockedState_def)
  have t: "takesLockedShortcut lockedState (sceneEnv 30)"
    using d by (simp add: takesLockedShortcut_def lockedState_def)
  show ?thesis
    using apply_emits_position_change [OF a d(1,2)] d a t
    by (simp add: sceneEnv_fields)
qed

subsection \<open>The last position stays in the list\<close>

lemma lastPositionListed_iff:
  "lastPositionListed s \<longleftrightarrow> (\<forall>p. lastPosition s = Some p \<longrightarrow> p \<in> set (preferredPositions s))"
  by (simp add: lastPositionListed_def split: option.splits)

lemma listed_applyPosition:
  "p \<in> set (preferredPositions m) \<Longrightarrow> lastPositionListed (applyPosition m env p o')"
  by (simp add: lastPositionListed_iff applyPosition_fields)

lemma listed_reapply:
  assumes "lastPositionListed s"
  shows "lastPositionListed (resultState (reapplyLastPosition s env))"
proof (cases "\<not> isDisposed s \<and> isBrowser env")
  case False
  then show ?thesis using assms by (auto simp: reapplyLastPosition_def)
next
  case True
  then have d: "\<not> isDisposed s" "isBrowser env" by simp_all
  show ?thesis
  proof (cases "reapplyLastPosition s env")
    case (Inl es)
    then have "resultState (reapplyLastPosition s env) = s\<lparr> originRect := getOriginRect s env \<rparr> \<or>
        resultState (reapplyLastPosition s env) = remeasured s env"
      by (auto simp: reapply_form [OF d] split: if_splits option.splits)
    then show ?thesis using assms
      by (auto simp: lastPositionListed_iff remeasured_def)
  next
    case (Inr s')
    from reapply_success [OF Inr d] obtain m p o' where
      "s' = applyPosition m env p o'"
      "lastPosition s = Some p \<or> lastPosition s = None \<and> p \<in> set (preferredPositions s)"
      "preferredPositions m = preferredPositions s"
      by blast
    with assms have "lastPositionListed s'"
      by (auto simp: lastPositionListed_iff applyPosition_fields)
    with Inr show ?thesis by simp
  qed
qed

lemma listed_apply:
  assumes "lastPositionListed s"
  shows "lastPositionListed (resultState (apply' s env))"
proof (cases "isDisposed s \<or> \<not> isBrowser env")
  case True
  then show ?thesis using assms by (auto simp: apply'_def)
next
  case False
  then have d: "\<not> isDisposed s" "isBrowser env" by simp_all
  show ?thesis
  proof (cases "apply' s env")
    case (Inr s')
    from apply_success [OF Inr d] obtain m p o' where
      "s' = applyPosition m env p o'"
      "lastPosition s = Some p \<or> p \<in> set (preferredPositions s)"
      "preferredPositions m = preferredPositions s"
      by blast
    with assms have "lastPositionListed s'"
      by (auto simp: lastPositionListed_iff applyPosition_fields)
    with Inr show ?thesis by simp
  next
    case (Inl es)
    show ?thesis
    proof (cases "\<not> isInitialRender s \<and> positionLocked s \<and> lastPosition s \<noteq> None")
      case True
      with d have "apply' s env = reapplyLastPosition s env" by (simp add: apply'_def)
      then show ?thesis using listed_reapply [OF assms] by simp
    next
      case nl: False
      show ?thesis
      proof (cases "attached s")
        case False
        then have "\<not> attached (clearPanelClasses s)"
          by (simp add: attached_def clearPanelClasses_def)
        with d nl have "apply' s env = Inl (TypeError, clearPanelClasses s)"
          unfolding apply'_def Let_def by (simp only: if_False if_True simp_thms)
        then show ?thesis using assms
          by (simp add: lastPositionListed_iff clearPanelClasses_def)
      next
        case True
        with d nl have rs: "runsSelection s env" by (auto simp: runsSelection_def)
        have "lastPosition (resultState (apply' s env)) = lastPosition s \<and>
            preferredPositions (resultState (apply' s env)) = preferredPositions s"
          using Inl
          by (auto simp: apply_runsSelection [OF rs] measured_fields
              split: ScanResult.splits option.splits if_splits)
        then show ?thesis using assms
          by (simp add: lastPositionListed_iff)
      qed
    qed
  qed
qed

lemma listed_withPositions:
  "lastPositionListed (resultState (withPositions s env positions))"
  by (auto simp: withPositions_def Let_def lastPositionListed_iff split: option.splits)

lemma listed_attach:
  "lastPositionListed s \<Longrightarrow> lastPositionListed (resultState (attach s env ovRef))"
  by (auto simp: attach_def lastPositionListed_iff split: option.splits)

lemma listed_detach: "lastPositionListed (detach s)"
  by (simp add: detach_def lastPositionListed_iff)

lemma listed_dispose: "lastPositionListed s \<Longrightarrow> lastPositionListed (dispose s)"
  by (simp add: dispose_def Let_def lastPositionListed_iff detach_def)

lemma reachable_listed:
  "reachable s \<Longrightarrow> lastPositionListed s"
proof (induction rule: reachable.induct)
  case (r_new connectedTo)
  show ?case by (simp add: lastPositionListed_iff newStrategy_def)
next
  case (r_attach s env ovRef)
  then show ?case by (simp add: listed_attach)
next
  case (r_apply s env)
  then show ?case by (simp add: listed_apply)
next
  case (r_reapply s env)
  then show ?case by (simp add: listed_reapply)
next
  case (r_viewportChange s env)
  then have "lastPositionListed (s\<lparr> isInitialRender := True \<rparr>)"
    by (simp add: lastPositionListed_iff)
  from listed_apply [OF this] r_viewportChange show ?case
    by (simp add: viewportChange_def)
next
  case (r_detach s)
  show ?case by (rule listed_detach)
next
  case (r_dispose s)
  then show ?case by (simp add: listed_dispose)
next
  case (r_withPositions s env positions)
  show ?case by (rule listed_withPositions)
qed (simp_all add: lastPositionListed_iff withViewportMargin_def withFlexibleDimensions_def
    withGrowAfterOpen_def withPush_def withLockedPosition_def setOrigin_def
    withDefaultOffsetX_def withDefaultOffsetY_def withTransformOriginOn_def)


text \<open>C10. In every state the strategy can reach through its public methods, the stored
  last position is absent or one of the current preferred positions: \<^verbatim>\<open>withPositions\<close>
  keeps it only when it is in the new list, \<^verbatim>\<open>detach\<close> clears it, and every other method
  stores a position of the list or leaves it alone. So an \<^verbatim>\<open>apply\<close> that takes the locked
  shortcut reapplies a position that is still in the list.\<close>

theorem lastPosition_always_listed:
  assumes "reachable s"
  shows "lastPositionListed s \<and>
         lastPosition (resultState (withPositions s env positions)) =
           (case lastPosition s of
              None \<Rightarrow> None
            | Some p \<Rightarrow> if p \<in> set positions then Some p else None) \<and>
         lastPosition (detach s) = None \<and>
         (\<forall>env s'. takesLockedShortcut s env \<longrightarrow> apply' s env = Inr s' \<longrightarrow>
            (\<exists>p. lastPosition s = Some p \<and> lastPosition s' = Some p \<and>
                 p \<in> set (preferredPositions s')))"
proof -
  have l: "lastPositionListed s" using assms by (rule reachable_listed)
  have w: "lastPosition (resultState (withPositions s env positions)) =
           (case lastPosition s of
              None \<Rightarrow> None
            | Some p \<Rightarrow> if p \<in> set positions then Some p else None)"
    by (auto simp: withPositions_def Let_def split: option.splits)
  have d: "lastPosition (detach s) = None" by (simp add: detach_def)
  have "\<exists>p. lastPosition s = Some p \<and> lastPosition s' = Some p \<and> p \<in> set (preferredPositions s')"
    if t: "takesLockedShortcut s env" and a: "apply' s env = Inr s'" for env s'
  proof -
    from t have d: "\<not> isDisposed s" "isBrowser env" by (simp_all add: takesLockedShortcut_def)
    from apply_success [OF a d] t obtain m p o' where
      "s' = applyPosition m env p o'" "lastPosition s = Some p"
      "preferredPositions m = preferredPositions s"
      by blast
    with l show ?thesis by (auto simp: lastPositionListed_iff applyPosition_fields)
  qed
  with l w d show ?thesis by blast
qed

subsection \<open>Right-to-left symmetry\<close>

lemma swapStartEnd_valid:
  "validHorizontal v \<Longrightarrow>
     (swapStartEnd v = ''center'') = (v = ''center'') \<and>
     (swapStartEnd v = ''start'') = (v = ''end'') \<and>
     (swapStartEnd v = ''end'') = (v = ''start'')"
  by (auto simp: validHorizontal_def swapStartEnd_def)

text \<open>C9. For a position with valid horizontal literals, evaluating it right-to-left
  gives the same origin point, overlay point, overlay fit and bounding-box rectangle as
  evaluating its mirror left-to-right, everything else being equal.\<close>

theorem rtl_mirror_symmetry:
  assumes "validHorizontal (originX c)" and "validHorizontal (overlayX c)"
      and "direction env = ''rtl''"
  shows "getOriginPoint env originRect' c =
           getOriginPoint (env\<lparr> direction := ''ltr'' \<rparr>) originRect' (mirror c) \<and>
         getOverlayPoint env originPoint overlayRect' c =
           getOverlayPoint (env\<lparr> direction := ''ltr'' \<rparr>) originPoint overlayRect' (mirror c) \<and>
         getOverlayPoint env (getOriginPoint env originRect' c) overlayRect' c =
           getOverlayPoint (env\<lparr> direction := ''ltr'' \<rparr>)
             (getOriginPoint (env\<lparr> direction := ''ltr'' \<rparr>) originRect' (mirror c)) overlayRect' (mirror c) \<and>
         getOverlayFit s point overlayRect' viewport c =
           getOverlayFit s point overlayRect' viewport (mirror c) \<and>
         calculateBoundingBoxRect s env originPoint c =
           calculateBoundingBoxRect s (env\<lparr> direction := ''ltr'' \<rparr>) originPoint (mirror c)"
proof -
  note ox = swapStartEnd_valid [OF assms(1)] and vx = swapStartEnd_valid [OF assms(2)]
  have o: "getOriginPoint env originRect' c =
           getOriginPoint (env\<lparr> direction := ''ltr'' \<rparr>) originRect' (mirror c)"
    using assms(1,3) ox by (auto simp: getOriginPoint_def isRtl_def mirror_def Let_def validHorizontal_def)
  have p: "getOverlayPoint env pt overlayRect' c =
           getOverlayPoint (env\<lparr> direction := ''ltr'' \<rparr>) pt overlayRect' (mirror c)" for pt
    using assms(2,3) vx by (auto simp: getOverlayPoint_def isRtl_def mirror_def Let_def validHorizontal_def)
  have f: "getOverlayFit s point overlayRect' viewport c =
           getOverlayFit s point overlayRect' viewport (mirror c)"
    by (simp add: getOverlayFit_def visibleWidth_def visibleHeight_def fitX_def fitY_def mirror_def)
  have h: "boundingBoxHorizontal s env originPoint c =
           boundingBoxHorizontal s (env\<lparr> direction := ''ltr'' \<rparr>) originPoint (mirror c)"
    using assms(2,3) vx by (auto simp: boundingBoxHorizontal_def isRtl_def mirror_def Let_def validHorizontal_def)
  have y: "overlayY (mirror c) = overlayY c" by (simp add: mirror_def)
  have v: "boundingBoxVertical s originPoint c = boundingBoxVertical s originPoint (mirror c)"
    unfolding boundingBoxVertical_def y by (rule refl)
  show ?thesis
    using o p f by (simp add: calculateBoundingBoxRect_def h v)
qed

text \<open>Witness for C9: \<open>posBelow\<close> right-to-left and its mirror left-to-right both put the
  overlay of 30 by 30 at (-20, 30).\<close>

theorem rtl_mirror_symmetry_witness:
  "validHorizontal (originX posBelow) \<and> validHorizontal (overlayX posBelow) \<and>
   direction ((sceneEnv 30)\<lparr> direction := ''rtl'' \<rparr>) = ''rtl'' \<and>
   mirror posBelow = posBelow\<lparr> originX := ''start'', overlayX := ''end'' \<rparr> \<and>
   getOverlayPoint ((sceneEnv 30)\<lparr> direction := ''rtl'' \<rparr>)
     (getOriginPoint ((sceneEnv 30)\<lparr> direction := ''rtl'' \<rparr>) (mkRect 10 10 20 20) posBelow)
     (mkRect 0 0 30 30) posBelow = \<lparr> pt_x = - 20, pt_y = 30 \<rparr> \<and>
   getOverlayPoint (sceneEnv 30)
     (getOriginPoint (sceneEnv 30) (mkRect 10 10 20 20) (mirror posBelow))
     (mkRect 0 0 30 30) (mirror posBelow) = \<lparr> pt_x = - 20, pt_y = 30 \<rparr>"
proof -
  let ?rtl = "(sceneEnv 30)\<lparr> direction := ''rtl'' \<rparr>"
  have v: "validHorizontal (originX posBelow)" "validHorizontal (overlayX posBelow)"
    by (simp_all add: validHorizontal_def posBelow_def mkPosition_def)
  have d: "direction ?rtl = ''rtl''" by simp
  have e: "?rtl\<lparr> direction := ''ltr'' \<rparr> = sceneEnv 30" by (simp add: sceneEnv_def)
  have m: "mirror posBelow = posBelow\<lparr> originX := ''start'', overlayX := ''end'' \<rparr>"
    by (simp add: mirror_def swapStartEnd_def posBelow_def mkPosition_def)
  have r: "getOverlayPoint ?rtl (getOriginPoint ?rtl (mkRect 10 10 20 20) posBelow)
     (mkRect 0 0 30 30) posBelow = \<lparr> pt_x = - 20, pt_y = 30 \<rparr>"
    by (simp add: getOverlayPoint_def getOriginPoint_def isRtl_def posBelow_def mkPosition_def mkRect_def)
  show ?thesis
    using rtl_mirror_symmetry [OF v d, of "mkRect 10 10 20 20" _ "mkRect 0 0 30 30"] v d m r
    by (simp add: e)
qed


subsection \<open>Configuration errors\<close>

lemma firstError_None:
  "firstError es = None \<longleftrightarrow> (\<forall>e \<in> set es. e = None)"
  by (induction es rule: firstError.induct) auto

lemma firstError_Some:
  "firstError es = Some e \<Longrightarrow> Some e \<in> set es"
  by (induction es rule: firstError.induct) auto

lemma validatePair_None: "validatePair p = None \<longleftrightarrow> validPosition p"
  by (auto simp: validatePair_def validPosition_def validHorizontal_def validVertical_def
      validateHorizontalPosition_def validateVerticalPosition_def)

lemma validatePair_Some:
  "validatePair p = Some e \<Longrightarrow> \<exists>property v. e = InvalidPosition property v"
  by (auto simp: validatePair_def validateHorizontalPosition_def validateVerticalPosition_def
      split: if_splits)

lemma validatePositions_dev:
  assumes "devMode env"
  shows "preferredPositions s = [] \<Longrightarrow> validatePositions s env = Some PositionRequired"
    and "\<exists>p \<in> set (preferredPositions s). \<not> validPosition p \<Longrightarrow>
           \<exists>property v. validatePositions s env = Some (InvalidPosition property v)"
proof -
  show "preferredPositions s = [] \<Longrightarrow> validatePositions s env = Some PositionRequired"
    using assms by (simp add: validatePositions_def)
  assume b: "\<exists>p \<in> set (preferredPositions s). \<not> validPosition p"
  then have ne: "preferredPositions s \<noteq> []" by auto
  from b have "firstError (map validatePair (preferredPositions s)) \<noteq> None"
    by (auto simp: firstError_None validatePair_None)
  then obtain e where e: "firstError (map validatePair (preferredPositions s)) = Some e"
    by blast
  from firstError_Some [OF e] obtain p where "validatePair p = Some e" by auto
  from validatePair_Some [OF this] e ne assms
  show "\<exists>property v. validatePositions s env = Some (InvalidPosition property v)"
    by (auto simp: validatePositions_def)
qed

lemma withPositions_positions:
  "preferredPositions (resultState (withPositions s env positions)) = positions"
  by (auto simp: withPositions_def Let_def split: option.splits)

text \<open>C6, as the code has it. In a development build (\<^verbatim>\<open>ngDevMode\<close> undefined or true) an
  empty list of positions, a position with a literal that is not allowed, and attaching
  to a second overlay while one is attached each make \<^verbatim>\<open>withPositions\<close> or \<^verbatim>\<open>attach\<close>
  throw. In a production build (\<^verbatim>\<open>ngDevMode\<close> false) the checks are skipped and neither
  method throws.\<close>

theorem configuration_errors_in_dev_mode:
  "(devMode env \<longrightarrow>
      (positions = [] \<longrightarrow>
         (\<exists>s'. withPositions s env positions = Inl (PositionRequired, s'))) \<and>
      ((\<exists>p \<in> set positions. \<not> validPosition p) \<longrightarrow>
         (\<exists>property v s'. withPositions s env positions = Inl (InvalidPosition property v, s'))) \<and>
      (preferredPositions s = [] \<and> (overlayRef s = None \<or> overlayRef s = Some ovRef) \<longrightarrow>
         attach s env ovRef = Inl (PositionRequired, s)) \<and>
      ((\<exists>p \<in> set (preferredPositions s). \<not> validPosition p) \<and>
         (overlayRef s = None \<or> overlayRef s = Some ovRef) \<longrightarrow>
         (\<exists>property v. attach s env ovRef = Inl (InvalidPosition property v, s))) \<and>
      (overlayRef s \<noteq> None \<and> overlayRef s \<noteq> Some ovRef \<longrightarrow>
         attach s env ovRef = Inl (AlreadyAttached, s))) \<and>
   (\<not> devMode env \<longrightarrow>
      \<not> isl (withPositions s env positions) \<and> \<not> isl (attach s env ovRef))"
proof (intro conjI impI)
  assume d: "devMode env"
  {
    assume "positions = []"
    then show "\<exists>s'. withPositions s env positions = Inl (PositionRequired, s')"
      using d by (auto simp: withPositions_def Let_def validatePositions_def split: option.splits)
  }
  {
    assume b: "\<exists>p \<in> set positions. \<not> validPosition p"
    let ?s2 = "resultState (withPositions s env positions)"
    have s2: "withPositions s env positions =
        (case validatePositions ?s2 env of Some e \<Rightarrow> Inl (e, ?s2) | None \<Rightarrow> Inr ?s2)"
      by (auto simp: withPositions_def Let_def split: option.splits)
    from b have "\<exists>p \<in> set (preferredPositions ?s2). \<not> validPosition p"
      by (simp add: withPositions_positions)
    from validatePositions_dev(2) [OF d this] obtain property v where
      "validatePositions ?s2 env = Some (InvalidPosition property v)" by blast
    with s2 have "withPositions s env positions = Inl (InvalidPosition property v, ?s2)"
      by simp
    then show "\<exists>property v s'. withPositions s env positions = Inl (InvalidPosition property v, s')"
      by blast
  }
  {
    assume "preferredPositions s = [] \<and> (overlayRef s = None \<or> overlayRef s = Some ovRef)"
    then show "attach s env ovRef = Inl (PositionRequired, s)"
      using validatePositions_dev(1) [OF d, of s] by (auto simp: attach_def)
  }
  {
    assume b: "(\<exists>p \<in> set (preferredPositions s). \<not> validPosition p) \<and>
         (overlayRef s = None \<or> overlayRef s = Some ovRef)"
    then obtain property v where
      "validatePositions s env = Some (InvalidPosition property v)"
      using validatePositions_dev(2) [OF d, of s] by blast
    with b show "\<exists>property v. attach s env ovRef = Inl (InvalidPosition property v, s)"
      by (auto simp: attach_def)
  }
  {
    assume "overlayRef s \<noteq> None \<and> overlayRef s \<noteq> Some ovRef"
    then show "attach s env ovRef = Inl (AlreadyAttached, s)"
      using d by (auto simp: attach_def)
  }
next
  assume n: "\<not> devMode env"
  then have v: "validatePositions t env = None" for t
    by (simp add: validatePositions_def)
  from v show "\<not> isl (withPositions s env positions)"
    by (simp add: withPositions_def Let_def split: option.splits)
  from n v show "\<not> isl (attach s env ovRef)"
    by (simp add: attach_def)
qed

text \<open>C6 as stated fails: in a production build \<^verbatim>\<open>withPositions\<close> accepts an empty list and
  a position with the literal \<^verbatim>\<open>left\<close>, and \<^verbatim>\<open>attach\<close> accepts a strategy without positions
  and a second overlay while the first is attached.\<close>

theorem production_build_skips_validation:
  "\<not> isl (withPositions (newStrategy ElementOrigin) prodEnv []) \<and>
   \<not> isl (withPositions (newStrategy ElementOrigin) prodEnv [badPosition]) \<and>
   \<not> validPosition badPosition \<and>
   \<not> isl (attach (newStrategy ElementOrigin) prodEnv sceneOverlay) \<and>
   overlayRef (sceneState [posBelow]) = Some sceneOverlay \<and> otherOverlay \<noteq> sceneOverlay \<and>
   \<not> isl (attach (sceneState [posBelow]) prodEnv otherOverlay)"
  by (simp add: withPositions_def attach_def validatePositions_def devMode_def prodEnv_def
      newStrategy_def sceneState_def otherOverlay_def sceneOverlay_def validPosition_def
      validHorizontal_def badPosition_def mkPosition_def Let_def)

text \<open>Witness for C6: the same four calls in a development build throw, and in the
  production build they do not.\<close>

theorem configuration_errors_in_dev_mode_witness:
  "devMode (sceneEnv 30) \<and> \<not> devMode prodEnv \<and>
   (\<exists>s'. withPositions (newStrategy ElementOrigin) (sceneEnv 30) [] = Inl (PositionRequired, s')) \<and>
   (\<exists>property v s'. withPositions (newStrategy ElementOrigin) (sceneEnv 30) [badPosition] =
       Inl (InvalidPosition property v, s')) \<and>
   attach (newStrategy ElementOrigin) (sceneEnv 30) sceneOverlay =
       Inl (PositionRequired, newStrategy ElementOrigin) \<and>
   attach (sceneState [posBelow]) (sceneEnv 30) otherOverlay =
       Inl (AlreadyAttached, sceneState [posBelow]) \<and>
   \<not> isl (withPositions (newStrategy ElementOrigin) prodEnv []) \<and>
   \<not> isl (attach (sceneState [posBelow]) prodEnv otherOverlay)"
proof -
  have d: "devMode (sceneEnv 30)" and n: "\<not> devMode prodEnv"
    by (simp_all add: devMode_def sceneEnv_fields prodEnv_def)
  have b: "\<exists>p \<in> set [badPosition]. \<not> validPosition p"
    by (simp add: validPosition_def validHorizontal_def badPosition_def mkPosition_def)
  have e: "preferredPositions (newStrategy ElementOrigin) = [] \<and>
      (overlayRef (newStrategy ElementOrigin) = None \<or>
       overlayRef (newStrategy ElementOrigin) = Some sceneOverlay)"
    by (simp add: newStrategy_def)
  have o: "overlayRef (sceneState [posBelow]) \<noteq> None \<and>
      overlayRef (sceneState [posBelow]) \<noteq> Some otherOverlay"
    by (simp add: sceneState_def otherOverlay_def sceneOverlay_def)
  show ?thesis
    using d n b e o
      configuration_errors_in_dev_mode [of "sceneEnv 30" "[]" "newStrategy ElementOrigin" sceneOverlay]
      configuration_errors_in_dev_mode [of "sceneEnv 30" "[badPosition]" "newStrategy ElementOrigin" sceneOverlay]
      configuration_errors_in_dev_mode [of "sceneEnv 30" "[]" "sceneState [posBelow]" otherOverlay]
      configuration_errors_in_dev_mode [of prodEnv "[]" "newStrategy ElementOrigin" sceneOverlay]
      configuration_errors_in_dev_mode [of prodEnv "[]" "sceneState [posBelow]" otherOverlay]
    by simp
qed

subsection \<open>The flexible fit\<close>

lemma scan_no_fit:
  "\<forall>q \<in> set ps. \<not> isCompletelyWithinViewport (positionFit m env q) \<Longrightarrow>
     \<exists>fb'. scanPositions m env ps ff fb = NoGoodFit (ff @ flexibleFitsOf m env ps) fb'"
proof (induction ps arbitrary: ff fb)
  case Nil
  then show ?case by (simp add: flexibleFitsOf_def)
next
  case (Cons q ps)
  then have n: "\<not> isCompletelyWithinViewport (positionFit m env q)"
    and r: "\<forall>q \<in> set ps. \<not> isCompletelyWithinViewport (positionFit m env q)"
    by simp_all
  show ?case
  proof (cases "fitsFlexibly m env q")
    case True
    with Cons.IH [OF r, of "ff @ [flexibleFitOf m env q]" fb] n show ?thesis
      by (simp add: scanPositions_step flexibleFitsOf_def del: scanPositions.simps)
  next
    case False
    from Cons.IH [OF r, of ff] have "\<exists>fb'. scanPositions m env ps ff x = NoGoodFit (ff @ flexibleFitsOf m env ps) fb'" for x
      by blast
    with False n show ?thesis
      by (simp add: scanPositions_step flexibleFitsOf_def del: scanPositions.simps)
  qed
qed

lemma pickBestFit_le:
  "\<forall>f \<in> set fs. fitScore f \<le> bs \<Longrightarrow> pickBestFit fs best bs = best"
  by (induction fs arbitrary: best bs) (auto simp: Let_def)

lemma pickBestFit_max:
  "\<exists>f \<in> set fs. fitScore f > bs \<Longrightarrow>
     \<exists>i < length fs. pickBestFit fs best bs = Some (fs ! i) \<and> bs < fitScore (fs ! i) \<and>
        (\<forall>j < length fs. fitScore (fs ! j) \<le> fitScore (fs ! i)) \<and>
        (\<forall>j < i. fitScore (fs ! j) < fitScore (fs ! i))"
proof (induction fs arbitrary: best bs)
  case Nil
  then show ?case by simp
next
  case (Cons f fs)
  show ?case
  proof (cases "fitScore f > bs")
    case True
    show ?thesis
    proof (cases "\<exists>g \<in> set fs. fitScore g > fitScore f")
      case g: True
      from Cons.IH [OF g, of "Some f"] obtain i where i: "i < length fs"
        and p: "pickBestFit fs (Some f) (fitScore f) = Some (fs ! i)"
        and b: "fitScore f < fitScore (fs ! i)"
        and m: "\<forall>j < length fs. fitScore (fs ! j) \<le> fitScore (fs ! i)"
        and e: "\<forall>j < i. fitScore (fs ! j) < fitScore (fs ! i)"
        by blast
      have "Suc i < length (f # fs)" using i by simp
      moreover have "pickBestFit (f # fs) best bs = Some ((f # fs) ! Suc i)"
        using True p by (simp add: Let_def)
      moreover have "bs < fitScore ((f # fs) ! Suc i)" using True b by simp
      moreover have "\<forall>j < length (f # fs). fitScore ((f # fs) ! j) \<le> fitScore ((f # fs) ! Suc i)"
        using m b by (auto simp: nth_Cons split: nat.splits)
      moreover have "\<forall>j < Suc i. fitScore ((f # fs) ! j) < fitScore ((f # fs) ! Suc i)"
        using e b by (auto simp: nth_Cons split: nat.splits)
      ultimately show ?thesis by blast
    next
      case False
      then have le: "\<forall>g \<in> set fs. fitScore g \<le> fitScore f" by auto
      have "0 < length (f # fs)" by simp
      moreover have "pickBestFit (f # fs) best bs = Some ((f # fs) ! 0)"
        using True pickBestFit_le [OF le] by (simp add: Let_def)
      moreover have "bs < fitScore ((f # fs) ! 0)" using True by simp
      moreover have "\<forall>j < length (f # fs). fitScore ((f # fs) ! j) \<le> fitScore ((f # fs) ! 0)"
        using le by (auto simp: nth_Cons split: nat.splits)
      ultimately show ?thesis by blast
    qed
  next
    case False
    with Cons.prems have g: "\<exists>g \<in> set fs. fitScore g > bs" by auto
    from Cons.IH [OF g, of best] obtain i where i: "i < length fs"
      and p: "pickBestFit fs best bs = Some (fs ! i)"
      and b: "bs < fitScore (fs ! i)"
      and m: "\<forall>j < length fs. fitScore (fs ! j) \<le> fitScore (fs ! i)"
      and e: "\<forall>j < i. fitScore (fs ! j) < fitScore (fs ! i)"
      by blast
    have "Suc i < length (f # fs)" using i by simp
    moreover have "pickBestFit (f # fs) best bs = Some ((f # fs) ! Suc i)"
      using False p by (simp add: Let_def)
    moreover have "bs < fitScore ((f # fs) ! Suc i)" using b by simp
    moreover have "\<forall>j < length (f # fs). fitScore ((f # fs) ! j) \<le> fitScore ((f # fs) ! Suc i)"
      using m b False by (auto simp: nth_Cons split: nat.splits)
    moreover have "\<forall>j < Suc i. fitScore ((f # fs) ! j) < fitScore ((f # fs) ! Suc i)"
      using e b False by (auto simp: nth_Cons split: nat.splits)
    ultimately show ?thesis by blast
  qed
qed

lemma apply_flexible_form:
  assumes "runsSelection s env"
      and "\<forall>q \<in> set (preferredPositions s).
             \<not> isCompletelyWithinViewport (positionFit (measured s env) env q)"
      and "flexibleFitsOf (measured s env) env (preferredPositions s) \<noteq> []"
  shows "apply' s env =
     (case pickBestFit (flexibleFitsOf (measured s env) env (preferredPositions s)) None (- 1) of
        None \<Rightarrow> Inl (TypeError, (measured s env)\<lparr> isPushed := False \<rparr>)
      | Some bestFit \<Rightarrow>
          Inr (applyPosition ((measured s env)\<lparr> isPushed := False \<rparr>) env
                 (ff_position bestFit) (ff_origin bestFit)))"
proof -
  from scan_no_fit [OF assms(2), of "[]" None] obtain fb' where
    "scanPositions (measured s env) env (preferredPositions s) [] None =
       NoGoodFit (flexibleFitsOf (measured s env) env (preferredPositions s)) fb'"
    by auto
  then show ?thesis
    using assms(3) by (simp add: apply_runsSelection [OF assms(1)])
qed

text \<open>C2, as the code has it. When \<^verbatim>\<open>apply\<close> runs the selection, no position fits
  completely, and some recorded flexible fit has a score above -1, \<^verbatim>\<open>apply\<close> applies the
  flexible fit with the greatest score, the first such in list order, and the overlay is
  not pushed. The score is the width of the bounding box times its height times
  \<^verbatim>\<open>weight || 1\<close>, so that an absent weight and a weight of zero both count as 1.\<close>

theorem apply_selects_best_flexible_fit:
  assumes "runsSelection s env"
      and "\<forall>q \<in> set (preferredPositions s).
             \<not> isCompletelyWithinViewport (positionFit (measured s env) env q)"
      and "flexibleFits = flexibleFitsOf (measured s env) env (preferredPositions s)"
      and "\<exists>f \<in> set flexibleFits. fitScore f > - 1"
  shows "\<exists>s' i. apply' s env = Inr s' \<and> i < length flexibleFits \<and>
           lastPosition s' = Some (ff_position (flexibleFits ! i)) \<and> \<not> isPushed s' \<and>
           (\<forall>j < length flexibleFits. fitScore (flexibleFits ! j) \<le> fitScore (flexibleFits ! i)) \<and>
           (\<forall>j < i. fitScore (flexibleFits ! j) < fitScore (flexibleFits ! i)) \<and>
           fitScore (flexibleFits ! i) =
             bb_width (ff_boundingBoxRect (flexibleFits ! i)) *
             bb_height (ff_boundingBoxRect (flexibleFits ! i)) *
             (case weight (ff_position (flexibleFits ! i)) of
                None \<Rightarrow> 1 | Some w \<Rightarrow> if w = 0 then 1 else w)"
proof -
  from assms(4) have ne: "flexibleFitsOf (measured s env) env (preferredPositions s) \<noteq> []"
    unfolding assms(3) by auto
  from pickBestFit_max [OF assms(4), of None] obtain i where i: "i < length flexibleFits"
    and p: "pickBestFit flexibleFits None (- 1) = Some (flexibleFits ! i)"
    and m: "\<forall>j < length flexibleFits. fitScore (flexibleFits ! j) \<le> fitScore (flexibleFits ! i)"
    and e: "\<forall>j < i. fitScore (flexibleFits ! j) < fitScore (flexibleFits ! i)"
    by blast
  have "apply' s env =
      Inr (applyPosition ((measured s env)\<lparr> isPushed := False \<rparr>) env
             (ff_position (flexibleFits ! i)) (ff_origin (flexibleFits ! i)))"
    using p by (simp add: apply_flexible_form [OF assms(1,2) ne] assms(3))
  then show ?thesis
    using i m e by (auto simp: applyPosition_fields fitScore_def)
qed


lemma flexEnv_fields:
  "isBrowser flexEnv" "clientWidth flexEnv = 100" "clientHeight flexEnv = 100"
  "scrollTop flexEnv = 0" "scrollLeft flexEnv = 0"
  "originElementRect flexEnv = mkRect 10 10 20 20"
  "paneRect flexEnv = mkRect 0 0 95 95" "direction flexEnv = ''ltr''"
  "minWidth flexEnv = Some (CssNumber 10)" "minHeight flexEnv = Some (CssNumber 10)"
  by (simp_all add: flexEnv_def sceneEnv_def)

lemma flex_measured:
  "viewportRect (measured (sceneState ps) flexEnv) = mkRect 0 0 100 100"
  "originRect (measured (sceneState ps) flexEnv) = mkRect 10 10 20 20"
  "overlayRect (measured (sceneState ps) flexEnv) = mkRect 0 0 95 95"
  "defaultOffsetX (measured (sceneState ps) flexEnv) = 0"
  "defaultOffsetY (measured (sceneState ps) flexEnv) = 0"
  "hasFlexibleDimensions (measured (sceneState ps) flexEnv)"
  "viewportMargin (measured (sceneState ps) flexEnv) = 0"
  by (simp_all add: measured_fields getNarrowedViewportRect_def getOriginRect_def sceneState_def
      flexEnv_fields newStrategy_def mkRect_def)

lemma flex_runsSelection: "runsSelection (sceneState ps) flexEnv"
  by (simp add: runsSelection_def sceneState_def flexEnv_fields newStrategy_def attached_def)

lemmas flex_defs = fitsFlexibly_def canFitWithFlexibleDimensions_def flexibleFitOf_def
  calculateBoundingBoxRect_def boundingBoxVertical_def boundingBoxHorizontal_def

lemma flex_posBelow:
  "\<not> isCompletelyWithinViewport (positionFit (measured (sceneState ps) flexEnv) flexEnv posBelow)"
  "fitsFlexibly (measured (sceneState ps) flexEnv) flexEnv posBelow"
  "fitScore (flexibleFitOf (measured (sceneState ps) flexEnv) flexEnv posBelow) = 4900"
  "specScore (flexibleFitOf (measured (sceneState ps) flexEnv) flexEnv posBelow) = 4900"
  "ff_position (flexibleFitOf (measured (sceneState ps) flexEnv) flexEnv posBelow) = posBelow"
  by (simp_all add: fit_defs flex_defs fitScore_def specScore_def Let_def flex_measured
      posBelow_def mkPosition_def mkRect_def flexEnv_fields)

lemma flex_zeroWeight:
  "\<not> isCompletelyWithinViewport (positionFit (measured (sceneState ps) flexEnv) flexEnv zeroWeight)"
  "fitsFlexibly (measured (sceneState ps) flexEnv) flexEnv zeroWeight"
  "fitScore (flexibleFitOf (measured (sceneState ps) flexEnv) flexEnv zeroWeight) = 8100"
  "specScore (flexibleFitOf (measured (sceneState ps) flexEnv) flexEnv zeroWeight) = 0"
  "ff_position (flexibleFitOf (measured (sceneState ps) flexEnv) flexEnv zeroWeight) = zeroWeight"
  by (simp_all add: fit_defs flex_defs fitScore_def specScore_def Let_def flex_measured
      zeroWeight_def mkPosition_def mkRect_def flexEnv_fields)

lemma scene_positions: "preferredPositions (sceneState ps) = ps"
  by (simp add: sceneState_def)

lemma flex_fits:
  "flexibleFitsOf (measured (sceneState [posBelow, zeroWeight]) flexEnv) flexEnv
     (preferredPositions (sceneState [posBelow, zeroWeight])) =
   [flexibleFitOf (measured (sceneState [posBelow, zeroWeight]) flexEnv) flexEnv posBelow,
    flexibleFitOf (measured (sceneState [posBelow, zeroWeight]) flexEnv) flexEnv zeroWeight]"
  by (simp add: flexibleFitsOf_def flex_posBelow flex_zeroWeight scene_positions)

lemma flex_nofit:
  "\<forall>q \<in> set (preferredPositions (sceneState [posBelow, zeroWeight])).
     \<not> isCompletelyWithinViewport
         (positionFit (measured (sceneState [posBelow, zeroWeight]) flexEnv) flexEnv q)"
  by (simp add: scene_positions flex_posBelow flex_zeroWeight)

text \<open>C2 as stated fails: the position with the explicit weight of zero is scored as if its
  weight were 1 and wins with 8100 against 4900, where the stated score
  (\<^verbatim>\<open>weight ?? 1\<close>) gives it zero and the other position 4900.\<close>

theorem zero_weight_counts_as_one:
  "lastPosition (resultState (apply' (sceneState [posBelow, zeroWeight]) flexEnv)) = Some zeroWeight \<and>
   specScore (flexibleFitOf (measured (sceneState [posBelow, zeroWeight]) flexEnv) flexEnv zeroWeight) = 0 \<and>
   specScore (flexibleFitOf (measured (sceneState [posBelow, zeroWeight]) flexEnv) flexEnv posBelow) = 4900 \<and>
   fitScore (flexibleFitOf (measured (sceneState [posBelow, zeroWeight]) flexEnv) flexEnv zeroWeight) = 8100"
proof -
  have ne: "flexibleFitsOf (measured (sceneState [posBelow, zeroWeight]) flexEnv) flexEnv
     (preferredPositions (sceneState [posBelow, zeroWeight])) \<noteq> []"
    by (simp add: flex_fits)
  show ?thesis
    by (simp add: apply_flexible_form [OF flex_runsSelection flex_nofit ne] flex_fits
        flex_posBelow flex_zeroWeight applyPosition_fields Let_def)
qed

text \<open>Witness for C2 in that scene: both positions are flexible fits, and the second, with
  the greater score, is applied.\<close>

theorem apply_selects_best_flexible_fit_witness:
  "runsSelection (sceneState [posBelow, zeroWeight]) flexEnv \<and>
   \<not> isCompletelyWithinViewport
       (positionFit (measured (sceneState [posBelow, zeroWeight]) flexEnv) flexEnv posBelow) \<and>
   \<not> isCompletelyWithinViewport
       (positionFit (measured (sceneState [posBelow, zeroWeight]) flexEnv) flexEnv zeroWeight) \<and>
   fitScore (flexibleFitOf (measured (sceneState [posBelow, zeroWeight]) flexEnv) flexEnv posBelow) = 4900 \<and>
   fitScore (flexibleFitOf (measured (sceneState [posBelow, zeroWeight]) flexEnv) flexEnv zeroWeight) = 8100 \<and>
   (\<exists>s'. apply' (sceneState [posBelow, zeroWeight]) flexEnv = Inr s' \<and>
         lastPosition s' = Some zeroWeight \<and> \<not> isPushed s')"
proof -
  let ?m = "measured (sceneState [posBelow, zeroWeight]) flexEnv"
  let ?fs = "[flexibleFitOf ?m flexEnv posBelow, flexibleFitOf ?m flexEnv zeroWeight]"
  have f: "?fs = flexibleFitsOf ?m flexEnv (preferredPositions (sceneState [posBelow, zeroWeight]))"
    by (simp add: flex_fits)
  have b: "\<exists>f \<in> set ?fs. fitScore f > - 1"
    by (simp add: flex_posBelow)
  from apply_selects_best_flexible_fit [OF flex_runsSelection flex_nofit f b]
  obtain s' i where a: "apply' (sceneState [posBelow, zeroWeight]) flexEnv = Inr s'"
    and i: "i < length ?fs"
    and l: "lastPosition s' = Some (ff_position (?fs ! i))" and p: "\<not> isPushed s'"
    and m: "\<forall>j < length ?fs. fitScore (?fs ! j) \<le> fitScore (?fs ! i)"
    by blast
  have "(1::nat) < length ?fs" by simp
  with m have "fitScore (?fs ! 1) \<le> fitScore (?fs ! i)" by blast
  with i have "i = 1"
    by (cases i) (simp_all add: flex_posBelow flex_zeroWeight)
  with a l p show ?thesis
    by (simp add: flex_runsSelection flex_posBelow flex_zeroWeight)
qed

subsection \<open>A reachable state\<close>

lemma scene_reachable: "reachable (sceneState [posAbove, posBelow, posAbove])"
proof -
  let ?ps = "[posAbove, posBelow, posAbove]"
  let ?s1 = "(newStrategy ElementOrigin)\<lparr> preferredPositions := ?ps \<rparr>"
  have v: "validatePositions ?s1 (sceneEnv 30) = None"
    by (simp add: validatePositions_def devMode_def sceneEnv_fields validatePair_def
        validateHorizontalPosition_def validateVerticalPosition_def posAbove_def posBelow_def
        mkPosition_def)
  have w: "resultState (withPositions (newStrategy ElementOrigin) (sceneEnv 30) ?ps) = ?s1"
    using v by (simp add: withPositions_def Let_def newStrategy_def)
  have a: "resultState (attach ?s1 (sceneEnv 30) sceneOverlay) = sceneState ?ps"
    using v by (simp add: attach_def sceneState_def newStrategy_def sceneOverlay_def)
  have "reachable ?s1"
    using r_withPositions [OF r_new, of ElementOrigin "sceneEnv 30" ?ps] by (simp only: w)
  from r_attach [OF this, of "sceneEnv 30" sceneOverlay] show ?thesis
    by (simp only: a)
qed

lemma scene_first_apply:
  "apply' (sceneState [posAbove, posBelow, posAbove]) (sceneEnv 30) =
     Inr (applyPosition ((measured (sceneState [posAbove, posBelow, posAbove]) (sceneEnv 30))
            \<lparr> isPushed := False \<rparr>) (sceneEnv 30) posBelow
            (positionOrigin (measured (sceneState [posAbove, posBelow, posAbove]) (sceneEnv 30))
               (sceneEnv 30) posBelow))"
proof -
  have n: "\<forall>q \<in> set [posAbove]. \<not> isCompletelyWithinViewport
       (positionFit (measured (sceneState [posAbove, posBelow, posAbove]) (sceneEnv 30)) (sceneEnv 30) q)"
    by (simp add: scene_fit_above)
  have "scanPositions (measured (sceneState [posAbove, posBelow, posAbove]) (sceneEnv 30)) (sceneEnv 30)
      ([posAbove] @ posBelow # [posAbove]) [] None =
      GoodFit posBelow (positionOrigin (measured (sceneState [posAbove, posBelow, posAbove]) (sceneEnv 30))
               (sceneEnv 30) posBelow)"
    by (rule scan_first_fit [OF n scene_fit_below])
  then show ?thesis
    by (simp add: apply_runsSelection [OF scene_runsSelection] scene_positions
        del: scanPositions.simps)
qed

text \<open>Witness for C10: the strategy of the scene after its first \<^verbatim>\<open>apply\<close> is reachable, and
  its last position, \<open>posBelow\<close>, is in its list.\<close>

theorem lastPosition_always_listed_witness:
  "reachable (resultState (apply' (sceneState [posAbove, posBelow, posAbove]) (sceneEnv 30))) \<and>
   lastPosition (resultState (apply' (sceneState [posAbove, posBelow, posAbove]) (sceneEnv 30))) =
     Some posBelow \<and>
   preferredPositions (resultState (apply' (sceneState [posAbove, posBelow, posAbove]) (sceneEnv 30))) =
     [posAbove, posBelow, posAbove] \<and>
   lastPositionListed (resultState (apply' (sceneState [posAbove, posBelow, posAbove]) (sceneEnv 30)))"
proof -
  have r: "reachable (resultState (apply' (sceneState [posAbove, posBelow, posAbove]) (sceneEnv 30)))"
    by (rule r_apply [OF scene_reachable])
  have l: "lastPosition (resultState (apply' (sceneState [posAbove, posBelow, posAbove]) (sceneEnv 30))) =
     Some posBelow"
    "preferredPositions (resultState (apply' (sceneState [posAbove, posBelow, posAbove]) (sceneEnv 30))) =
     [posAbove, posBelow, posAbove]"
    by (simp_all add: scene_first_apply applyPosition_fields measured_fields scene_positions)
  from lastPosition_always_listed [OF r] r l show ?thesis by simp
qed

subsection \<open>Reapplying under the lock\<close>




lemma elementStyle_writeStyles:
  "elementStyle (writeStyles s el st) = withStyles (elementStyle s) el st"
  by (simp add: writeStyles_def withStyles_def)

lemma computePush_cong:
  assumes "viewportRect t = viewportRect s" and "viewportMargin t = viewportMargin s"
  shows "computePush t start r sp = computePush s start r sp"
  unfolding computePush_def assms by (rule refl)

lemma push_reuse:
  "positionLocked s \<Longrightarrow> previousPushAmount s = Some d \<Longrightarrow>
     pushOverlayOnScreen s start r sp =
       (\<lparr> pt_x = pt_x start + pt_x d, pt_y = pt_y start + pt_y d \<rparr>, s)"
  by (simp add: pushOverlayOnScreen_def)

lemma push_compute:
  "\<not> (positionLocked s \<and> previousPushAmount s \<noteq> None) \<Longrightarrow>
     pushOverlayOnScreen s start r sp =
       (\<lparr> pt_x = pt_x start + pt_x (computePush s start r sp),
          pt_y = pt_y start + pt_y (computePush s start r sp) \<rparr>,
        s\<lparr> previousPushAmount := Some (computePush s start r sp) \<rparr>)"
  by (cases "previousPushAmount s") (simp_all add: pushOverlayOnScreen_def Let_def)

lemma push_cong:
  assumes "viewportRect t = viewportRect s" "viewportMargin t = viewportMargin s"
    "positionLocked t = positionLocked s" "previousPushAmount t = previousPushAmount s"
  shows "fst (pushOverlayOnScreen t start r sp) = fst (pushOverlayOnScreen s start r sp) \<and>
         previousPushAmount (snd (pushOverlayOnScreen t start r sp)) =
         previousPushAmount (snd (pushOverlayOnScreen s start r sp))"
proof (cases "positionLocked s \<and> previousPushAmount s \<noteq> None")
  case True
  then obtain d where d: "previousPushAmount s = Some d" by auto
  with True assms show ?thesis by (simp add: push_reuse)
next
  case False
  with assms have "\<not> (positionLocked t \<and> previousPushAmount t \<noteq> None)" by simp
  with False show ?thesis
    by (simp add: push_compute computePush_cong [OF assms(1,2)])
qed



lemma push_kept:
  "overlayRect (snd (pushOverlayOnScreen s start r sp)) = overlayRect s"
  "isPushed (snd (pushOverlayOnScreen s start r sp)) = isPushed s"
  "viewportRect (snd (pushOverlayOnScreen s start r sp)) = viewportRect s"
  "viewportMargin (snd (pushOverlayOnScreen s start r sp)) = viewportMargin s"
  "positionLocked (snd (pushOverlayOnScreen s start r sp)) = positionLocked s"
  "defaultOffsetX (snd (pushOverlayOnScreen s start r sp)) = defaultOffsetX s"
  "defaultOffsetY (snd (pushOverlayOnScreen s start r sp)) = defaultOffsetY s"
  "hasFlexibleDimensions (snd (pushOverlayOnScreen s start r sp)) = hasFlexibleDimensions s"
proof -
  obtain pt a where "pushOverlayOnScreen s start r sp = (pt, s\<lparr> previousPushAmount := a \<rparr>)"
    using pushOverlayOnScreen_shape by blast
  then show
    "overlayRect (snd (pushOverlayOnScreen s start r sp)) = overlayRect s"
    "isPushed (snd (pushOverlayOnScreen s start r sp)) = isPushed s"
    "viewportRect (snd (pushOverlayOnScreen s start r sp)) = viewportRect s"
    "viewportMargin (snd (pushOverlayOnScreen s start r sp)) = viewportMargin s"
    "positionLocked (snd (pushOverlayOnScreen s start r sp)) = positionLocked s"
    "defaultOffsetX (snd (pushOverlayOnScreen s start r sp)) = defaultOffsetX s"
    "defaultOffsetY (snd (pushOverlayOnScreen s start r sp)) = defaultOffsetY s"
    "hasFlexibleDimensions (snd (pushOverlayOnScreen s start r sp)) = hasFlexibleDimensions s"
    by simp_all
qed

text \<open>The state after the push of one call, or the state itself when the overlay is not
  pushed.\<close>

lemma exactY_snd:
  "snd (getExactOverlayY s env p o' sp) =
     (if isPushed s
      then snd (pushOverlayOnScreen s (getOverlayPoint env o' (overlayRect s) p) (overlayRect s) sp)
      else s)"
  by (simp add: getExactOverlayY_def Let_def case_prod_beta)

lemma exactX_snd:
  "snd (getExactOverlayX s env p o' sp) =
     (if isPushed s
      then snd (pushOverlayOnScreen s (getOverlayPoint env o' (overlayRect s) p) (overlayRect s) sp)
      else s)"
  by (simp add: getExactOverlayX_def Let_def case_prod_beta)

lemma exactY_cong:
  assumes "overlayRect t = overlayRect s" and "isPushed t = isPushed s"
      and "isPushed s \<Longrightarrow>
           fst (pushOverlayOnScreen t (getOverlayPoint env o' (overlayRect s) p) (overlayRect s) sp) =
           fst (pushOverlayOnScreen s (getOverlayPoint env o' (overlayRect s) p) (overlayRect s) sp)"
  shows "fst (getExactOverlayY t env p o' sp) = fst (getExactOverlayY s env p o' sp)"
proof (cases "isPushed s")
  case True
  with assms show ?thesis
    by (simp add: getExactOverlayY_def Let_def case_prod_beta push_kept)
next
  case False
  with assms show ?thesis
    by (simp add: getExactOverlayY_def Let_def case_prod_beta)
qed

lemma exactX_cong:
  assumes "overlayRect t = overlayRect s" and "isPushed t = isPushed s"
      and "isPushed s \<Longrightarrow>
           fst (pushOverlayOnScreen t (getOverlayPoint env o' (overlayRect s) p) (overlayRect s) sp) =
           fst (pushOverlayOnScreen s (getOverlayPoint env o' (overlayRect s) p) (overlayRect s) sp)"
  shows "fst (getExactOverlayX t env p o' sp) = fst (getExactOverlayX s env p o' sp)"
proof (cases "isPushed s")
  case True
  with assms show ?thesis
    by (simp add: getExactOverlayX_def Let_def case_prod_beta push_kept)
next
  case False
  with assms show ?thesis
    by (simp add: getExactOverlayX_def Let_def case_prod_beta)
qed


lemma getOffset_cong:
  "defaultOffsetX t = defaultOffsetX s \<Longrightarrow> defaultOffsetY t = defaultOffsetY s \<Longrightarrow>
     getOffset t p a = getOffset s p a"
  by (cases a) (simp_all split: option.splits)





lemma overlayElementStyles_agree:
  assumes "sameForOverlayStyles t s"
  shows "fst (overlayElementStyles t env o' p) = fst (overlayElementStyles s env o' p) \<and>
         previousPushAmount (snd (overlayElementStyles t env o' p)) =
         previousPushAmount (snd (overlayElementStyles s env o' p))"
proof -
  let ?sp = "\<lparr> sp_top = scrollTop env, sp_left = scrollLeft env \<rparr>"
  let ?start = "getOverlayPoint env o' (overlayRect s) p"
  from assms have a: "isPushed t = isPushed s" "hasFlexibleDimensions t = hasFlexibleDimensions s"
    "overlayRect t = overlayRect s" "defaultOffsetX t = defaultOffsetX s"
    "defaultOffsetY t = defaultOffsetY s" "viewportRect t = viewportRect s"
    "viewportMargin t = viewportMargin s" "positionLocked t = positionLocked s"
    "previousPushAmount t = previousPushAmount s"
    by (simp_all add: sameForOverlayStyles_def)
  have pc: "fst (pushOverlayOnScreen t ?start (overlayRect s) ?sp) =
        fst (pushOverlayOnScreen s ?start (overlayRect s) ?sp) \<and>
      previousPushAmount (snd (pushOverlayOnScreen t ?start (overlayRect s) ?sp)) =
        previousPushAmount (snd (pushOverlayOnScreen s ?start (overlayRect s) ?sp))"
    by (rule push_cong [OF a(6,7,8,9)])
  let ?ut = "snd (getExactOverlayY t env p o' ?sp)" and ?us = "snd (getExactOverlayY s env p o' ?sp)"
  have y: "fst (getExactOverlayY t env p o' ?sp) = fst (getExactOverlayY s env p o' ?sp)"
    using pc by (intro exactY_cong a) simp
  have uu: "overlayRect ?ut = overlayRect ?us" "isPushed ?ut = isPushed ?us"
    "viewportRect ?ut = viewportRect ?us" "viewportMargin ?ut = viewportMargin ?us"
    "positionLocked ?ut = positionLocked ?us" "previousPushAmount ?ut = previousPushAmount ?us"
    "overlayRect ?us = overlayRect s" "isPushed ?us = isPushed s"
    using a pc by (simp_all add: exactY_snd push_kept)
  have pc2: "fst (pushOverlayOnScreen ?ut ?start (overlayRect s) ?sp) =
        fst (pushOverlayOnScreen ?us ?start (overlayRect s) ?sp) \<and>
      previousPushAmount (snd (pushOverlayOnScreen ?ut ?start (overlayRect s) ?sp)) =
        previousPushAmount (snd (pushOverlayOnScreen ?us ?start (overlayRect s) ?sp))"
    by (rule push_cong [OF uu(3,4,5,6)])
  have x: "fst (getExactOverlayX ?ut env p o' ?sp) = fst (getExactOverlayX ?us env p o' ?sp)"
    using pc2 uu by (intro exactX_cong) simp_all
  have xp: "previousPushAmount (snd (getExactOverlayX ?ut env p o' ?sp)) =
      previousPushAmount (snd (getExactOverlayX ?us env p o' ?sp))"
    using pc2 uu by (simp add: exactX_snd)
  have o1: "getOffset (snd (getExactOverlayX ?ut env p o' ?sp)) p ax = getOffset s p ax" for ax
    by (rule getOffset_cong) (simp_all add: exactX_snd exactY_snd push_kept a)
  have o2: "getOffset (snd (getExactOverlayX ?us env p o' ?sp)) p ax = getOffset s p ax" for ax
    by (rule getOffset_cong) (simp_all add: exactX_snd exactY_snd push_kept)
  have o3: "getOffset t p ax = getOffset s p ax" for ax
    by (rule getOffset_cong) (simp_all add: a)
  have ex: "hasExactPosition t = hasExactPosition s"
    using a by (simp add: hasExactPosition_def)
  show ?thesis
  proof (cases "hasExactPosition s")
    case True
    with ex show ?thesis
      by (simp add: overlayElementStyles_def Let_def case_prod_beta y x xp o1 o2 a
          del: getOffset.simps)
  next
    case False
    with ex show ?thesis
      by (simp add: overlayElementStyles_def Let_def case_prod_beta o3 a del: getOffset.simps)
  qed
qed








lemma boundingBoxStyles_cong:
  "hasExactPosition t = hasExactPosition s \<Longrightarrow>
     boundingBoxStyles t env c p = boundingBoxStyles s env c p"
  by (simp add: boundingBoxStyles_def)

lemma more_kept:
  "elementStyle (setTransformOrigin s env p) = elementStyle s"
  "previousPushAmount (setTransformOrigin s env p) = previousPushAmount s"
  "previousPushAmount (setBoundingBoxStyles s env o' p) = previousPushAmount s"
  "elementStyle (addPanelClasses s cs) = elementStyle s"
  "previousPushAmount (addPanelClasses s cs) = previousPushAmount s"
proof -
  show "elementStyle (setTransformOrigin s env p) = elementStyle s"
    "previousPushAmount (setTransformOrigin s env p) = previousPushAmount s"
    by (simp_all add: setTransformOrigin_def Let_def)
  show "previousPushAmount (setBoundingBoxStyles s env o' p) = previousPushAmount s"
    by (simp add: setBoundingBoxStyles_def Let_def writeStyles_def)
  obtain a b where "addPanelClasses s cs = s\<lparr> appliedPanelClasses := a, classList := b \<rparr>"
    using addPanelClasses_shape by blast
  then show "elementStyle (addPanelClasses s cs) = elementStyle s"
    "previousPushAmount (addPanelClasses s cs) = previousPushAmount s"
    by simp_all
qed

lemma hasExactPosition_cong:
  "isPushed t = isPushed s \<Longrightarrow> hasFlexibleDimensions t = hasFlexibleDimensions s \<Longrightarrow>
     hasExactPosition t = hasExactPosition s"
  by (simp add: hasExactPosition_def)

lemma setOverlayElementStyles_output:
  "elementStyle (setOverlayElementStyles s env o' p) =
     withStyles (elementStyle s) (paneEl s) (fst (overlayElementStyles s env o' p))"
  "previousPushAmount (setOverlayElementStyles s env o' p) =
     previousPushAmount (snd (overlayElementStyles s env o' p))"
proof -
  obtain st a where e: "overlayElementStyles s env o' p = (st, s\<lparr> previousPushAmount := a \<rparr>)"
    using overlayElementStyles_shape by blast
  show "elementStyle (setOverlayElementStyles s env o' p) =
     withStyles (elementStyle s) (paneEl s) (fst (overlayElementStyles s env o' p))"
    by (simp add: setOverlayElementStyles_def e writeStyles_def withStyles_def paneEl_def)
  show "previousPushAmount (setOverlayElementStyles s env o' p) =
     previousPushAmount (snd (overlayElementStyles s env o' p))"
    by (simp add: setOverlayElementStyles_def e writeStyles_def)
qed

lemma setBoundingBoxStyles_output:
  "elementStyle (setBoundingBoxStyles s env o' p) =
     withStyles (elementStyle s) (boundingBoxEl s)
       (boundingBoxStyles s env (cappedBoundingBoxRect s env o' p) p)"
  by (simp add: setBoundingBoxStyles_def Let_def writeStyles_def withStyles_def boundingBoxEl_def)

lemma applyPosition_output:
  "elementStyle (applyPosition m env p o') =
     withStyles (withStyles (elementStyle m) (paneEl m) (fst (overlayElementStyles m env o' p)))
       (boundingBoxEl m) (boundingBoxStyles m env (cappedBoundingBoxRect m env o' p) p)"
  "previousPushAmount (applyPosition m env p o') =
     previousPushAmount (snd (overlayElementStyles m env o' p))"
proof -
  let ?s1 = "setTransformOrigin m env p"
  let ?s2 = "setOverlayElementStyles ?s1 env o' p"
  have same: "sameForOverlayStyles ?s1 m"
    by (simp add: sameForOverlayStyles_def setTransformOrigin_fields more_kept)
  note ag = overlayElementStyles_agree [OF same, of env o' p]
  have el: "paneEl ?s1 = paneEl m" "boundingBoxEl ?s2 = boundingBoxEl m"
    by (simp_all add: paneEl_def boundingBoxEl_def setTransformOrigin_fields
        setOverlayElementStyles_fields)
  have c: "cappedBoundingBoxRect ?s2 env o' p = cappedBoundingBoxRect m env o' p"
    by (rule capped_cong)
       (simp_all add: setOverlayElementStyles_fields setTransformOrigin_fields lastBoundingBoxSize_kept)
  have b: "boundingBoxStyles ?s2 env c' p = boundingBoxStyles m env c' p" for c'
    by (intro boundingBoxStyles_cong hasExactPosition_cong)
       (simp_all add: setOverlayElementStyles_fields setTransformOrigin_fields)
  show "elementStyle (applyPosition m env p o') =
     withStyles (withStyles (elementStyle m) (paneEl m) (fst (overlayElementStyles m env o' p)))
       (boundingBoxEl m) (boundingBoxStyles m env (cappedBoundingBoxRect m env o' p) p)"
    by (simp add: applyPosition_def Let_def more_kept setBoundingBoxStyles_output
        setOverlayElementStyles_output ag el c b)
  show "previousPushAmount (applyPosition m env p o') =
     previousPushAmount (snd (overlayElementStyles m env o' p))"
    by (simp add: applyPosition_def Let_def more_kept setOverlayElementStyles_output ag)
qed









subsection \<open>Growth of the bounding box\<close>

lemma opened_form:
  "apply' (sceneState [posBelow]) (sceneEnv 30) =
     Inr (applyPosition ((measured (sceneState [posBelow]) (sceneEnv 30))\<lparr> isPushed := False \<rparr>)
            (sceneEnv 30) posBelow
            (positionOrigin (measured (sceneState [posBelow]) (sceneEnv 30)) (sceneEnv 30) posBelow))"
proof -
  have "scanPositions (measured (sceneState [posBelow]) (sceneEnv 30)) (sceneEnv 30)
      ([] @ posBelow # []) [] None =
      GoodFit posBelow (positionOrigin (measured (sceneState [posBelow]) (sceneEnv 30))
               (sceneEnv 30) posBelow)"
    by (rule scan_first_fit [OF _ scene_fit_below]) simp
  then show ?thesis
    by (simp add: apply_runsSelection [OF scene_runsSelection] scene_positions
        del: scanPositions.simps)
qed

lemma scene_origin_below:
  "positionOrigin (measured (sceneState ps) (sceneEnv n)) (sceneEnv n) posBelow =
     \<lparr> pt_x = 30, pt_y = 30 \<rparr>"
  by (simp add: positionOrigin_def getOriginPoint_def scene_measured posBelow_def mkPosition_def
      mkRect_def isRtl_def sceneEnv_fields)

lemma opened_eq:
  "openedFlexible =
     applyPosition ((measured (sceneState [posBelow]) (sceneEnv 30))\<lparr> isPushed := False \<rparr>)
       (sceneEnv 30) posBelow \<lparr> pt_x = 30, pt_y = 30 \<rparr>"
  by (simp add: openedFlexible_def opened_form scene_origin_below)

lemma measured_more:
  "isDisposed (measured s env) = isDisposed s"
  "origin (measured s env) = origin s"
  by (simp_all add: measured_def measureRects_def Let_def resetBoundingBoxStyles_def
      resetOverlayElementStyles_def writeStyles_def clearPanelClasses_def)

lemma scene_measured_more:
  "isInitialRender (measured (sceneState ps) env)"
  "\<not> growAfterOpen (measured (sceneState ps) env)"
  "hasFlexibleDimensions (measured (sceneState ps) env)"
  "viewportMargin (measured (sceneState ps) env) = 0"
  "boundingBox (measured (sceneState ps) env) = Some 10"
  "pane (measured (sceneState ps) env) = Some 11"
  by (simp_all add: measured_fields sceneState_def newStrategy_def)

lemma opened_fields:
  "\<not> isDisposed openedFlexible" "attached openedFlexible" "\<not> isInitialRender openedFlexible"
  "\<not> growAfterOpen openedFlexible" "\<not> positionLocked openedFlexible" "canPush openedFlexible"
  "hasFlexibleDimensions openedFlexible" "preferredPositions openedFlexible = [posBelow]"
  "boundingBox openedFlexible = Some 10" "origin openedFlexible = ElementOrigin"
  "viewportMargin openedFlexible = 0" "defaultOffsetX openedFlexible = 0"
  "defaultOffsetY openedFlexible = 0" "\<not> isPushed openedFlexible"
  by (simp_all add: opened_eq applyPosition_fields measured_fields
      measured_more attached_def)
     (simp_all add: sceneState_def newStrategy_def)

lemma opened_size:
  "bb_height (lastBoundingBoxSize openedFlexible) = 70"
  "bb_width (lastBoundingBoxSize openedFlexible) = 70"
  by (simp_all add: opened_eq applyPosition_size
      cappedBoundingBoxRect_def calculateBoundingBoxRect_def boundingBoxVertical_def
      boundingBoxHorizontal_def Let_def isRtl_def sceneEnv_fields scene_measured
      scene_measured_more posBelow_def mkPosition_def mkRect_def)

lemma opened_style:
  "elementStyle openedFlexible 10 ''height'' = Some (Px 70)"
  "elementStyle openedFlexible 10 ''width'' = Some (Px 70)"
  by (simp_all add: opened_eq applyPosition_output
      withStyles_def extendStyles_def boundingBoxEl_def paneEl_def boundingBoxStyles_def
      hasExactPosition_def coerceCssPixelValue_def
      cappedBoundingBoxRect_def calculateBoundingBoxRect_def boundingBoxVertical_def
      boundingBoxHorizontal_def Let_def isRtl_def sceneEnv_fields scene_measured
      scene_measured_more posBelow_def mkPosition_def mkRect_def)


lemma opened_measured:
  assumes "clientWidth env = 100" "clientHeight env = 100" "scrollTop env = 0" "scrollLeft env = 0"
  shows "viewportRect (measured openedFlexible env) = mkRect 0 0 100 100"
    "originRect (measured openedFlexible env) = originElementRect env"
    "overlayRect (measured openedFlexible env) = paneRect env"
    "defaultOffsetX (measured openedFlexible env) = 0"
    "defaultOffsetY (measured openedFlexible env) = 0"
    "hasFlexibleDimensions (measured openedFlexible env)"
    "viewportMargin (measured openedFlexible env) = 0"
    "\<not> isInitialRender (measured openedFlexible env)"
    "\<not> growAfterOpen (measured openedFlexible env)"
    "boundingBox (measured openedFlexible env) = Some 10"
    "lastBoundingBoxSize (measured openedFlexible env) = lastBoundingBoxSize openedFlexible"
  using assms
  by (simp_all add: measured_fields opened_fields getNarrowedViewportRect_def getOriginRect_def
      mkRect_def)

lemma opened_runsSelection:
  "isBrowser env \<Longrightarrow> runsSelection openedFlexible env"
  by (simp add: runsSelection_def opened_fields)

lemma opened_then_pushed:
  "apply' openedFlexible (sceneEnv 95) =
     Inr (applyPosition ((measured openedFlexible (sceneEnv 95))\<lparr> isPushed := True \<rparr>)
            (sceneEnv 95) posBelow \<lparr> pt_x = 30, pt_y = 30 \<rparr>)"
proof -
  let ?m = "measured openedFlexible (sceneEnv 95)"
  note m = opened_measured [OF sceneEnv_fields(3) sceneEnv_fields(4) sceneEnv_fields(5) sceneEnv_fields(6),
      of 95]
  have o: "positionOrigin ?m (sceneEnv 95) posBelow = \<lparr> pt_x = 30, pt_y = 30 \<rparr>"
    by (simp add: positionOrigin_def getOriginPoint_def m posBelow_def mkPosition_def
        mkRect_def isRtl_def sceneEnv_fields)
  have n: "\<not> isCompletelyWithinViewport (positionFit ?m (sceneEnv 95) posBelow)"
    by (simp add: fit_defs m posBelow_def mkPosition_def mkRect_def sceneEnv_fields)
  have f: "\<not> fitsFlexibly ?m (sceneEnv 95) posBelow"
    by (simp add: fit_defs flex_defs Let_def m posBelow_def mkPosition_def mkRect_def
        sceneEnv_fields)
  have "scanPositions ?m (sceneEnv 95) [posBelow] [] None =
      NoGoodFit []
        (Some \<lparr> fb_position = posBelow, fb_originPoint = positionOrigin ?m (sceneEnv 95) posBelow,
                fb_overlayPoint = positionOverlayPoint ?m (sceneEnv 95) posBelow,
                fb_overlayFit = positionFit ?m (sceneEnv 95) posBelow,
                fb_overlayRect = overlayRect ?m \<rparr>)"
    by (simp only: scanPositions_step n f if_False option.case if_True scanPositions.simps(1))
  then show ?thesis
    by (simp add: apply_runsSelection [OF opened_runsSelection] sceneEnv_fields opened_fields o
        del: scanPositions.simps)
qed

lemma applyPosition_box_style:
  "elementStyle (applyPosition m env p o') (boundingBoxEl m) ''height'' =
     Some (if hasExactPosition m then Text ''100%''
           else Px (bb_height (cappedBoundingBoxRect m env o' p)))"
  "elementStyle (applyPosition m env p o') (boundingBoxEl m) ''width'' =
     Some (if hasExactPosition m then Text ''100%''
           else Px (bb_width (cappedBoundingBoxRect m env o' p)))"
  by (simp_all add: applyPosition_output withStyles_def extendStyles_def boundingBoxStyles_def
      coerceCssPixelValue_def Let_def)


lemma nearEnv_fields:
  "isBrowser nearEnv" "clientWidth nearEnv = 100" "clientHeight nearEnv = 100"
  "scrollTop nearEnv = 0" "scrollLeft nearEnv = 0"
  "originElementRect nearEnv = mkRect 0 0 20 20"
  "paneRect nearEnv = mkRect 0 0 30 30" "direction nearEnv = ''ltr''"
  "minWidth nearEnv = None" "minHeight nearEnv = None"
  "maxWidth nearEnv = None" "maxHeight nearEnv = None"
  by (simp_all add: nearEnv_def sceneEnv_def)

lemma opened_then_near:
  "apply' openedFlexible nearEnv =
     Inr (applyPosition ((measured openedFlexible nearEnv)\<lparr> isPushed := False \<rparr>)
            nearEnv posBelow \<lparr> pt_x = 20, pt_y = 20 \<rparr>)"
proof -
  let ?m = "measured openedFlexible nearEnv"
  note m = opened_measured [OF nearEnv_fields(2) nearEnv_fields(3) nearEnv_fields(4) nearEnv_fields(5)]
  have o: "positionOrigin ?m nearEnv posBelow = \<lparr> pt_x = 20, pt_y = 20 \<rparr>"
    by (simp add: positionOrigin_def getOriginPoint_def m posBelow_def mkPosition_def
        mkRect_def isRtl_def nearEnv_fields)
  have n: "isCompletelyWithinViewport (positionFit ?m nearEnv posBelow)"
    by (simp add: fit_defs m posBelow_def mkPosition_def mkRect_def nearEnv_fields)
  have "scanPositions ?m nearEnv ([] @ posBelow # []) [] None =
      GoodFit posBelow (positionOrigin ?m nearEnv posBelow)"
    by (rule scan_first_fit [OF _ n]) simp
  then show ?thesis
    by (simp add: apply_runsSelection [OF opened_runsSelection] nearEnv_fields opened_fields o
        del: scanPositions.simps)
qed

lemma near_calculated:
  "bb_height (calculateBoundingBoxRect ((measured openedFlexible nearEnv)\<lparr> isPushed := False \<rparr>)
      nearEnv \<lparr> pt_x = 20, pt_y = 20 \<rparr> posBelow) = 80"
  "bb_width (calculateBoundingBoxRect ((measured openedFlexible nearEnv)\<lparr> isPushed := False \<rparr>)
      nearEnv \<lparr> pt_x = 20, pt_y = 20 \<rparr> posBelow) = 80"
  by (simp_all add: calculateBoundingBoxRect_def boundingBoxVertical_def boundingBoxHorizontal_def
      Let_def isRtl_def nearEnv_fields posBelow_def mkPosition_def mkRect_def
      opened_measured [OF nearEnv_fields(2) nearEnv_fields(3) nearEnv_fields(4) nearEnv_fields(5)])

text \<open>C8 as stated fails. The strategy of the scene opens with \<open>posBelow\<close> and a bounding box
  of 70 by 70 pixels. At the next \<^verbatim>\<open>apply\<close>, which is not the initial render and has
  \<^verbatim>\<open>growAfterOpen\<close> off, the overlay has grown to 95 by 95 and fits nowhere, so it is
  pushed; the strategy then has an exact position and the bounding box is written with a
  width and height of \<^verbatim>\<open>100%\<close>, the whole container of 100 by 100, while the capped size
  of 70 by 70 is only recorded.\<close>

theorem pushed_boundingBox_fills_container:
  "\<not> growAfterOpen openedFlexible \<and> \<not> isInitialRender openedFlexible \<and>
   boundingBox openedFlexible = Some 10 \<and>
   elementStyle openedFlexible 10 ''height'' = Some (Px 70) \<and>
   elementStyle openedFlexible 10 ''width'' = Some (Px 70) \<and>
   (\<exists>s'. apply' openedFlexible (sceneEnv 95) = Inr s' \<and> isPushed s' \<and>
      boundingBox s' = Some 10 \<and>
      elementStyle s' 10 ''height'' = Some (Text ''100%'') \<and>
      elementStyle s' 10 ''width'' = Some (Text ''100%'') \<and>
      bb_height (lastBoundingBoxSize s') = 70 \<and> bb_width (lastBoundingBoxSize s') = 70)"
proof -
  let ?m = "(measured openedFlexible (sceneEnv 95))\<lparr> isPushed := True \<rparr>"
  let ?s' = "applyPosition ?m (sceneEnv 95) posBelow \<lparr> pt_x = 30, pt_y = 30 \<rparr>"
  note m = opened_measured [OF sceneEnv_fields(3) sceneEnv_fields(4) sceneEnv_fields(5)
      sceneEnv_fields(6), of 95]
  have b: "boundingBoxEl ?m = 10" "hasExactPosition ?m"
    by (simp_all add: boundingBoxEl_def hasExactPosition_def m)
  have st: "elementStyle ?s' 10 ''height'' = Some (Text ''100%'')"
    "elementStyle ?s' 10 ''width'' = Some (Text ''100%'')"
    using applyPosition_box_style [of ?m "sceneEnv 95" posBelow "\<lparr> pt_x = 30, pt_y = 30 \<rparr>"]
    by (simp_all only: b if_True)
  have sz: "bb_height (lastBoundingBoxSize ?s') = 70" "bb_width (lastBoundingBoxSize ?s') = 70"
    by (simp_all add: applyPosition_size cappedBoundingBoxRect_def calculateBoundingBoxRect_def
        boundingBoxVertical_def boundingBoxHorizontal_def Let_def isRtl_def sceneEnv_fields m
        opened_size posBelow_def mkPosition_def mkRect_def)
  have f: "isPushed ?s'" "boundingBox ?s' = Some 10"
    by (simp_all add: applyPosition_fields m)
  show ?thesis
    using st sz f by (simp add: opened_then_pushed opened_fields opened_style)
qed

text \<open>C8, as the code has it. When \<^verbatim>\<open>growAfterOpen\<close> is off and the call is not the initial
  render, the size \<^verbatim>\<open>_setBoundingBoxStyles\<close> records in \<^verbatim>\<open>_lastBoundingBoxSize\<close> is, on each
  axis, the smaller of the calculated size and the last recorded size: it never exceeds the
  last one, and a smaller calculated size is taken as it is. With flexible positioning
  (flexible dimensions on, overlay not pushed) that size is the pixel height and width
  written to the bounding box; with an exact position the bounding box is written with a
  height and width of \<^verbatim>\<open>100%\<close> and the capped size is only recorded. The same holds for
  the bounding box a successful \<^verbatim>\<open>apply\<close> leaves behind.\<close>

theorem boundingBox_capped_unless_exact:
  assumes "\<not> growAfterOpen s" and "\<not> isInitialRender s"
  shows
   "(attached s \<longrightarrow>
       bb_height (lastBoundingBoxSize (setBoundingBoxStyles s env orig pos)) =
         min (bb_height (calculateBoundingBoxRect s env orig pos)) (bb_height (lastBoundingBoxSize s)) \<and>
       bb_width (lastBoundingBoxSize (setBoundingBoxStyles s env orig pos)) =
         min (bb_width (calculateBoundingBoxRect s env orig pos)) (bb_width (lastBoundingBoxSize s)) \<and>
       elementStyle (setBoundingBoxStyles s env orig pos) (boundingBoxEl s) ''height'' =
         Some (if hasExactPosition s then Text ''100%''
               else Px (min (bb_height (calculateBoundingBoxRect s env orig pos))
                            (bb_height (lastBoundingBoxSize s)))) \<and>
       elementStyle (setBoundingBoxStyles s env orig pos) (boundingBoxEl s) ''width'' =
         Some (if hasExactPosition s then Text ''100%''
               else Px (min (bb_width (calculateBoundingBoxRect s env orig pos))
                            (bb_width (lastBoundingBoxSize s))))) \<and>
    (\<forall>s'. apply' s env = Inr s' \<longrightarrow>
       bb_height (lastBoundingBoxSize s') \<le> bb_height (lastBoundingBoxSize s) \<and>
       bb_width (lastBoundingBoxSize s') \<le> bb_width (lastBoundingBoxSize s) \<and>
       (\<not> isDisposed s \<and> isBrowser env \<longrightarrow>
          elementStyle s' (boundingBoxEl s') ''height'' =
            Some (if hasExactPosition s' then Text ''100%''
                  else Px (bb_height (lastBoundingBoxSize s'))) \<and>
          elementStyle s' (boundingBoxEl s') ''width'' =
            Some (if hasExactPosition s' then Text ''100%''
                  else Px (bb_width (lastBoundingBoxSize s')))))"
proof -
  have size: "lastBoundingBoxSize (setBoundingBoxStyles s env orig pos) =
      cappedBoundingBoxRect s env orig pos"
    by (rule lastBoundingBoxSize_setBoundingBoxStyles)
  have h: "bb_height (cappedBoundingBoxRect s env orig pos) =
      min (bb_height (calculateBoundingBoxRect s env orig pos)) (bb_height (lastBoundingBoxSize s))"
    and w: "bb_width (cappedBoundingBoxRect s env orig pos) =
      min (bb_width (calculateBoundingBoxRect s env orig pos)) (bb_width (lastBoundingBoxSize s))"
    using assms by (simp_all add: cappedBoundingBoxRect_def Let_def)
  have styles:
    "elementStyle (setBoundingBoxStyles s env orig pos) (boundingBoxEl s) ''height'' =
       Some (if hasExactPosition s then Text ''100%''
             else Px (bb_height (cappedBoundingBoxRect s env orig pos)))"
    "elementStyle (setBoundingBoxStyles s env orig pos) (boundingBoxEl s) ''width'' =
       Some (if hasExactPosition s then Text ''100%''
             else Px (bb_width (cappedBoundingBoxRect s env orig pos)))"
    by (simp_all add: setBoundingBoxStyles_output withStyles_def extendStyles_def
        boundingBoxStyles_def coerceCssPixelValue_def Let_def)
  have app: "bb_height (lastBoundingBoxSize s') \<le> bb_height (lastBoundingBoxSize s) \<and>
       bb_width (lastBoundingBoxSize s') \<le> bb_width (lastBoundingBoxSize s) \<and>
       (\<not> isDisposed s \<and> isBrowser env \<longrightarrow>
          elementStyle s' (boundingBoxEl s') ''height'' =
            Some (if hasExactPosition s' then Text ''100%''
                  else Px (bb_height (lastBoundingBoxSize s'))) \<and>
          elementStyle s' (boundingBoxEl s') ''width'' =
            Some (if hasExactPosition s' then Text ''100%''
                  else Px (bb_width (lastBoundingBoxSize s'))))"
    if r: "apply' s env = Inr s'" for s'
  proof (cases "isDisposed s \<or> \<not> isBrowser env")
    case True
    with r have "s' = s" by (auto simp: apply'_def)
    with True show ?thesis by auto
  next
    case False
    with apply_success [OF r] obtain m p o' where
      s': "s' = applyPosition m env p o'"
      and m: "lastBoundingBoxSize m = lastBoundingBoxSize s" "growAfterOpen m = growAfterOpen s"
        "isInitialRender m = isInitialRender s"
      by blast
    from assms m have "\<not> growAfterOpen m" "\<not> isInitialRender m" by simp_all
    note le = capped_le [OF this, of env o' p]
    have e: "boundingBoxEl s' = boundingBoxEl m" "hasExactPosition s' = hasExactPosition m"
      by (simp_all add: s' boundingBoxEl_def hasExactPosition_def applyPosition_fields)
    have sz: "lastBoundingBoxSize s' = cappedBoundingBoxRect m env o' p"
      by (simp add: s' applyPosition_size)
    have "elementStyle s' (boundingBoxEl s') ''height'' =
            Some (if hasExactPosition s' then Text ''100%''
                  else Px (bb_height (lastBoundingBoxSize s')))"
      "elementStyle s' (boundingBoxEl s') ''width'' =
            Some (if hasExactPosition s' then Text ''100%''
                  else Px (bb_width (lastBoundingBoxSize s')))"
      unfolding e sz unfolding s' by (rule applyPosition_box_style)+
    with le show ?thesis
      by (simp add: sz m)
  qed
  show ?thesis
    unfolding size h w styles using app by blast
qed


text \<open>Witness for C8. In the hand-built state after a box of 50 by 50, a calculated box of
  70 by 70 is recorded and written as 50 by 50. The strategy of the scene, opened with a
  box of 70 by 70, is applied again: with the origin nearer to the corner the calculated
  box is 80 by 80 and 70 by 70 is recorded and written; with an overlay that has to be
  pushed, \<^verbatim>\<open>100%\<close> is written and 70 by 70 recorded.\<close>

theorem boundingBox_capped_unless_exact_witness:
  "\<not> growAfterOpen openedState \<and> \<not> isInitialRender openedState \<and> attached openedState \<and>
   \<not> hasExactPosition openedState \<and>
   bb_height (calculateBoundingBoxRect openedState (sceneEnv 30) \<lparr> pt_x = 30, pt_y = 30 \<rparr> posBelow) = 70 \<and>
   bb_height (lastBoundingBoxSize
      (setBoundingBoxStyles openedState (sceneEnv 30) \<lparr> pt_x = 30, pt_y = 30 \<rparr> posBelow)) = 50 \<and>
   bb_width (lastBoundingBoxSize
      (setBoundingBoxStyles openedState (sceneEnv 30) \<lparr> pt_x = 30, pt_y = 30 \<rparr> posBelow)) = 50 \<and>
   elementStyle (setBoundingBoxStyles openedState (sceneEnv 30) \<lparr> pt_x = 30, pt_y = 30 \<rparr> posBelow)
      (boundingBoxEl openedState) ''height'' = Some (Px 50) \<and>
   \<not> growAfterOpen openedFlexible \<and> \<not> isInitialRender openedFlexible \<and>
   \<not> isDisposed openedFlexible \<and> isBrowser nearEnv \<and> isBrowser (sceneEnv 95) \<and>
   bb_height (lastBoundingBoxSize openedFlexible) = 70 \<and>
   bb_width (lastBoundingBoxSize openedFlexible) = 70 \<and>
   (\<exists>s'. apply' openedFlexible nearEnv = Inr s' \<and> \<not> hasExactPosition s' \<and>
      bb_height (lastBoundingBoxSize s') = 70 \<and> bb_width (lastBoundingBoxSize s') = 70 \<and>
      elementStyle s' (boundingBoxEl s') ''height'' = Some (Px 70) \<and>
      elementStyle s' (boundingBoxEl s') ''width'' = Some (Px 70)) \<and>
   (\<exists>s'. apply' openedFlexible (sceneEnv 95) = Inr s' \<and> hasExactPosition s' \<and>
      bb_height (lastBoundingBoxSize s') \<le> 70 \<and> bb_width (lastBoundingBoxSize s') \<le> 70 \<and>
      elementStyle s' (boundingBoxEl s') ''height'' = Some (Text ''100%'') \<and>
      elementStyle s' (boundingBoxEl s') ''width'' = Some (Text ''100%''))"
proof -
  let ?o = "\<lparr> pt_x = 30, pt_y = 30 \<rparr>"
  let ?n = "applyPosition ((measured openedFlexible nearEnv)\<lparr> isPushed := False \<rparr>)
              nearEnv posBelow \<lparr> pt_x = 20, pt_y = 20 \<rparr>"
  let ?p = "applyPosition ((measured openedFlexible (sceneEnv 95))\<lparr> isPushed := True \<rparr>)
              (sceneEnv 95) posBelow ?o"
  have g: "\<not> growAfterOpen openedState" and i: "\<not> isInitialRender openedState"
    and e: "\<not> hasExactPosition openedState" and a: "attached openedState"
    by (simp_all add: hasExactPosition_def attached_def openedState_def lockedState_def
        sceneState_def newStrategy_def)
  have l: "bb_height (lastBoundingBoxSize openedState) = 50"
    "bb_width (lastBoundingBoxSize openedState) = 50"
    by (simp_all add: openedState_def)
  have c: "bb_height (calculateBoundingBoxRect openedState (sceneEnv 30) ?o posBelow) = 70"
    "bb_width (calculateBoundingBoxRect openedState (sceneEnv 30) ?o posBelow) = 70"
    by (simp_all add: calculateBoundingBoxRect_def boundingBoxVertical_def
        boundingBoxHorizontal_def Let_def isRtl_def sceneEnv_fields posBelow_def mkPosition_def
        openedState_def lockedState_def sceneState_def newStrategy_def mkRect_def)
  have first: "bb_height (lastBoundingBoxSize
      (setBoundingBoxStyles openedState (sceneEnv 30) ?o posBelow)) = 50 \<and>
    bb_width (lastBoundingBoxSize
      (setBoundingBoxStyles openedState (sceneEnv 30) ?o posBelow)) = 50 \<and>
    elementStyle (setBoundingBoxStyles openedState (sceneEnv 30) ?o posBelow)
      (boundingBoxEl openedState) ''height'' = Some (Px 50)"
    using boundingBox_capped_unless_exact [OF g i, of "sceneEnv 30" ?o posBelow] e a
    by (simp add: l c)
  note mn = opened_measured [OF nearEnv_fields(2) nearEnv_fields(3) nearEnv_fields(4)
      nearEnv_fields(5)]
  note mp = opened_measured [OF sceneEnv_fields(3) sceneEnv_fields(4) sceneEnv_fields(5)
      sceneEnv_fields(6), of 95]
  have n: "\<not> hasExactPosition ?n" "bb_height (lastBoundingBoxSize ?n) = 70"
    "bb_width (lastBoundingBoxSize ?n) = 70"
    by (simp_all add: hasExactPosition_def applyPosition_fields applyPosition_size mn
        cappedBoundingBoxRect_def Let_def near_calculated opened_size)
  have p: "hasExactPosition ?p"
    by (simp add: hasExactPosition_def applyPosition_fields)
  have second: "elementStyle ?n (boundingBoxEl ?n) ''height'' = Some (Px 70) \<and>
      elementStyle ?n (boundingBoxEl ?n) ''width'' = Some (Px 70)"
    using boundingBox_capped_unless_exact [OF opened_fields(4) opened_fields(3), of nearEnv]
      opened_then_near n
    by (simp add: opened_fields nearEnv_fields)
  have third: "bb_height (lastBoundingBoxSize ?p) \<le> 70 \<and> bb_width (lastBoundingBoxSize ?p) \<le> 70 \<and>
      elementStyle ?p (boundingBoxEl ?p) ''height'' = Some (Text ''100%'') \<and>
      elementStyle ?p (boundingBoxEl ?p) ''width'' = Some (Text ''100%'')"
    using boundingBox_capped_unless_exact [OF opened_fields(4) opened_fields(3), of "sceneEnv 95"]
      opened_then_pushed p
    by (simp add: opened_fields sceneEnv_fields opened_size)
  show ?thesis
    using first second third n p g i e a
    by (simp add: c opened_fields opened_size nearEnv_fields sceneEnv_fields opened_then_near
        opened_then_pushed)
qed

end
